theory Spec2Isabelle
  imports Main "HOL-Library.Word" "HOL-Library.Monad_Syntax"
begin

unbundle bit_operations_syntax

section \<open>Data model of the router (chirouter.h, as used by router.c)\<close>

text \<open>
  The router works on raw Ethernet frames. Bytes are 8-bit words; the 16-bit header
  fields are converted with \<open>ntohs\<close>/\<open>htons\<close> in the source, so they are read and
  written big-endian. The 32-bit fields (IPv4 addresses) are never converted: the source
  loads and stores them as \<open>uint32_t\<close> in the byte order of the host, which is taken to
  be little-endian here. An \<open>in_addr\<close> of the configuration is the \<open>uint32_t\<close> that
  \<open>in_addr_to_uint32\<close> gives for it.
\<close>

type_synonym byte = "8 word"
type_synonym in_addr = "32 word"
type_synonym addr = nat

record chirouter_interface =
  name :: string
  mac :: "byte list"
  ip :: in_addr

record chirouter_rtable_entry =
  dest :: in_addr
  mask :: in_addr
  gw :: in_addr
  interface :: chirouter_interface

text \<open>
  An \<open>ethernet_frame_t\<close>: \<open>raw\<close> points to the frame's bytes in memory, \<open>flength\<close> is the
  field \<open>length\<close> of the source, \<open>in_interface\<close> the interface the frame arrived on
  (interfaces are never changed after start-up, so the pointer is modelled by the value
  it points to).
\<close>

record ethernet_frame =
  raw :: addr
  flength :: nat
  in_interface :: chirouter_interface

text \<open>
  The ARP cache is an array of slots, a slot being in use when \<open>valid\<close>. A pending ARP
  request owns the frames withheld for its address; each withheld frame is an
  \<open>ethernet_frame_t\<close> of its own, with its own byte buffer.
\<close>

record chirouter_arpcache_entry =
  valid :: bool
  cache_mac :: "byte list"
  cache_ip :: in_addr
  time_added :: int

record chirouter_pending_arp_req =
  req_ip :: in_addr
  times_sent :: nat
  last_sent :: int
  out_interface :: chirouter_interface
  withheld_frames :: "ethernet_frame list"

text \<open>
  The router context \<open>chirouter_ctx_t\<close>, together with the part of the machine the
  router acts on: \<open>heap\<close> holds the byte buffers that frames point to (a buffer's
  address is its index, a freed or never allocated address holds \<open>None\<close>), \<open>avail\<close>
  is the number of bytes the allocator can still hand out, and \<open>sent\<close> is the list of
  frames handed to \<open>chirouter_send_frame\<close>, oldest first, each with the interface it
  was sent on. The mutex \<open>lock_arp\<close> is left out: calls of
  \<open>chirouter_process_ethernet_frame\<close> are sequential.
\<close>

record chirouter_ctx =
  interfaces :: "chirouter_interface list"
  routing_table :: "chirouter_rtable_entry list"
  arp_cache :: "chirouter_arpcache_entry list"
  pending_arp_reqs :: "chirouter_pending_arp_req list"
  heap :: "byte list option list"
  avail :: nat
  sent :: "(chirouter_interface \<times> byte list) list"

definition in_addr_to_uint32 :: "in_addr \<Rightarrow> 32 word" where
  "in_addr_to_uint32 a = a"

definition uint32_to_in_addr :: "32 word \<Rightarrow> in_addr" where
  "uint32_to_in_addr w = w"

subsection \<open>Constants of the protocol headers\<close>

text \<open>
  Modelled from the spec: the header files that define these constants (ethernet.h,
  ipv4.h, icmp.h, arp.h) are not part of the sources; the values are the ones of the wire
  formats the specification names (Ethernet II, RFC 791, RFC 792, RFC 826).
\<close>

definition ETHERTYPE_IP :: "16 word" where "ETHERTYPE_IP = 0x0800"
definition ETHERTYPE_ARP :: "16 word" where "ETHERTYPE_ARP = 0x0806"
definition ETHERTYPE_IPV6 :: "16 word" where "ETHERTYPE_IPV6 = 0x86DD"
definition IPPROTO_ICMP :: byte where "IPPROTO_ICMP = 1"
definition IPPROTO_TCP :: byte where "IPPROTO_TCP = 6"
definition IPPROTO_UDP :: byte where "IPPROTO_UDP = 17"
definition ICMPTYPE_ECHO_REPLY :: byte where "ICMPTYPE_ECHO_REPLY = 0"
definition ICMPTYPE_DEST_UNREACHABLE :: byte where "ICMPTYPE_DEST_UNREACHABLE = 3"
definition ICMPTYPE_ECHO_REQUEST :: byte where "ICMPTYPE_ECHO_REQUEST = 8"
definition ICMPTYPE_TIME_EXCEEDED :: byte where "ICMPTYPE_TIME_EXCEEDED = 11"
definition ICMPCODE_DEST_NET_UNREACHABLE :: byte where "ICMPCODE_DEST_NET_UNREACHABLE = 0"
definition ICMPCODE_DEST_HOST_UNREACHABLE :: byte where "ICMPCODE_DEST_HOST_UNREACHABLE = 1"
definition ICMPCODE_DEST_PROTOCOL_UNREACHABLE :: byte where "ICMPCODE_DEST_PROTOCOL_UNREACHABLE = 2"
definition ICMPCODE_DEST_PORT_UNREACHABLE :: byte where "ICMPCODE_DEST_PORT_UNREACHABLE = 3"
definition ARP_OP_REQUEST :: "16 word" where "ARP_OP_REQUEST = 1"
definition ARP_OP_REPLY :: "16 word" where "ARP_OP_REPLY = 2"
definition ETHER_ADDR_LEN :: int where "ETHER_ADDR_LEN = 6"
definition ICMP_HDR_SIZE :: int where "ICMP_HDR_SIZE = 8"
definition sizeof_ethhdr_t :: int where "sizeof_ethhdr_t = 14"
definition sizeof_iphdr_t :: int where "sizeof_iphdr_t = 20"

section \<open>Memory\<close>

text \<open>
  A read or a write outside the buffer it is aimed at is undefined behaviour in C. The
  model makes it a result of its own: every access is checked against the size of the
  buffer, and \<open>None\<close> stands for an access out of bounds (or through an address that
  holds no buffer).
\<close>

definition peek :: "byte list \<Rightarrow> nat \<Rightarrow> nat \<Rightarrow> byte list" where
  "peek buf off n = take n (drop off buf)"

text \<open>Writing the bytes \<open>src\<close> into a buffer from offset \<open>off\<close> on, one byte after the other.\<close>

fun poke :: "byte list \<Rightarrow> nat \<Rightarrow> byte list \<Rightarrow> byte list" where
  "poke buf off [] = buf"
| "poke buf off (b # bs) = poke (buf[off := b]) (Suc off) bs"

definition load :: "byte list \<Rightarrow> nat \<Rightarrow> nat \<Rightarrow> byte list option" where
  "load buf off n = (if off + n \<le> length buf then Some (peek buf off n) else None)"

definition store :: "byte list \<Rightarrow> nat \<Rightarrow> byte list \<Rightarrow> byte list option" where
  "store buf off src =
     (if off + length src \<le> length buf then Some (poke buf off src) else None)"

text \<open>\<open>memcpy(dst + doff, src + soff, n)\<close>; a negative \<open>n\<close> becomes a huge \<open>size_t\<close>.\<close>

definition memcpy :: "byte list \<Rightarrow> nat \<Rightarrow> byte list \<Rightarrow> nat \<Rightarrow> int \<Rightarrow> byte list option" where
  "memcpy dst doff src soff n =
     (if n < 0 then None
      else do { bs \<leftarrow> load src soff (nat n); store dst doff bs })"

definition load8 :: "byte list \<Rightarrow> nat \<Rightarrow> byte option" where
  "load8 buf off = (if off < length buf then Some (buf ! off) else None)"

definition store8 :: "byte list \<Rightarrow> nat \<Rightarrow> byte \<Rightarrow> byte list option" where
  "store8 buf off b = store buf off [b]"

text \<open>A 16-bit field in network byte order: \<open>ntohs\<close> of a load, a store of \<open>htons\<close>.\<close>

definition be16 :: "byte list \<Rightarrow> 16 word" where
  "be16 bs = push_bit 8 (ucast (bs ! 0)) OR ucast (bs ! 1)"

definition be16_bytes :: "16 word \<Rightarrow> byte list" where
  "be16_bytes w = [ucast (drop_bit 8 w), ucast w]"

definition load16 :: "byte list \<Rightarrow> nat \<Rightarrow> 16 word option" where
  "load16 buf off = map_option be16 (load buf off 2)"

definition store16 :: "byte list \<Rightarrow> nat \<Rightarrow> 16 word \<Rightarrow> byte list option" where
  "store16 buf off w = store buf off (be16_bytes w)"

text \<open>A \<open>uint32_t\<close> in memory, in the byte order of the (little-endian) host.\<close>

definition le32 :: "byte list \<Rightarrow> 32 word" where
  "le32 bs = ucast (bs ! 0) OR push_bit 8 (ucast (bs ! 1))
             OR push_bit 16 (ucast (bs ! 2)) OR push_bit 24 (ucast (bs ! 3))"

definition le32_bytes :: "32 word \<Rightarrow> byte list" where
  "le32_bytes w = [ucast w, ucast (drop_bit 8 w), ucast (drop_bit 16 w), ucast (drop_bit 24 w)]"

definition load32 :: "byte list \<Rightarrow> nat \<Rightarrow> 32 word option" where
  "load32 buf off = map_option le32 (load buf off 4)"

definition store32 :: "byte list \<Rightarrow> nat \<Rightarrow> 32 word \<Rightarrow> byte list option" where
  "store32 buf off w = store buf off (le32_bytes w)"

text \<open>The buffer a frame's \<open>raw\<close> points to.\<close>

definition frame_bytes :: "chirouter_ctx \<Rightarrow> ethernet_frame \<Rightarrow> byte list option" where
  "frame_bytes ctx frm =
     (if raw frm < length (heap ctx) then heap ctx ! raw frm else None)"

text \<open>
  Modelled from the spec: the allocator is not part of the sources. \<open>calloc\<close> of \<open>n\<close>
  bytes fails when fewer than \<open>n\<close> bytes are available; otherwise it gives a new
  buffer of \<open>n\<close> zero bytes at an address that held nothing before. \<open>free\<close> gives
  the bytes of a buffer back.
\<close>

definition calloc :: "chirouter_ctx \<Rightarrow> nat \<Rightarrow> (addr \<times> chirouter_ctx) option" where
  "calloc ctx n =
     (if n \<le> avail ctx
      then Some (length (heap ctx),
                 ctx\<lparr>heap := heap ctx @ [Some (replicate n 0)], avail := avail ctx - n\<rparr>)
      else None)"

definition free :: "chirouter_ctx \<Rightarrow> addr \<Rightarrow> chirouter_ctx" where
  "free ctx a =
     (if a < length (heap ctx)
      then (case heap ctx ! a of
              None \<Rightarrow> ctx
            | Some bs \<Rightarrow> ctx\<lparr>heap := (heap ctx)[a := None], avail := avail ctx + length bs\<rparr>)
      else ctx)"

text \<open>
  Modelled from the spec: \<open>send_frame(ctx, iface, bytes)\<close> of the I/O layer transmits
  a prepared frame; here it appends the first \<open>len\<close> bytes of the buffer to \<open>sent\<close>.
\<close>

definition chirouter_send_frame ::
  "chirouter_ctx \<Rightarrow> chirouter_interface \<Rightarrow> byte list \<Rightarrow> nat \<Rightarrow> chirouter_ctx" where
  "chirouter_send_frame ctx iface msg len = ctx\<lparr>sent := sent ctx @ [(iface, take len msg)]\<rparr>"

text \<open>
  Modelled from the spec: the Internet checksum of utils.h is not part of the sources.
  It is the complement of the one's-complement sum of the 16-bit big-endian words of the
  buffer, an odd last byte being padded with a zero byte. The source stores the result
  of \<open>cksum\<close> as it gets it, in network byte order; here \<open>cksum\<close> is the number and the
  store is big-endian.
\<close>

definition oc_add :: "16 word \<Rightarrow> 16 word \<Rightarrow> 16 word" where
  "oc_add a b = (let s = unat a + unat b in of_nat (s mod 65536 + s div 65536))"

fun be_words :: "byte list \<Rightarrow> 16 word list" where
  "be_words [] = []"
| "be_words [a] = [be16 [a, 0]]"
| "be_words (a # b # bs) = be16 [a, b] # be_words bs"

definition cksum :: "byte list \<Rightarrow> 16 word" where
  "cksum bs = NOT (fold oc_add (be_words bs) 0)"

section \<open>The ARP module (arp.c), as the router uses it\<close>

fun find_index :: "('a \<Rightarrow> bool) \<Rightarrow> 'a list \<Rightarrow> nat option" where
  "find_index P [] = None"
| "find_index P (x # xs) = (if P x then Some 0 else map_option Suc (find_index P xs))"

text \<open>
  Modelled from the spec: arp.c is not part of the sources. \<open>lookup(ip)\<close> is a linear
  scan of the cache for an entry in use with that address.
\<close>

definition chirouter_arp_cache_lookup ::
  "chirouter_ctx \<Rightarrow> in_addr \<Rightarrow> chirouter_arpcache_entry option" where
  "chirouter_arp_cache_lookup ctx a = find (\<lambda>e. valid e \<and> cache_ip e = a) (arp_cache ctx)"

text \<open>
  Modelled from the spec: \<open>add(ip, mac)\<close> inserts or refreshes the entry and stamps the
  insertion time. The cache has a fixed capacity (the number of slots of \<open>arp_cache\<close>);
  an insertion into a full cache is rejected with a result other than 0.
\<close>

definition chirouter_arp_cache_add ::
  "int \<Rightarrow> chirouter_ctx \<Rightarrow> in_addr \<Rightarrow> byte list \<Rightarrow> int \<times> chirouter_ctx" where
  "chirouter_arp_cache_add now ctx a m =
     (let entry = \<lparr>valid = True, cache_mac = m, cache_ip = a, time_added = now\<rparr> in
      case find_index (\<lambda>e. valid e \<and> cache_ip e = a) (arp_cache ctx) of
        Some i \<Rightarrow> (0, ctx\<lparr>arp_cache := (arp_cache ctx)[i := entry]\<rparr>)
      | None \<Rightarrow>
          (case find_index (\<lambda>e. \<not> valid e) (arp_cache ctx) of
             Some i \<Rightarrow> (0, ctx\<lparr>arp_cache := (arp_cache ctx)[i := entry]\<rparr>)
           | None \<Rightarrow> (1, ctx)))"

text \<open>
  Modelled from the spec: \<open>lookup(ip)\<close> on the pending-request table; the result is the
  position of the entry in the list (the pointer of the source).
\<close>

definition chirouter_arp_pending_req_lookup :: "chirouter_ctx \<Rightarrow> in_addr \<Rightarrow> nat option" where
  "chirouter_arp_pending_req_lookup ctx a =
     find_index (\<lambda>r. req_ip r = a) (pending_arp_reqs ctx)"

text \<open>
  Modelled from the spec: \<open>create(ip, iface)\<close> appends a new entry with
  \<open>times_sent = 0\<close> and \<open>last_sent = 0\<close>.
\<close>

definition chirouter_arp_pending_req_add ::
  "chirouter_ctx \<Rightarrow> in_addr \<Rightarrow> chirouter_interface \<Rightarrow> nat \<times> chirouter_ctx" where
  "chirouter_arp_pending_req_add ctx a iface =
     (length (pending_arp_reqs ctx),
      ctx\<lparr>pending_arp_reqs := pending_arp_reqs ctx @
            [\<lparr>req_ip = a, times_sent = 0, last_sent = 0, out_interface = iface,
              withheld_frames = []\<rparr>]\<rparr>)"

text \<open>
  Modelled from the spec: \<open>attach_frame(entry, frame)\<close> takes a deep copy of the frame
  and appends it to the entry's withheld list; it returns an error (1) only on
  allocation failure. The copy reads \<open>length\<close> bytes of the frame's buffer.
\<close>

definition chirouter_arp_pending_req_add_frame ::
  "chirouter_ctx \<Rightarrow> nat \<Rightarrow> ethernet_frame \<Rightarrow> (int \<times> chirouter_ctx) option" where
  "chirouter_arp_pending_req_add_frame ctx p frm =
     (if p < length (pending_arp_reqs ctx) then
        (case calloc ctx (flength frm) of
           None \<Rightarrow> Some (1, ctx)
         | Some (a, ctx1) \<Rightarrow> do {
             fb \<leftarrow> frame_bytes ctx frm;
             bs \<leftarrow> load fb 0 (flength frm);
             let copy = \<lparr>raw = a, flength = flength frm, in_interface = in_interface frm\<rparr>;
             let req = pending_arp_reqs ctx1 ! p;
             Some (0, ctx1\<lparr>heap := (heap ctx1)[a := Some bs],
                            pending_arp_reqs := (pending_arp_reqs ctx1)
                              [p := req\<lparr>withheld_frames := withheld_frames req @ [copy]\<rparr>]\<rparr>)
           })
      else None)"

text \<open>
  Modelled from the spec: \<open>remove(entry)\<close> frees all withheld frames and the entry. The
  source does it in two steps; this is the first, which frees the buffers of the
  withheld frames and empties the list.
\<close>

definition chirouter_arp_pending_req_free_frames ::
  "chirouter_ctx \<Rightarrow> nat \<Rightarrow> int \<times> chirouter_ctx" where
  "chirouter_arp_pending_req_free_frames ctx p =
     (let req = pending_arp_reqs ctx ! p;
          ctx1 = fold (\<lambda>w c. free c (raw w)) (withheld_frames req) ctx
      in (0, ctx1\<lparr>pending_arp_reqs := (pending_arp_reqs ctx1)[p := req\<lparr>withheld_frames := []\<rparr>]\<rparr>))"

text \<open>\<open>DL_DELETE(ctx->pending_arp_reqs, arp_req); free(arp_req)\<close> of the source.\<close>

definition DL_DELETE :: "'a list \<Rightarrow> nat \<Rightarrow> 'a list" where
  "DL_DELETE xs p = take p xs @ drop (Suc p) xs"

text \<open>
  Modelled from the spec: \<open>chirouter_send_arp_message\<close> is called by router.c but defined
  elsewhere. A request is broadcast (destination \<open>ff:ff:ff:ff:ff:ff\<close>, no target
  hardware address), a reply goes to the given hardware address; the sender is the
  interface, the target protocol address is the given one. The packet is the
  Ethernet/IPv4 variant (hardware 1, protocol 0x0800, lengths 6 and 4).
\<close>

definition chirouter_send_arp_message ::
  "chirouter_ctx \<Rightarrow> chirouter_interface \<Rightarrow> byte list option \<Rightarrow> 32 word \<Rightarrow> 16 word
   \<Rightarrow> chirouter_ctx" where
  "chirouter_send_arp_message ctx iface dst_mac dst_ip op =
     (let eth_dst = (case dst_mac of None \<Rightarrow> replicate 6 0xff | Some m \<Rightarrow> m);
          tha = (case dst_mac of None \<Rightarrow> replicate 6 0 | Some m \<Rightarrow> m);
          msg = eth_dst @ mac iface @ be16_bytes ETHERTYPE_ARP
                @ be16_bytes 1 @ be16_bytes ETHERTYPE_IP @ [6, 4] @ be16_bytes op
                @ mac iface @ le32_bytes (in_addr_to_uint32 (ip iface))
                @ tha @ le32_bytes dst_ip
      in chirouter_send_frame ctx iface msg (length msg))"

section \<open>Route lookup\<close>

text \<open>
  The loop of \<open>chirouter_get_matching_entry\<close> over the routing table, for the
  destination address \<open>dst\<close> read from the frame's IP header. \<open>result\<close> is the pointer
  into the table (an index), \<open>None\<close> for \<open>NULL\<close>.
\<close>

function rtable_loop ::
  "chirouter_rtable_entry list \<Rightarrow> 32 word \<Rightarrow> nat \<Rightarrow> nat option \<Rightarrow> nat option" where
  "rtable_loop rt dst i result =
     (if i < length rt then
        (let entry_mask = in_addr_to_uint32 (mask (rt ! i));
             entry_dst = in_addr_to_uint32 (dest (rt ! i))
         in rtable_loop rt dst (Suc i)
              (if (dst AND entry_mask) = entry_dst then
                 (case result of
                    Some r \<Rightarrow>
                      (let current_mask = in_addr_to_uint32 (mask (rt ! r))
                       in if current_mask < entry_mask then Some i else result)
                  | None \<Rightarrow> Some i)
               else result))
      else result)"
  by pat_completeness auto
termination
  by (relation "measure (\<lambda>(rt, dst, i, result). length rt - i)") auto


text \<open>
  \<open>get_forward_ip\<close>: the gateway of the routing entry when it is not 0, else the
  destination itself.
\<close>

definition get_forward_ip :: "chirouter_rtable_entry \<Rightarrow> 32 word \<Rightarrow> 32 word" where
  "get_forward_ip routing_entry dst_ip =
     (let gateway = in_addr_to_uint32 (gw routing_entry)
      in if gateway \<noteq> 0 then gateway else dst_ip)"

text \<open>
  \<open>chirouter_get_matching_entry\<close>: \<open>fb\<close> is the buffer of the frame. The loop reads
  \<open>ip_hdr->dst\<close> (bytes 30 to 33 of the frame) in every round, so nothing is read when
  the table is empty.
\<close>

definition chirouter_get_matching_entry :: "chirouter_ctx \<Rightarrow> byte list \<Rightarrow> nat option option" where
  "chirouter_get_matching_entry ctx fb =
     (if routing_table ctx = [] then Some None
      else map_option (\<lambda>dst. rtable_loop (routing_table ctx) dst 0 None) (load32 fb 30))"

section \<open>Forwarding\<close>

text \<open>
  \<open>forward_ip_datagram\<close> builds the new frame in the local array \<open>msg\<close> of
  \<open>frame->length\<close> bytes and hands it to \<open>chirouter_send_frame\<close>. \<open>rentry\<close> is
  dereferenced without a test, so a frame for which no route matches is an access
  through \<open>NULL\<close>.
\<close>

definition forward_ip_datagram ::
  "chirouter_ctx \<Rightarrow> ethernet_frame \<Rightarrow> byte list \<Rightarrow> chirouter_ctx option" where
  "forward_ip_datagram ctx frm dst_mac = do {
     fb \<leftarrow> frame_bytes ctx frm;
     r \<leftarrow> chirouter_get_matching_entry ctx fb;
     let msg_len = flength frm;
     let msg0 = replicate msg_len 0;
     msg1 \<leftarrow> memcpy msg0 0 dst_mac 0 ETHER_ADDR_LEN;
     rentry \<leftarrow> map_option (\<lambda>i. routing_table ctx ! i) r;
     msg2 \<leftarrow> memcpy msg1 6 (mac (interface rentry)) 0 ETHER_ADDR_LEN;
     msg3 \<leftarrow> store16 msg2 12 ETHERTYPE_IP;
     len \<leftarrow> load16 fb 16;
     msg4 \<leftarrow> memcpy msg3 14 fb 14 (uint len);
     ttl \<leftarrow> load8 fb 22;
     msg5 \<leftarrow> store8 msg4 22 (ttl - 1);
     msg6 \<leftarrow> store16 msg5 24 0;
     hdr \<leftarrow> load msg6 14 20;
     msg7 \<leftarrow> store16 msg6 24 (cksum hdr);
     Some (chirouter_send_frame ctx (interface rentry) msg7 msg_len)
   }"

fun find_match_loop :: "chirouter_interface list \<Rightarrow> 32 word \<Rightarrow> bool" where
  "find_match_loop [] dst = False"
| "find_match_loop (iface # ifaces) dst =
     (if in_addr_to_uint32 (ip iface) = dst then True else find_match_loop ifaces dst)"

definition chirouter_find_match_router :: "chirouter_ctx \<Rightarrow> byte list \<Rightarrow> bool option" where
  "chirouter_find_match_router ctx fb =
     (if interfaces ctx = [] then Some False
      else map_option (find_match_loop (interfaces ctx)) (load32 fb 30))"

section \<open>The ICMP responder\<close>

text \<open>
  The array \<open>reply\<close> of \<open>chirouter_send_icmp\<close> is filled in three steps, which follow
  the source in the order of its stores: the Ethernet header (lines 218 to 220), the IP
  header (lines 223 to 241) and the ICMP packet (lines 244 to 267). \<open>fb\<close> is the buffer
  of the trigger frame. \<open>version\<close> and \<open>ihl\<close> are the two halves of byte 14.
\<close>

definition icmp_ethernet_header ::
  "byte list \<Rightarrow> byte list \<Rightarrow> ethernet_frame \<Rightarrow> byte list option" where
  "icmp_ethernet_header r0 fb frm = do {
     r1 \<leftarrow> memcpy r0 0 fb 6 ETHER_ADDR_LEN;
     r2 \<leftarrow> memcpy r1 6 (mac (in_interface frm)) 0 ETHER_ADDR_LEN;
     store16 r2 12 ETHERTYPE_IP
   }"

text \<open>\<open>len\<close> is the value that line 234 or line 238 gives to \<open>htons\<close>.\<close>

definition icmp_ip_header ::
  "byte list \<Rightarrow> byte list \<Rightarrow> ethernet_frame \<Rightarrow> 16 word \<Rightarrow> byte list option" where
  "icmp_ip_header r3 fb frm len = do {
     b \<leftarrow> load8 r3 14;
     r4 \<leftarrow> store8 r3 14 ((b AND 0x0F) OR push_bit 4 4);
     r5 \<leftarrow> store8 r4 15 0;
     r6 \<leftarrow> store8 r5 23 1;
     src \<leftarrow> load32 fb 26;
     r7 \<leftarrow> store32 r6 30 src;
     r8 \<leftarrow> store32 r7 26 (in_addr_to_uint32 (ip (in_interface frm)));
     r9 \<leftarrow> store16 r8 24 0;
     r10 \<leftarrow> store16 r9 18 0;
     r11 \<leftarrow> store16 r10 20 0;
     b' \<leftarrow> load8 r11 14;
     r12 \<leftarrow> store8 r11 14 ((b' AND 0xF0) OR 5);
     r13 \<leftarrow> store16 r12 16 len;
     r14 \<leftarrow> store8 r13 22 64;
     hdr \<leftarrow> load r14 14 20;
     store16 r14 24 (cksum hdr)
   }"

text \<open>
  Lines 247 to 266, the part of the ICMP packet after its first four bytes. The echo
  fields \<open>identifier\<close> and \<open>seq_num\<close> are copied as they are (a 16-bit load and store
  with no conversion), and the payload of each kind of message starts 8 bytes into the
  ICMP message.
\<close>

definition icmp_payload ::
  "byte list \<Rightarrow> byte list \<Rightarrow> byte \<Rightarrow> byte \<Rightarrow> int \<Rightarrow> byte list option" where
  "icmp_payload r18 fb type code payload_len =
     (if type = ICMPTYPE_ECHO_REQUEST \<or> type = ICMPTYPE_ECHO_REPLY then
        (if code = 0 then do {
           ra \<leftarrow> memcpy r18 38 fb 38 2;
           rb \<leftarrow> memcpy ra 40 fb 40 2;
           memcpy rb 42 fb 42 payload_len }
         else Some r18)
      else if type = ICMPTYPE_DEST_UNREACHABLE then memcpy r18 42 fb 14 payload_len
      else memcpy r18 42 fb 14 payload_len)"

text \<open>The length that \<open>cksum\<close> is given is an \<open>int\<close>.\<close>

definition icmp_packet ::
  "byte list \<Rightarrow> byte list \<Rightarrow> byte \<Rightarrow> byte \<Rightarrow> int \<Rightarrow> byte list option" where
  "icmp_packet r15 fb type code payload_len = do {
     r16 \<leftarrow> store8 r15 34 type;
     r17 \<leftarrow> store8 r16 35 code;
     r18 \<leftarrow> store16 r17 36 0;
     r19 \<leftarrow> icmp_payload r18 fb type code payload_len;
     icmp \<leftarrow> (if ICMP_HDR_SIZE + payload_len < 0 then None
              else load r19 34 (nat (ICMP_HDR_SIZE + payload_len)));
     store16 r19 36 (cksum icmp)
   }"

definition icmp_reply ::
  "byte list \<Rightarrow> ethernet_frame \<Rightarrow> byte \<Rightarrow> byte \<Rightarrow> byte list option" where
  "icmp_reply fb frm type code = do {
     let echo = (type = ICMPTYPE_ECHO_REPLY \<or> type = ICMPTYPE_ECHO_REQUEST);
     payload_len \<leftarrow>
       (if echo then map_option (\<lambda>len. uint len - sizeof_iphdr_t - ICMP_HDR_SIZE) (load16 fb 16)
        else Some (sizeof_iphdr_t + 8));
     let reply_len = sizeof_ethhdr_t + sizeof_iphdr_t + ICMP_HDR_SIZE + payload_len;
     let r0 = replicate (nat reply_len) 0;
     r3 \<leftarrow> icmp_ethernet_header r0 fb frm;
     r15 \<leftarrow> icmp_ip_header r3 fb frm
              (if echo then word_of_int (int (flength frm) - sizeof_ethhdr_t)
               else word_of_int (sizeof_iphdr_t + ICMP_HDR_SIZE + payload_len));
     icmp_packet r15 fb type code payload_len
   }"

definition chirouter_send_icmp ::
  "chirouter_ctx \<Rightarrow> byte \<Rightarrow> byte \<Rightarrow> ethernet_frame \<Rightarrow> chirouter_ctx option" where
  "chirouter_send_icmp ctx type code frm = do {
     fb \<leftarrow> frame_bytes ctx frm;
     reply \<leftarrow> icmp_reply fb frm type code;
     Some (chirouter_send_frame ctx (in_interface frm) reply (length reply))
   }"

section \<open>Processing an inbound frame\<close>

text \<open>
  What a call of \<open>chirouter_process_ethernet_frame\<close> gives its caller: the value of a
  \<open>return\<close> statement, or nothing when control reaches the closing brace of the
  function, where the source has no \<open>return\<close>.
\<close>

datatype retval = Ret int | NoValue

text \<open>Lines 323 to 358: the frame is addressed to the interface it arrived on.\<close>

definition process_ip_to_router ::
  "chirouter_ctx \<Rightarrow> ethernet_frame \<Rightarrow> byte list \<Rightarrow> chirouter_ctx option" where
  "process_ip_to_router ctx frm fb = do {
     proto \<leftarrow> load8 fb 23;
     if proto = IPPROTO_TCP \<or> proto = IPPROTO_UDP then
       chirouter_send_icmp ctx ICMPTYPE_DEST_UNREACHABLE ICMPCODE_DEST_PORT_UNREACHABLE frm
     else do {
       ttl \<leftarrow> load8 fb 22;
       if ttl = 1 then chirouter_send_icmp ctx ICMPTYPE_TIME_EXCEEDED 0 frm
       else if proto = IPPROTO_ICMP then do {
         icmp_type \<leftarrow> load8 fb 34;
         if icmp_type = ICMPTYPE_ECHO_REQUEST
         then chirouter_send_icmp ctx ICMPTYPE_ECHO_REPLY 0 frm
         else Some ctx }
       else chirouter_send_icmp ctx ICMPTYPE_DEST_UNREACHABLE
              ICMPCODE_DEST_PROTOCOL_UNREACHABLE frm }
   }"

text \<open>
  Lines 367 to 447: the frame is for another host. \<open>now\<close> is what \<open>time(NULL)\<close>
  returns during the call.
\<close>

definition process_ip_forward ::
  "int \<Rightarrow> chirouter_ctx \<Rightarrow> ethernet_frame \<Rightarrow> byte list \<Rightarrow> 32 word
   \<Rightarrow> (retval \<times> chirouter_ctx) option" where
  "process_ip_forward now ctx frm fb ip_dst = do {
     forward_entry \<leftarrow> chirouter_get_matching_entry ctx fb;
     case forward_entry of
       Some i \<Rightarrow>
         (let entry = routing_table ctx ! i;
              forward_ip = get_forward_ip entry ip_dst
          in case chirouter_arp_cache_lookup ctx (uint32_to_in_addr forward_ip) of
               None \<Rightarrow>
                 (case chirouter_arp_pending_req_lookup ctx (uint32_to_in_addr forward_ip) of
                    None \<Rightarrow>
                      (let ctx1 = chirouter_send_arp_message ctx (interface entry) None
                                    forward_ip ARP_OP_REQUEST;
                           (p, ctx2) = chirouter_arp_pending_req_add ctx1
                                         (uint32_to_in_addr forward_ip) (interface entry);
                           req = pending_arp_reqs ctx2 ! p;
                           ctx3 = ctx2\<lparr>pending_arp_reqs := (pending_arp_reqs ctx2)
                                    [p := req\<lparr>times_sent := times_sent req + 1,
                                               last_sent := now\<rparr>]\<rparr>
                       in do {
                         (result, ctx4) \<leftarrow> chirouter_arp_pending_req_add_frame ctx3 p frm;
                         if result = 1 then Some (Ret (- 1), ctx4) else Some (Ret 0, ctx4) })
                  | Some p \<Rightarrow> do {
                      (result, ctx1) \<leftarrow> chirouter_arp_pending_req_add_frame ctx p frm;
                      if result = 1 then Some (Ret (- 1), ctx1) else Some (Ret 0, ctx1) })
             | Some arpcache_entry \<Rightarrow> do {
                 ttl \<leftarrow> load8 fb 22;
                 ctx1 \<leftarrow> (if ttl = 1 then chirouter_send_icmp ctx ICMPTYPE_TIME_EXCEEDED 0 frm
                          else forward_ip_datagram ctx frm (cache_mac arpcache_entry));
                 Some (Ret 0, ctx1) })
     | None \<Rightarrow> do {
         ctx1 \<leftarrow> chirouter_send_icmp ctx ICMPTYPE_DEST_UNREACHABLE
                   ICMPCODE_DEST_NET_UNREACHABLE frm;
         Some (Ret 0, ctx1) }
   }"

text \<open>
  Lines 483 to 503: the loop over the frames withheld for a pending request. \<open>sha\<close> is
  the sender hardware address of the ARP reply.
\<close>

fun drain_withheld ::
  "chirouter_ctx \<Rightarrow> ethernet_frame list \<Rightarrow> byte list \<Rightarrow> chirouter_ctx option" where
  "drain_withheld ctx [] sha = Some ctx"
| "drain_withheld ctx (elt # elts) sha = do {
     wb \<leftarrow> frame_bytes ctx elt;
     ttl \<leftarrow> load8 wb 22;
     ctx1 \<leftarrow> (if ttl = 1 then chirouter_send_icmp ctx ICMPTYPE_TIME_EXCEEDED 0 elt
              else forward_ip_datagram ctx elt sha);
     drain_withheld ctx1 elts sha
   }"

text \<open>Lines 452 to 535: the frame is an ARP message.\<close>

definition process_arp ::
  "int \<Rightarrow> chirouter_ctx \<Rightarrow> ethernet_frame \<Rightarrow> byte list \<Rightarrow> (retval \<times> chirouter_ctx) option" where
  "process_arp now ctx frm fb = do {
     tpa \<leftarrow> load32 fb 38;
     if tpa = in_addr_to_uint32 (ip (in_interface frm)) then do {
       op \<leftarrow> load16 fb 20;
       if op = ARP_OP_REPLY then do {
         spa \<leftarrow> load32 fb 28;
         sha \<leftarrow> load fb 22 6;
         let (result, ctx1) = chirouter_arp_cache_add now ctx (uint32_to_in_addr spa) sha;
         if result \<noteq> 0 then Some (Ret (- 1), ctx1)
         else (case chirouter_arp_pending_req_lookup ctx1 (uint32_to_in_addr spa) of
                 None \<Rightarrow> Some (Ret 0, ctx1)
               | Some p \<Rightarrow> do {
                   ctx2 \<leftarrow> drain_withheld ctx1 (withheld_frames (pending_arp_reqs ctx1 ! p)) sha;
                   let (result, ctx3) = chirouter_arp_pending_req_free_frames ctx2 p;
                   if result = 1 then Some (Ret result, ctx3)
                   else Some (Ret 0, ctx3\<lparr>pending_arp_reqs :=
                                             DL_DELETE (pending_arp_reqs ctx3) p\<rparr>) }) }
       else if op = ARP_OP_REQUEST then do {
         spa \<leftarrow> load32 fb 28;
         sha \<leftarrow> load fb 22 6;
         Some (Ret 0, chirouter_send_arp_message ctx (in_interface frm) (Some sha) spa
                        ARP_OP_REPLY) }
       else Some (Ret 0, ctx) }
     else Some (Ret 0, ctx)
   }"

text \<open>
  \<open>chirouter_process_ethernet_frame\<close>. The result is \<open>None\<close> when the call makes an
  access out of bounds; otherwise it is what the call returns and the state it leaves.
\<close>

definition chirouter_process_ethernet_frame ::
  "int \<Rightarrow> chirouter_ctx \<Rightarrow> ethernet_frame \<Rightarrow> (retval \<times> chirouter_ctx) option" where
  "chirouter_process_ethernet_frame now ctx frm = do {
     fb \<leftarrow> frame_bytes ctx frm;
     hdr_type \<leftarrow> load16 fb 12;
     if hdr_type = ETHERTYPE_IP \<or> hdr_type = ETHERTYPE_IPV6 then do {
       ip_dst \<leftarrow> load32 fb 30;
       if ip_dst = in_addr_to_uint32 (ip (in_interface frm)) then do {
         ctx1 \<leftarrow> process_ip_to_router ctx frm fb;
         Some (Ret 0, ctx1) }
       else do {
         other \<leftarrow> chirouter_find_match_router ctx fb;
         if other then do {
           ctx1 \<leftarrow> chirouter_send_icmp ctx ICMPTYPE_DEST_UNREACHABLE
                     ICMPCODE_DEST_HOST_UNREACHABLE frm;
           Some (Ret 0, ctx1) }
         else process_ip_forward now ctx frm fb ip_dst } }
     else if hdr_type = ETHERTYPE_ARP then process_arp now ctx frm fb
     else Some (NoValue, ctx)
   }"

section \<open>Notions used to state the properties\<close>

text \<open>A routing entry matches a destination address.\<close>

definition route_matches :: "chirouter_rtable_entry \<Rightarrow> 32 word \<Rightarrow> bool" where
  "route_matches e dst = ((dst AND in_addr_to_uint32 (mask e)) = in_addr_to_uint32 (dest e))"

text \<open>
  What the loop of the route lookup has found after the first \<open>k\<close> entries: nothing when
  none of them matches, else the first of the matching entries with the largest mask.
\<close>

definition lpm_upto :: "chirouter_rtable_entry list \<Rightarrow> 32 word \<Rightarrow> nat \<Rightarrow> nat option \<Rightarrow> bool" where
  "lpm_upto rt dst k result =
     (case result of
        None \<Rightarrow> (\<forall>j<k. \<not> route_matches (rt ! j) dst)
      | Some r \<Rightarrow> r < k \<and> route_matches (rt ! r) dst
           \<and> (\<forall>j<k. route_matches (rt ! j) dst \<longrightarrow> mask (rt ! j) \<le> mask (rt ! r))
           \<and> (\<forall>j<r. route_matches (rt ! j) dst \<longrightarrow> mask (rt ! j) < mask (rt ! r)))"

text \<open>
  The fields of the headers of a frame, read from its bytes as the structs \<open>ethhdr_t\<close>,
  \<open>iphdr_t\<close> (at offset 14) and \<open>icmp_packet_t\<close> (at offset 34) of the source lay them
  out. The echo identifier and sequence number are the two bytes of each as they stand.
\<close>

definition eth_dst :: "byte list \<Rightarrow> byte list" where "eth_dst f = peek f 0 6"
definition eth_src :: "byte list \<Rightarrow> byte list" where "eth_src f = peek f 6 6"
definition eth_type :: "byte list \<Rightarrow> 16 word" where "eth_type f = be16 (peek f 12 2)"
definition ip_version :: "byte list \<Rightarrow> byte" where "ip_version f = drop_bit 4 (f ! 14)"
definition ip_ihl :: "byte list \<Rightarrow> byte" where "ip_ihl f = (f ! 14) AND 0x0F"
definition ip_tos :: "byte list \<Rightarrow> byte" where "ip_tos f = f ! 15"
definition ip_len :: "byte list \<Rightarrow> 16 word" where "ip_len f = be16 (peek f 16 2)"
definition ip_id :: "byte list \<Rightarrow> 16 word" where "ip_id f = be16 (peek f 18 2)"
definition ip_off :: "byte list \<Rightarrow> 16 word" where "ip_off f = be16 (peek f 20 2)"
definition ip_ttl :: "byte list \<Rightarrow> byte" where "ip_ttl f = f ! 22"
definition ip_proto :: "byte list \<Rightarrow> byte" where "ip_proto f = f ! 23"
definition ip_cksum :: "byte list \<Rightarrow> 16 word" where "ip_cksum f = be16 (peek f 24 2)"
definition ip_src :: "byte list \<Rightarrow> 32 word" where "ip_src f = le32 (peek f 26 4)"
definition ip_dst :: "byte list \<Rightarrow> 32 word" where "ip_dst f = le32 (peek f 30 4)"
definition icmp_type :: "byte list \<Rightarrow> byte" where "icmp_type f = f ! 34"
definition icmp_code :: "byte list \<Rightarrow> byte" where "icmp_code f = f ! 35"
definition icmp_chksum :: "byte list \<Rightarrow> 16 word" where "icmp_chksum f = be16 (peek f 36 2)"
definition echo_identifier :: "byte list \<Rightarrow> byte list" where "echo_identifier f = peek f 38 2"
definition echo_seq_num :: "byte list \<Rightarrow> byte list" where "echo_seq_num f = peek f 40 2"

text \<open>
  The 20 bytes of the IP header and the bytes of the ICMP message (the rest of the frame
  from offset 34 on) with the checksum field set to zero: what a checksum is computed
  over.
\<close>

definition ip_header_zero_cksum :: "byte list \<Rightarrow> byte list" where
  "ip_header_zero_cksum f = peek (poke f 24 [0, 0]) 14 20"

definition icmp_zero_chksum :: "byte list \<Rightarrow> byte list" where
  "icmp_zero_chksum f = drop 34 (poke f 36 [0, 0])"

text \<open>The fields of an ARP packet (\<open>arp_packet_t\<close>, at offset 14).\<close>

definition arp_op :: "byte list \<Rightarrow> 16 word" where "arp_op f = be16 (peek f 20 2)"
definition arp_sha :: "byte list \<Rightarrow> byte list" where "arp_sha f = peek f 22 6"
definition arp_spa :: "byte list \<Rightarrow> 32 word" where "arp_spa f = le32 (peek f 28 4)"
definition arp_tpa :: "byte list \<Rightarrow> 32 word" where "arp_tpa f = le32 (peek f 38 4)"

text \<open>
  A frame handed to \<open>chirouter_send_frame\<close>, with the interface it is sent on, is an ICMP
  message of the given type and code on the given interface.
\<close>

definition icmp_frame ::
  "chirouter_interface \<Rightarrow> byte \<Rightarrow> byte \<Rightarrow> chirouter_interface \<times> byte list \<Rightarrow> bool" where
  "icmp_frame iface type code out =
     (fst out = iface \<and> eth_type (snd out) = ETHERTYPE_IP \<and> ip_proto (snd out) = IPPROTO_ICMP
      \<and> icmp_type (snd out) = type \<and> icmp_code (snd out) = code)"

text \<open>
  The router has sent one ICMP message of the given type and code on the interface the
  trigger frame arrived on, and has done nothing else.
\<close>

definition icmp_sent ::
  "chirouter_ctx \<Rightarrow> chirouter_ctx \<Rightarrow> ethernet_frame \<Rightarrow> byte \<Rightarrow> byte \<Rightarrow> bool" where
  "icmp_sent ctx ctx' frm type code =
     (\<exists>out. ctx' = ctx\<lparr>sent := sent ctx @ [out]\<rparr>
        \<and> icmp_frame (in_interface frm) type code out)"

text \<open>
  A frame handed to \<open>chirouter_send_frame\<close> is the frame with bytes \<open>fb\<close> forwarded to the
  hardware address \<open>dst_mac\<close> on the interface \<open>iface\<close>: the TTL is one less (in 8-bit
  arithmetic, as the source computes it), the checksum of the IP header is the one
  computed over the new header, and the bytes of the datagram up to its IP total length,
  other than the TTL and the checksum, are those of \<open>fb\<close>.
\<close>

definition forward_of ::
  "byte list \<Rightarrow> byte list \<Rightarrow> chirouter_interface \<Rightarrow> chirouter_interface \<times> byte list \<Rightarrow> bool" where
  "forward_of fb dst_mac iface out =
     (fst out = iface \<and> eth_dst (snd out) = dst_mac \<and> eth_src (snd out) = mac iface
      \<and> eth_type (snd out) = ETHERTYPE_IP
      \<and> ip_ttl (snd out) = ip_ttl fb - 1
      \<and> ip_cksum (snd out) = cksum (ip_header_zero_cksum (snd out))
      \<and> (\<forall>k. 14 \<le> k \<and> k < 14 + unat (ip_len fb) \<and> k \<noteq> 22 \<and> k \<noteq> 24 \<and> k \<noteq> 25
             \<longrightarrow> snd out ! k = fb ! k))"

text \<open>
  What the router sends for one withheld frame \<open>w\<close> when the ARP reply with sender
  hardware address \<open>sha\<close> arrives: ICMP time exceeded on the interface the frame
  arrived on when its TTL is 1, else the frame forwarded to \<open>sha\<close> on the interface of
  its route.
\<close>

definition drained_output ::
  "chirouter_ctx \<Rightarrow> byte list \<Rightarrow> ethernet_frame \<Rightarrow> chirouter_interface \<times> byte list \<Rightarrow> bool" where
  "drained_output ctx sha w out =
     (case frame_bytes ctx w of
        None \<Rightarrow> False
      | Some wb \<Rightarrow>
          if ip_ttl wb = 1 then icmp_frame (in_interface w) ICMPTYPE_TIME_EXCEEDED 0 out
          else (case chirouter_get_matching_entry ctx wb of
                  Some (Some i) \<Rightarrow> forward_of wb sha (interface (routing_table ctx ! i)) out
                | _ \<Rightarrow> False))"

text \<open>
  A withheld frame \<open>w\<close> can be drained without an access out of bounds: its buffer is
  allocated and holds the TTL; when the TTL is 1 the buffer holds the 28 bytes quoted in
  the ICMP message and the ingress interface has a hardware address; otherwise the
  datagram, of the length its IP header states, lies within the buffer and within
  \<open>w->length\<close>, and a route matches its destination.
\<close>

definition withheld_ok :: "chirouter_ctx \<Rightarrow> ethernet_frame \<Rightarrow> bool" where
  "withheld_ok ctx w =
     (case frame_bytes ctx w of
        None \<Rightarrow> False
      | Some wb \<Rightarrow>
          if ip_ttl wb = 1 then 42 \<le> length wb \<and> 6 \<le> length (mac (in_interface w))
          else 34 \<le> flength w \<and> 23 \<le> length wb
             \<and> 14 + unat (ip_len wb) \<le> length wb \<and> 14 + unat (ip_len wb) \<le> flength w
             \<and> (case chirouter_get_matching_entry ctx wb of
                   Some (Some i) \<Rightarrow> True
                 | _ \<Rightarrow> False))"

text \<open>The frames withheld for the address \<open>a\<close>: those of its pending request, if it has one.\<close>

definition withheld_for :: "chirouter_ctx \<Rightarrow> in_addr \<Rightarrow> ethernet_frame list" where
  "withheld_for ctx a =
     (case chirouter_arp_pending_req_lookup ctx a of
        None \<Rightarrow> []
      | Some p \<Rightarrow> withheld_frames (pending_arp_reqs ctx ! p))"

text \<open>
  No withheld frame of the pending list lives in the buffer of the frame \<open>frm\<close>: every
  frame the router keeps is a copy in a buffer of its own.
\<close>

definition not_withheld :: "chirouter_ctx \<Rightarrow> ethernet_frame \<Rightarrow> bool" where
  "not_withheld ctx frm =
     list_all (\<lambda>r. list_all (\<lambda>w. raw w \<noteq> raw frm) (withheld_frames r)) (pending_arp_reqs ctx)"

text \<open>
  A frame handed to \<open>chirouter_send_frame\<close> is an ARP request for the address \<open>nh\<close>,
  broadcast on the interface \<open>iface\<close> with that interface as its sender.
\<close>

definition arp_request_frame ::
  "chirouter_interface \<Rightarrow> 32 word \<Rightarrow> chirouter_interface \<times> byte list \<Rightarrow> bool" where
  "arp_request_frame iface nh out =
     (fst out = iface \<and> eth_dst (snd out) = replicate 6 0xff \<and> eth_src (snd out) = mac iface
      \<and> eth_type (snd out) = ETHERTYPE_ARP \<and> arp_op (snd out) = ARP_OP_REQUEST
      \<and> arp_sha (snd out) = mac iface \<and> arp_spa (snd out) = in_addr_to_uint32 (ip iface)
      \<and> arp_tpa (snd out) = nh)"

section \<open>A router and frames to run the model on\<close>

text \<open>
  A router with two interfaces, \<open>eth0\<close> (10.0.0.1, 02:00:00:00:00:01) and \<open>eth1\<close>
  (192.168.0.1, 02:00:00:00:00:02), a default route through the gateway 10.0.0.254 on
  \<open>eth0\<close> and two routes for 192.168.0.0/24 on \<open>eth1\<close>. Addresses are written as the
  \<open>uint32_t\<close> of a little-endian host: 10.0.0.1 is \<open>0x0100000A\<close>.
\<close>

definition eth0 :: chirouter_interface where
  "eth0 = \<lparr>name = ''eth0'', mac = [0x02, 0, 0, 0, 0, 0x01], ip = 0x0100000A\<rparr>"

definition eth1 :: chirouter_interface where
  "eth1 = \<lparr>name = ''eth1'', mac = [0x02, 0, 0, 0, 0, 0x02], ip = 0x0100A8C0\<rparr>"

definition ex_routes :: "chirouter_rtable_entry list" where
  "ex_routes =
     [\<lparr>dest = 0, mask = 0, gw = 0xFE00000A, interface = eth0\<rparr>,
      \<lparr>dest = 0x0000A8C0, mask = 0x00FFFFFF, gw = 0, interface = eth1\<rparr>,
      \<lparr>dest = 0x0000A8C0, mask = 0x00FFFFFF, gw = 0x0200A8C0, interface = eth1\<rparr>]"

text \<open>An Ethernet frame that carries an IPv4 datagram with a header of 20 bytes.\<close>

definition ip_frame ::
  "byte list \<Rightarrow> byte list \<Rightarrow> 16 word \<Rightarrow> byte \<Rightarrow> byte \<Rightarrow> 32 word \<Rightarrow> 32 word \<Rightarrow> byte list
   \<Rightarrow> byte list" where
  "ip_frame dmac smac len ttl proto src dst payload =
     dmac @ smac @ [0x08, 0x00] @ [0x45, 0] @ be16_bytes len @ [0, 0, 0, 0]
     @ [ttl, proto, 0, 0] @ le32_bytes src @ le32_bytes dst @ payload"

definition host_mac :: "byte list" where
  "host_mac = [0x02, 0xAA, 0, 0, 0, 0x01]"

text \<open>A UDP datagram from 10.0.0.2 to 192.168.0.5, arriving on \<open>eth0\<close>.\<close>

definition udp_bytes :: "byte list" where
  "udp_bytes =
     ip_frame (mac eth0) host_mac 28 64 17 0x0200000A 0x0500A8C0 [0, 7, 0, 7, 0, 8, 0, 0]"

definition udp_frm :: ethernet_frame where
  "udp_frm = \<lparr>raw = 0, flength = 42, in_interface = eth0\<rparr>"

text \<open>
  An ICMP echo request from 10.0.0.2 to the router's own 10.0.0.1 (identifier 1, sequence
  number 2, payload "abcd"), and the same frame as an echo reply (ICMP type 0).
\<close>

definition echo_bytes :: "byte list" where
  "echo_bytes =
     ip_frame (mac eth0) host_mac 32 64 1 0x0200000A 0x0100000A
       [8, 0, 0, 0, 0, 1, 0, 2, 0x61, 0x62, 0x63, 0x64]"

definition echo_frm :: ethernet_frame where
  "echo_frm = \<lparr>raw = 1, flength = 46, in_interface = eth0\<rparr>"

definition pong_bytes :: "byte list" where
  "pong_bytes =
     ip_frame (mac eth0) host_mac 32 64 1 0x0200000A 0x0100000A
       [0, 0, 0, 0, 0, 1, 0, 2, 0x61, 0x62, 0x63, 0x64]"

definition pong_frm :: ethernet_frame where
  "pong_frm = \<lparr>raw = 2, flength = 46, in_interface = eth0\<rparr>"

text \<open>A frame whose ethertype, 0x1234, is none of IPv4, IPv6 and ARP.\<close>

definition other_bytes :: "byte list" where
  "other_bytes = mac eth0 @ host_mac @ [0x12, 0x34, 0, 0, 0, 0]"

definition other_frm :: ethernet_frame where
  "other_frm = \<lparr>raw = 3, flength = 18, in_interface = eth0\<rparr>"

text \<open>The UDP datagram with a TTL of 1.\<close>

definition udp1_bytes :: "byte list" where
  "udp1_bytes =
     ip_frame (mac eth0) host_mac 28 1 17 0x0200000A 0x0500A8C0 [0, 7, 0, 7, 0, 8, 0, 0]"

definition udp1_frm :: ethernet_frame where
  "udp1_frm = \<lparr>raw = 4, flength = 42, in_interface = eth0\<rparr>"

text \<open>
  An ARP reply from 192.168.0.5 (02:bb:00:00:00:05) to the router's 192.168.0.1,
  arriving on \<open>eth1\<close>.
\<close>

definition peer_mac :: "byte list" where
  "peer_mac = [0x02, 0xBB, 0, 0, 0, 0x05]"

definition arp_reply_bytes :: "byte list" where
  "arp_reply_bytes =
     mac eth1 @ peer_mac @ [0x08, 0x06] @ [0, 1, 0x08, 0, 6, 4, 0, 2]
     @ peer_mac @ le32_bytes 0x0500A8C0 @ mac eth1 @ le32_bytes 0x0100A8C0"

definition arp_reply_frm :: ethernet_frame where
  "arp_reply_frm = \<lparr>raw = 5, flength = 42, in_interface = eth1\<rparr>"

text \<open>
  The router before any ARP traffic: its ARP cache has no slot, so that every insertion
  finds it full. Buffers 6 and 7 are copies of the two UDP datagrams.
\<close>

definition ex_ctx :: chirouter_ctx where
  "ex_ctx = \<lparr>interfaces = [eth0, eth1], routing_table = ex_routes, arp_cache = [],
             pending_arp_reqs = [],
             heap = [Some udp_bytes, Some echo_bytes, Some pong_bytes, Some other_bytes,
                     Some udp1_bytes, Some arp_reply_bytes, Some udp_bytes, Some udp1_bytes],
             avail = 4096, sent = []\<rparr>"

text \<open>The router with 192.168.0.5 in its ARP cache.\<close>

definition hit_ctx :: chirouter_ctx where
  "hit_ctx = ex_ctx\<lparr>arp_cache :=
     [\<lparr>valid = True, cache_mac = peer_mac, cache_ip = 0x0500A8C0, time_added = 0\<rparr>]\<rparr>"

text \<open>
  The router with a free slot in its ARP cache and a pending ARP request for 192.168.0.5
  that withholds the two UDP datagrams (the copies in buffers 6 and 7).
\<close>

definition pend_ctx :: chirouter_ctx where
  "pend_ctx = ex_ctx\<lparr>
     arp_cache := [\<lparr>valid = False, cache_mac = replicate 6 0, cache_ip = 0, time_added = 0\<rparr>],
     pending_arp_reqs :=
       [\<lparr>req_ip = 0x0500A8C0, times_sent = 1, last_sent = 0, out_interface = eth1,
         withheld_frames = [\<lparr>raw = 6, flength = 42, in_interface = eth0\<rparr>,
                            \<lparr>raw = 7, flength = 42, in_interface = eth0\<rparr>]\<rparr>]\<rparr>"

text \<open>The router with no memory left for a copy of a frame.\<close>

definition full_ctx :: chirouter_ctx where
  "full_ctx = ex_ctx\<lparr>avail := 0\<rparr>"

section \<open>Properties\<close>

lemmas header_consts =
  ETHERTYPE_IP_def ETHERTYPE_ARP_def ETHERTYPE_IPV6_def IPPROTO_ICMP_def IPPROTO_TCP_def
  IPPROTO_UDP_def ICMPTYPE_ECHO_REPLY_def ICMPTYPE_DEST_UNREACHABLE_def
  ICMPTYPE_ECHO_REQUEST_def ICMPTYPE_TIME_EXCEEDED_def ICMPCODE_DEST_NET_UNREACHABLE_def
  ICMPCODE_DEST_HOST_UNREACHABLE_def ICMPCODE_DEST_PROTOCOL_UNREACHABLE_def
  ICMPCODE_DEST_PORT_UNREACHABLE_def ARP_OP_REQUEST_def ARP_OP_REPLY_def
  ETHER_ADDR_LEN_def ICMP_HDR_SIZE_def sizeof_ethhdr_t_def sizeof_iphdr_t_def

subsection \<open>Route lookup\<close>

lemma rtable_loop_inv:
  "lpm_upto rt dst i result \<Longrightarrow> i \<le> length rt \<Longrightarrow>
   lpm_upto rt dst (length rt) (rtable_loop rt dst i result)"
proof (induction rt dst i result rule: rtable_loop.induct)
  case (1 rt dst i result)
  show ?case
  proof (cases "i < length rt")
    case False
    with 1 show ?thesis by simp
  next
    case True
    let ?r' = "(if (dst AND in_addr_to_uint32 (mask (rt ! i))) = in_addr_to_uint32 (dest (rt ! i)) then
                 (case result of
                    Some r \<Rightarrow>
                      (let current_mask = in_addr_to_uint32 (mask (rt ! r))
                       in if current_mask < in_addr_to_uint32 (mask (rt ! i)) then Some i else result)
                  | None \<Rightarrow> Some i)
               else result)"
    have step: "lpm_upto rt dst (Suc i) ?r'"
      using "1.prems"(1)
      by (auto simp: lpm_upto_def route_matches_def in_addr_to_uint32_def less_Suc_eq Let_def split: option.splits)
    have "lpm_upto rt dst (length rt) (rtable_loop rt dst (Suc i) ?r')"
      using "1.IH"[OF True refl refl step] True by simp
    then show ?thesis using True by (simp add: Let_def)
  qed
qed

lemma rtable_loop_lpm: "lpm_upto rt dst (length rt) (rtable_loop rt dst 0 None)"
  by (rule rtable_loop_inv) (simp_all add: lpm_upto_def)

text \<open>
  C7. For every destination address, the route lookup returns the entry of the routing
  table that matches it (its \<open>dest\<close> is the destination ANDed with its mask) and whose
  mask is the largest among the matching entries, and nothing when no entry matches; of
  several matching entries with that mask it returns the first.
\<close>

theorem route_lookup_longest_prefix:
  assumes "load32 fb 30 = Some dst"
  shows "\<exists>res. chirouter_get_matching_entry ctx fb = Some res \<and>
    (case res of
       None \<Rightarrow> \<forall>j<length (routing_table ctx). \<not> route_matches (routing_table ctx ! j) dst
     | Some r \<Rightarrow> r < length (routing_table ctx) \<and> route_matches (routing_table ctx ! r) dst
         \<and> (\<forall>j<length (routing_table ctx). route_matches (routing_table ctx ! j) dst
                \<longrightarrow> mask (routing_table ctx ! j) \<le> mask (routing_table ctx ! r))
         \<and> (\<forall>j<r. route_matches (routing_table ctx ! j) dst
                \<longrightarrow> mask (routing_table ctx ! j) < mask (routing_table ctx ! r)))"
proof (cases "routing_table ctx = []")
  case True
  then show ?thesis by (simp add: chirouter_get_matching_entry_def)
next
  case False
  have "lpm_upto (routing_table ctx) dst (length (routing_table ctx))
          (rtable_loop (routing_table ctx) dst 0 None)"
    by (rule rtable_loop_lpm)
  with False assms show ?thesis
    by (simp add: chirouter_get_matching_entry_def lpm_upto_def)
qed

lemma udp_dst: "load32 udp_bytes 30 = Some 0x0500A8C0"
  by (simp add: udp_bytes_def ip_frame_def load32_def load_def peek_def le32_def le32_bytes_def
      be16_bytes_def host_mac_def eth0_def)

theorem route_lookup_longest_prefix_witness:
  "load32 udp_bytes 30 = Some 0x0500A8C0 \<and>
   chirouter_get_matching_entry ex_ctx udp_bytes = Some (Some 1) \<and>
   route_matches (routing_table ex_ctx ! 1) 0x0500A8C0 \<and>
   route_matches (routing_table ex_ctx ! 2) 0x0500A8C0 \<and>
   route_matches (routing_table ex_ctx ! 0) 0x0500A8C0"
proof -
  have rt: "routing_table ex_ctx = ex_routes" by (simp add: ex_ctx_def)
  from route_lookup_longest_prefix [OF udp_dst, of ex_ctx]
  obtain res where res: "chirouter_get_matching_entry ex_ctx udp_bytes = Some res"
    and *: "(case res of
       None \<Rightarrow> \<forall>j<length (routing_table ex_ctx). \<not> route_matches (routing_table ex_ctx ! j) 0x0500A8C0
     | Some r \<Rightarrow> r < length (routing_table ex_ctx) \<and> route_matches (routing_table ex_ctx ! r) 0x0500A8C0
         \<and> (\<forall>j<length (routing_table ex_ctx). route_matches (routing_table ex_ctx ! j) 0x0500A8C0
                \<longrightarrow> mask (routing_table ex_ctx ! j) \<le> mask (routing_table ex_ctx ! r))
         \<and> (\<forall>j<r. route_matches (routing_table ex_ctx ! j) 0x0500A8C0
                \<longrightarrow> mask (routing_table ex_ctx ! j) < mask (routing_table ex_ctx ! r)))" by blast
  have m0: "route_matches (routing_table ex_ctx ! 0) 0x0500A8C0"
    and m1: "route_matches (routing_table ex_ctx ! 1) 0x0500A8C0"
    and m2: "route_matches (routing_table ex_ctx ! 2) 0x0500A8C0"
    by (simp_all add: rt ex_routes_def route_matches_def in_addr_to_uint32_def)
  have "res = Some 1"
  proof (cases res)
    case None
    with * m0 show ?thesis by (auto simp: rt ex_routes_def)
  next
    case (Some r)
    with * have r3: "r < 3" and
      le: "\<forall>j<3. route_matches (ex_routes ! j) 0x0500A8C0 \<longrightarrow> mask (ex_routes ! j) \<le> mask (ex_routes ! r)"
      and lt: "\<forall>j<r. route_matches (ex_routes ! j) 0x0500A8C0 \<longrightarrow> mask (ex_routes ! j) < mask (ex_routes ! r)"
      by (simp_all add: rt ex_routes_def)
    from r3 consider "r = 0" | "r = 1" | "r = 2" by linarith
    then show ?thesis
    proof cases
      case 1
      from le m1 have "mask (ex_routes ! 1) \<le> mask (ex_routes ! r)" by (simp add: rt)
      with 1 show ?thesis by (simp add: ex_routes_def)
    next
      case 2 with Some show ?thesis by simp
    next
      case 3
      from lt 3 m1 have "mask (ex_routes ! 1) < mask (ex_routes ! r)" by (simp add: rt)
      with 3 show ?thesis by (simp add: ex_routes_def)
    qed
  qed
  with res m0 m1 m2 udp_dst show ?thesis by simp
qed

subsection \<open>Reading and writing buffers\<close>

lemma length_peek [simp]: "off + n \<le> length buf \<Longrightarrow> length (peek buf off n) = n"
  by (simp add: peek_def)

lemma length_poke [simp]: "length (poke buf off src) = length buf"
  by (induction src arbitrary: buf off) simp_all

lemma nth_poke:
  "i < length buf \<Longrightarrow>
   poke buf off src ! i = (if off \<le> i \<and> i < off + length src then src ! (i - off) else buf ! i)"
proof (induction src arbitrary: buf off)
  case Nil
  then show ?case by auto
next
  case (Cons b bs)
  then show ?case
    by (auto simp: nth_list_update nth_Cons' Suc_diff_le)
qed

lemma nth_peek: "i < n \<Longrightarrow> off + n \<le> length buf \<Longrightarrow> peek buf off n ! i = buf ! (off + i)"
  by (simp add: peek_def)

lemma peek_poke_same:
  "off + length src \<le> length buf \<Longrightarrow> n = length src \<Longrightarrow> peek (poke buf off src) off n = src"
  by (rule nth_equalityI) (simp_all add: nth_peek nth_poke)

lemma peek_poke_disj:
  "off' + n \<le> off \<or> off + length src \<le> off' \<Longrightarrow>
   peek (poke buf off src) off' n = peek buf off' n"
proof (rule nth_equalityI)
  show "length (peek (poke buf off src) off' n) = length (peek buf off' n)"
    by (simp add: peek_def)
next
  fix i assume i: "i < length (peek (poke buf off src) off' n)"
  then have "i < n" "off' + i < length buf" by (auto simp: peek_def)
  moreover assume "off' + n \<le> off \<or> off + length src \<le> off'"
  ultimately show "peek (poke buf off src) off' n ! i = peek buf off' n ! i"
    by (auto simp: peek_def nth_poke)
qed

lemma peek_split: "peek buf off (n + m) = peek buf off n @ peek buf (off + n) m"
  by (simp add: peek_def take_add) (simp add: add.commute)

lemma store_eq_Some:
  "store buf off src = Some r \<longleftrightarrow> off + length src \<le> length buf \<and> r = poke buf off src"
  by (auto simp: store_def)

lemma load_eq_Some:
  "load buf off n = Some bs \<longleftrightarrow> off + n \<le> length buf \<and> bs = peek buf off n"
  by (auto simp: load_def)

lemma load8_eq_Some: "load8 buf off = Some b \<longleftrightarrow> off < length buf \<and> b = buf ! off"
  by (auto simp: load8_def)

lemma memcpy_eq_Some:
  "memcpy dst doff src soff n = Some r \<longleftrightarrow>
     0 \<le> n \<and> soff + nat n \<le> length src \<and> doff + nat n \<le> length dst
     \<and> r = poke dst doff (peek src soff (nat n))"
  by (auto simp: memcpy_def load_def store_def bind_eq_Some_conv)

lemma length_be16_bytes [simp]: "length (be16_bytes w) = 2"
  by (simp add: be16_bytes_def)

lemma length_le32_bytes [simp]: "length (le32_bytes w) = 4"
  by (simp add: le32_bytes_def)

lemma be16_be16_bytes [simp]: "be16 (be16_bytes w) = w"
  unfolding be16_def be16_bytes_def
  by (rule bit_word_eqI) (auto simp: bit_simps)

lemma le32_le32_bytes [simp]: "le32 (le32_bytes w) = w"
  unfolding le32_def le32_bytes_def
proof (rule bit_word_eqI)
  fix n assume "n < LENGTH(32)"
  then have n: "n < 32" by simp
  consider "n < 8" | "8 \<le> n" "n < 16" | "16 \<le> n" "n < 24" | "24 \<le> n" "n < 32"
    using n by linarith
  then show "bit (ucast ([ucast w, ucast (drop_bit 8 w), ucast (drop_bit 16 w),
                         ucast (drop_bit 24 w)] ! 0 :: byte) OR
             push_bit 8 (ucast ([ucast w, ucast (drop_bit 8 w), ucast (drop_bit 16 w),
                         ucast (drop_bit 24 w)] ! 1 :: byte)) OR
             push_bit 16 (ucast ([ucast w, ucast (drop_bit 8 w), ucast (drop_bit 16 w),
                         ucast (drop_bit 24 w)] ! 2 :: byte)) OR
             push_bit 24 (ucast ([ucast w, ucast (drop_bit 8 w), ucast (drop_bit 16 w),
                         ucast (drop_bit 24 w)] ! 3 :: byte)) :: 32 word) n = bit w n"
    by cases (auto simp: bit_simps)
qed

subsection \<open>The bytes of an ICMP message\<close>

declare poke.simps [simp del]

lemmas mem_eq_Some = store_eq_Some load_eq_Some load8_eq_Some memcpy_eq_Some store8_def store16_def
  store32_def load16_def load32_def

lemma le32_bytes_le32: "length bs = 4 \<Longrightarrow> le32_bytes (le32 bs) = bs"
proof -
  assume "length bs = 4"
  then obtain a b c d where bs: "bs = [a, b, c, d]"
    by (cases bs; simp; rename_tac x xs; case_tac xs; simp; rename_tac y ys; case_tac ys; simp;
        rename_tac z zs; case_tac zs; simp)
  have 1: "ucast (ucast a OR push_bit 8 (ucast b) OR push_bit 16 (ucast c) OR push_bit 24 (ucast d) :: 32 word) = a"
    by (rule bit_word_eqI) (auto simp: bit_simps)
  have 2: "ucast (drop_bit 8 (ucast a OR push_bit 8 (ucast b) OR push_bit 16 (ucast c) OR push_bit 24 (ucast d) :: 32 word)) = b"
    by (rule bit_word_eqI) (auto simp: bit_simps dest: bit_imp_le_length)
  have 3: "ucast (drop_bit 16 (ucast a OR push_bit 8 (ucast b) OR push_bit 16 (ucast c) OR push_bit 24 (ucast d) :: 32 word)) = c"
    by (rule bit_word_eqI) (auto simp: bit_simps dest: bit_imp_le_length)
  have 4: "ucast (drop_bit 24 (ucast a OR push_bit 8 (ucast b) OR push_bit 16 (ucast c) OR push_bit 24 (ucast d) :: 32 word)) = d"
    by (rule bit_word_eqI) (auto simp: bit_simps dest: bit_imp_le_length)
  have "le32 bs = ucast a OR push_bit 8 (ucast b) OR push_bit 16 (ucast c) OR push_bit 24 (ucast d)"
    by (simp add: bs le32_def)
  then show ?thesis
    by (simp only: le32_bytes_def 1 2 3 4 bs)
qed

lemma nibbles: "((((b :: byte) AND 15) OR 64) AND 240) OR 5 = 69"
  by (simp add: bit.conj_disj_distrib2 and.assoc)

lemma icmp_ethernet_header_Some:
  assumes "icmp_ethernet_header r0 fb frm = Some r"
  shows "length r = length r0 \<and> 14 \<le> length r0 \<and> 12 \<le> length fb
         \<and> 6 \<le> length (mac (in_interface frm))
         \<and> peek r 0 6 = peek fb 6 6
         \<and> peek r 6 6 = peek (mac (in_interface frm)) 0 6
         \<and> peek r 12 2 = be16_bytes ETHERTYPE_IP
         \<and> (\<forall>off n. 14 \<le> off \<longrightarrow> peek r off n = peek r0 off n)"
  using assms unfolding icmp_ethernet_header_def
  apply (simp only: bind_eq_Some_conv mem_eq_Some)
  apply (elim exE conjE)
  apply (simp add: header_consts peek_poke_same peek_poke_disj)
  done

lemma icmp_ip_header_Some:
  assumes "icmp_ip_header r3 fb frm len = Some r"
  shows "length r = length r3 \<and> 34 \<le> length r3 \<and> 30 \<le> length fb
         \<and> peek r 14 1 = [0x45] \<and> peek r 15 1 = [0] \<and> peek r 16 2 = be16_bytes len
         \<and> peek r 18 2 = be16_bytes 0 \<and> peek r 20 2 = be16_bytes 0
         \<and> peek r 22 1 = [64] \<and> peek r 23 1 = [1]
         \<and> peek r 24 2 = be16_bytes (cksum (peek r 14 10 @ be16_bytes 0 @ peek r 26 8))
         \<and> peek r 26 4 = le32_bytes (in_addr_to_uint32 (ip (in_interface frm)))
         \<and> peek r 30 4 = peek fb 26 4
         \<and> (\<forall>off n. off + n \<le> 14 \<or> 34 \<le> off \<longrightarrow> peek r off n = peek r3 off n)"
  using assms unfolding icmp_ip_header_def
  apply (simp only: bind_eq_Some_conv mem_eq_Some map_option_eq_Some)
  apply (elim exE conjE)
  apply (clarsimp simp add: header_consts peek_poke_same peek_poke_disj nth_poke le32_bytes_le32 nibbles
      peek_split [of _ 14 10 10, simplified] peek_split [of _ 24 2 8, simplified])
  done


lemma poke_poke_same: "length x = length y \<Longrightarrow> poke (poke buf off x) off y = poke buf off y"
  by (rule nth_equalityI) (auto simp: nth_poke)

lemma poke_peek_id: "off + n \<le> length buf \<Longrightarrow> poke buf off (peek buf off n) = buf"
  by (rule nth_equalityI) (auto simp: nth_poke nth_peek)

lemma peek_all: "length buf = n \<Longrightarrow> peek buf 0 n = buf"
  by (simp add: peek_def)

lemma icmp_payload_Some:
  assumes "icmp_payload r18 fb type code pl = Some r"
  shows "length r = length r18
     \<and> (\<forall>off n. off + n \<le> 38 \<longrightarrow> peek r off n = peek r18 off n)
     \<and> (type = 0 \<or> type = 8 \<longrightarrow>
          (if code = 0
           then 0 \<le> pl \<and> 42 + nat pl \<le> length fb \<and> 42 + nat pl \<le> length r18
                \<and> peek r 38 2 = peek fb 38 2 \<and> peek r 40 2 = peek fb 40 2
                \<and> peek r 42 (nat pl) = peek fb 42 (nat pl)
           else r = r18))
     \<and> (type \<noteq> 0 \<and> type \<noteq> 8 \<longrightarrow>
          0 \<le> pl \<and> 14 + nat pl \<le> length fb \<and> 42 + nat pl \<le> length r18
          \<and> peek r 38 4 = peek r18 38 4
          \<and> peek r 42 (nat pl) = peek fb 14 (nat pl))"
  using assms unfolding icmp_payload_def header_consts
  by (auto simp: bind_eq_Some_conv mem_eq_Some peek_poke_same peek_poke_disj split: if_splits)

lemma icmp_packet_Some:
  assumes "icmp_packet r15 fb type code pl = Some r"
  shows "\<exists>r19. length r = length r15 \<and> 38 \<le> length r15 \<and> 0 \<le> 8 + pl
     \<and> 34 + nat (8 + pl) \<le> length r15
     \<and> icmp_payload (poke (poke (poke r15 34 [type]) 35 [code]) 36 (be16_bytes 0)) fb type code pl
         = Some r19
     \<and> peek r 34 1 = [type] \<and> peek r 35 1 = [code]
     \<and> peek r 36 2 = be16_bytes (cksum (peek (poke r 36 (be16_bytes 0)) 34 (nat (8 + pl))))
     \<and> (\<forall>off n. off + n \<le> 36 \<or> 38 \<le> off \<longrightarrow> peek r off n = peek r19 off n)
     \<and> (\<forall>off n. off + n \<le> 34 \<longrightarrow> peek r off n = peek r15 off n)"
proof -
  from assms obtain r18 r19 where
    r18: "r18 = poke (poke (poke r15 34 [type]) 35 [code]) 36 (be16_bytes 0)"
    and len15: "38 \<le> length r15"
    and r19: "icmp_payload r18 fb type code pl = Some r19"
    and pl: "0 \<le> 8 + pl" "34 + nat (8 + pl) \<le> length r19"
    and r: "r = poke r19 36 (be16_bytes (cksum (peek r19 34 (nat (8 + pl)))))"
    unfolding icmp_packet_def
    by (auto simp: bind_eq_Some_conv mem_eq_Some header_consts split: if_splits)
  note p = icmp_payload_Some [OF r19]
  from p have len19: "length r19 = length r15" by (simp add: r18)
  from p have low: "\<And>off n. off + n \<le> 38 \<Longrightarrow> peek r19 off n = peek r18 off n" by blast
  have z: "peek r19 36 2 = be16_bytes 0"
    using low [of 36 2] len15 by (simp add: r18 peek_poke_same)
  have "poke r 36 (be16_bytes 0) = poke r19 36 (peek r19 36 2)"
    by (simp add: r poke_poke_same z)
  also have "\<dots> = r19" using len15 len19 by (simp add: poke_peek_id)
  finally have zeroed: "poke r 36 (be16_bytes 0) = r19" .
  have t: "peek r19 34 1 = [type]" "peek r19 35 1 = [code]"
    using low [of 34 1] low [of 35 1] len15 by (simp_all add: r18 peek_poke_same peek_poke_disj)
  show ?thesis
    using len15 len19 pl t r19 zeroed
    by (intro exI [of _ r19]) (auto simp: r peek_poke_same peek_poke_disj r18 low)
qed


lemma peek1_nth: "peek f i 1 = [x] \<Longrightarrow> f ! i = x"
  by (cases "i < length f") (auto simp: peek_def take_Suc hd_drop_conv_nth)

lemma icmp_reply_Some:
  assumes "icmp_reply fb frm type code = Some r"
  shows "\<exists>pl. (if type = 0 \<or> type = 8
               then 18 \<le> length fb \<and> pl = uint (be16 (peek fb 16 2)) - 28 else pl = 28)
     \<and> - 4 \<le> pl \<and> length r = nat (42 + pl)
     \<and> 30 \<le> length fb \<and> 6 \<le> length (mac (in_interface frm))
     \<and> peek r 0 6 = peek fb 6 6
     \<and> peek r 6 6 = peek (mac (in_interface frm)) 0 6
     \<and> peek r 12 2 = be16_bytes ETHERTYPE_IP
     \<and> peek r 14 1 = [0x45] \<and> peek r 15 1 = [0]
     \<and> peek r 16 2 = be16_bytes (if type = 0 \<or> type = 8
                                    then word_of_int (int (flength frm) - 14) else 56)
     \<and> peek r 18 2 = be16_bytes 0 \<and> peek r 20 2 = be16_bytes 0
     \<and> peek r 22 1 = [64] \<and> peek r 23 1 = [1]
     \<and> peek r 24 2 = be16_bytes (cksum (peek r 14 10 @ be16_bytes 0 @ peek r 26 8))
     \<and> peek r 26 4 = le32_bytes (in_addr_to_uint32 (ip (in_interface frm)))
     \<and> peek r 30 4 = peek fb 26 4
     \<and> peek r 34 1 = [type] \<and> peek r 35 1 = [code]
     \<and> peek r 36 2 = be16_bytes (cksum (peek (poke r 36 (be16_bytes 0)) 34 (nat (8 + pl))))
     \<and> (type = 0 \<or> type = 8 \<longrightarrow>
          (if code = 0
           then 0 \<le> pl \<and> 42 + nat pl \<le> length fb
                \<and> peek r 38 2 = peek fb 38 2 \<and> peek r 40 2 = peek fb 40 2
                \<and> peek r 42 (nat pl) = peek fb 42 (nat pl)
           else peek r 38 (nat (4 + pl)) = replicate (nat (4 + pl)) 0))
     \<and> (type \<noteq> 0 \<and> type \<noteq> 8 \<longrightarrow>
          42 \<le> length fb \<and> peek r 38 4 = [0, 0, 0, 0] \<and> peek r 42 28 = peek fb 14 28)"
proof -
  from assms obtain pl r3 r15 where
    pl: "if type = 0 \<or> type = 8
         then 18 \<le> length fb \<and> pl = uint (be16 (peek fb 16 2)) - 28 else pl = 28"
    and r3: "icmp_ethernet_header (replicate (nat (42 + pl)) 0) fb frm = Some r3"
    and r15: "icmp_ip_header r3 fb frm
               (if type = 0 \<or> type = 8 then word_of_int (int (flength frm) - 14) else 56)
              = Some r15"
    and r: "icmp_packet r15 fb type code pl = Some r"
    unfolding icmp_reply_def
    by (auto simp: bind_eq_Some_conv header_consts Let_def load16_def load_eq_Some
        split: if_splits)
  note e = icmp_ethernet_header_Some [OF r3]
  note i = icmp_ip_header_Some [OF r15]
  from icmp_packet_Some [OF r] obtain r19 where
    p: "length r = length r15 \<and> 38 \<le> length r15 \<and> 0 \<le> 8 + pl
     \<and> 34 + nat (8 + pl) \<le> length r15
     \<and> icmp_payload (poke (poke (poke r15 34 [type]) 35 [code]) 36 (be16_bytes 0)) fb type code pl
         = Some r19
     \<and> peek r 34 1 = [type] \<and> peek r 35 1 = [code]
     \<and> peek r 36 2 = be16_bytes (cksum (peek (poke r 36 (be16_bytes 0)) 34 (nat (8 + pl))))
     \<and> (\<forall>off n. off + n \<le> 36 \<or> 38 \<le> off \<longrightarrow> peek r off n = peek r19 off n)
     \<and> (\<forall>off n. off + n \<le> 34 \<longrightarrow> peek r off n = peek r15 off n)" by blast
  from p have r19: "icmp_payload (poke (poke (poke r15 34 [type]) 35 [code]) 36 (be16_bytes 0))
                      fb type code pl = Some r19" by blast
  note q = icmp_payload_Some [OF r19]
  have len: "length r15 = nat (42 + pl)" "length r3 = nat (42 + pl)" "length r = nat (42 + pl)"
       "length r19 = nat (42 + pl)"
    using e i p q by simp_all
  have pl4: "- 4 \<le> pl" using p len by linarith
  have low: "\<And>off n. off + n \<le> 34 \<Longrightarrow> peek r off n = peek r15 off n" using p by blast
  have low3: "\<And>off n. off + n \<le> 14 \<Longrightarrow> peek r15 off n = peek r3 off n" using i by blast
  have hi: "\<And>off n. 38 \<le> off \<Longrightarrow> peek r off n = peek r19 off n" using p by blast
  have hi15: "\<And>off n. 34 \<le> off \<Longrightarrow> peek r15 off n = peek r3 off n" using i by blast
  have hi3: "\<And>off n. 14 \<le> off \<Longrightarrow> peek r3 off n = peek (replicate (nat (42 + pl)) 0) off n"
    using e by blast
  have eth: "peek r 0 6 = peek fb 6 6" "peek r 6 6 = peek (mac (in_interface frm)) 0 6"
    "peek r 12 2 = be16_bytes ETHERTYPE_IP"
    using e by (simp_all add: low low3)
  have iph: "peek r 14 1 = [0x45]" "peek r 15 1 = [0]"
     "peek r 16 2 = be16_bytes (if type = 0 \<or> type = 8
                                    then word_of_int (int (flength frm) - 14) else 56)"
     "peek r 18 2 = be16_bytes 0" "peek r 20 2 = be16_bytes 0"
     "peek r 22 1 = [64]" "peek r 23 1 = [1]"
     "peek r 24 2 = be16_bytes (cksum (peek r 14 10 @ be16_bytes 0 @ peek r 26 8))"
     "peek r 26 4 = le32_bytes (in_addr_to_uint32 (ip (in_interface frm)))"
     "peek r 30 4 = peek fb 26 4"
    using i by (simp_all add: low)
  have echo: "type = 0 \<or> type = 8 \<Longrightarrow>
          (if code = 0
           then 0 \<le> pl \<and> 42 + nat pl \<le> length fb
                \<and> peek r 38 2 = peek fb 38 2 \<and> peek r 40 2 = peek fb 40 2
                \<and> peek r 42 (nat pl) = peek fb 42 (nat pl)
           else peek r 38 (nat (4 + pl)) = replicate (nat (4 + pl)) 0)"
  proof (cases "code = 0")
    case True
    assume "type = 0 \<or> type = 8"
    with q True show ?thesis by (simp add: hi)
  next
    case False
    assume "type = 0 \<or> type = 8"
    with q False have "r19 = poke (poke (poke r15 34 [type]) 35 [code]) 36 (be16_bytes 0)"
      by simp
    then have "peek r19 38 (nat (4 + pl)) = peek (replicate (nat (42 + pl)) 0) 38 (nat (4 + pl))"
      by (simp add: peek_poke_disj hi15 hi3)
    also have "\<dots> = replicate (nat (4 + pl)) 0"
      using pl4 by (simp add: peek_def min_def)
    finally show ?thesis using False by (simp add: hi)
  qed
  have err: "type \<noteq> 0 \<and> type \<noteq> 8 \<Longrightarrow>
          42 \<le> length fb \<and> peek r 38 4 = [0, 0, 0, 0] \<and> peek r 42 28 = peek fb 14 28"
  proof -
    assume t: "type \<noteq> 0 \<and> type \<noteq> 8"
    with pl have pl28: "pl = 28" by simp
    from q t have "peek r19 38 4 = peek (poke (poke (poke r15 34 [type]) 35 [code]) 36 (be16_bytes 0)) 38 4"
      and c: "14 + nat pl \<le> length fb" "peek r19 42 (nat pl) = peek fb 14 (nat pl)"
      by simp_all
    then have "peek r19 38 4 = peek (replicate (nat (42 + pl)) 0) 38 4"
      by (simp add: peek_poke_disj hi15 hi3)
    also have "\<dots> = [0, 0, 0, 0]"
      by (simp add: pl28 peek_def numeral_eq_Suc)
    finally show ?thesis using c by (simp add: hi pl28)
  qed
  have fb30: "30 \<le> length fb" using i by simp
  have mac6: "6 \<le> length (mac (in_interface frm))" using e by simp
  have pk: "peek r 34 1 = [type]" "peek r 35 1 = [code]"
    "peek r 36 2 = be16_bytes (cksum (peek (poke r 36 (be16_bytes 0)) 34 (nat (8 + pl))))"
    using p by simp_all
  from echo have t1: "type = 0 \<or> type = 8 \<longrightarrow>
          (if code = 0
           then 0 \<le> pl \<and> 42 + nat pl \<le> length fb
                \<and> peek r 38 2 = peek fb 38 2 \<and> peek r 40 2 = peek fb 40 2
                \<and> peek r 42 (nat pl) = peek fb 42 (nat pl)
           else peek r 38 (nat (4 + pl)) = replicate (nat (4 + pl)) 0)"
    by blast
  from err have t2: "type \<noteq> 0 \<and> type \<noteq> 8 \<longrightarrow>
          42 \<le> length fb \<and> peek r 38 4 = [0, 0, 0, 0] \<and> peek r 42 28 = peek fb 14 28"
    by blast
  show ?thesis
    using pl pl4 len(3) fb30 mac6 eth iph pk t1 t2
    by (intro exI [of _ pl] conjI)
qed

lemmas mem_defs = memcpy_def load_def store_def load8_def store8_def store16_def store32_def
  load16_def load32_def

lemma icmp_reply_error_defined:
  assumes "type \<noteq> 0" "type \<noteq> 8" "42 \<le> length fb" "6 \<le> length (mac (in_interface frm))"
  shows "\<exists>r. icmp_reply fb frm type code = Some r"
  using assms
  by (simp add: icmp_reply_def icmp_ethernet_header_def icmp_ip_header_def icmp_packet_def
      icmp_payload_def mem_defs header_consts)

lemma icmp_reply_echo_defined:
  assumes "type = 0 \<or> type = 8" "28 \<le> unat (ip_len fb)" "14 + unat (ip_len fb) \<le> length fb"
    "6 \<le> length (mac (in_interface frm))"
  shows "\<exists>r. icmp_reply fb frm type code = Some r"
proof -
  define n where "n = unat (ip_len fb)"
  have u: "uint (be16 (peek fb 16 2)) = int n" by (simp add: ip_len_def n_def)
  have n: "28 \<le> n" "14 + n \<le> length fb" using assms by (simp_all add: n_def)
  have a: "nat (int n - 28) = n - 28" "nat (14 + int n) = 14 + n" "nat (int n - 20) = n - 20"
    by simp_all
  show ?thesis
    using assms(1,4) n
    by (auto simp add: icmp_reply_def icmp_ethernet_header_def icmp_ip_header_def icmp_packet_def
      icmp_payload_def mem_defs header_consts Let_def u a)
qed

subsection \<open>The headers of an ICMP message\<close>

lemma peek_split3: "peek f 14 20 = peek f 14 10 @ peek f 24 2 @ peek f 26 8"
  using peek_split [of f 14 10 10] peek_split [of f 24 2 8] by simp

lemma ip_header_zero_cksum_eq:
  "34 \<le> length f \<Longrightarrow> ip_header_zero_cksum f = peek f 14 10 @ be16_bytes 0 @ peek f 26 8"
  unfolding ip_header_zero_cksum_def
  by (subst peek_split3) (simp add: peek_poke_disj peek_poke_same be16_bytes_def)

lemma chirouter_send_icmp_Some:
  assumes "chirouter_send_icmp ctx type code frm = Some ctx'"
  shows "\<exists>fb reply. frame_bytes ctx frm = Some fb \<and> icmp_reply fb frm type code = Some reply
           \<and> ctx' = ctx\<lparr>sent := sent ctx @ [(in_interface frm, reply)]\<rparr>"
  using assms unfolding chirouter_send_icmp_def chirouter_send_frame_def
  by (auto simp: bind_eq_Some_conv)

text \<open>
  C9. Every ICMP message the router generates is sent on the interface the trigger frame
  arrived on; its destination MAC is the source MAC of the trigger frame, its source MAC
  and source IP are those of that interface, its destination IP is the source IP of the
  trigger frame; TTL is 64, protocol 1, version 4, ihl 5, and id, off and tos are 0; the
  checksum of the IP header and the checksum of the ICMP message are the ones computed
  over the new message (with the checksum field zero).
\<close>

theorem icmp_message_headers:
  assumes "chirouter_send_icmp ctx type code frm = Some ctx'"
    and "frame_bytes ctx frm = Some fb"
    and "length (mac (in_interface frm)) = 6"
  shows "\<exists>reply. ctx' = ctx\<lparr>sent := sent ctx @ [(in_interface frm, reply)]\<rparr>
    \<and> eth_dst reply = eth_src fb
    \<and> eth_src reply = mac (in_interface frm)
    \<and> eth_type reply = ETHERTYPE_IP
    \<and> ip_src reply = in_addr_to_uint32 (ip (in_interface frm))
    \<and> ip_dst reply = ip_src fb
    \<and> ip_ttl reply = 64 \<and> ip_proto reply = 1 \<and> ip_version reply = 4 \<and> ip_ihl reply = 5
    \<and> ip_id reply = 0 \<and> ip_off reply = 0 \<and> ip_tos reply = 0
    \<and> ip_cksum reply = cksum (ip_header_zero_cksum reply)
    \<and> icmp_type reply = type \<and> icmp_code reply = code
    \<and> icmp_chksum reply = cksum (icmp_zero_chksum reply)"
proof -
  from chirouter_send_icmp_Some [OF assms(1)] assms(2) obtain reply where
    reply: "icmp_reply fb frm type code = Some reply"
    and ctx': "ctx' = ctx\<lparr>sent := sent ctx @ [(in_interface frm, reply)]\<rparr>"
    by auto
  from icmp_reply_Some [OF reply] obtain pl where
    pl4: "- 4 \<le> pl" and len: "length reply = nat (42 + pl)"
    and f: "peek reply 0 6 = peek fb 6 6"
     "peek reply 6 6 = peek (mac (in_interface frm)) 0 6"
     "peek reply 12 2 = be16_bytes ETHERTYPE_IP"
     "peek reply 14 1 = [0x45]" "peek reply 15 1 = [0]"
     "peek reply 18 2 = be16_bytes 0" "peek reply 20 2 = be16_bytes 0"
     "peek reply 22 1 = [64]" "peek reply 23 1 = [1]"
     "peek reply 24 2 = be16_bytes (cksum (peek reply 14 10 @ be16_bytes 0 @ peek reply 26 8))"
     "peek reply 26 4 = le32_bytes (in_addr_to_uint32 (ip (in_interface frm)))"
     "peek reply 30 4 = peek fb 26 4"
     "peek reply 34 1 = [type]" "peek reply 35 1 = [code]"
     "peek reply 36 2 = be16_bytes (cksum (peek (poke reply 36 (be16_bytes 0)) 34 (nat (8 + pl))))"
    by blast
  have len38: "38 \<le> length reply" using pl4 len by simp
  have b: "reply ! 14 = 0x45" "reply ! 15 = 0" "reply ! 22 = 64" "reply ! 23 = 1"
    "reply ! 34 = type" "reply ! 35 = code"
    using f by (auto intro: peek1_nth)
  have icmp: "icmp_zero_chksum reply = peek (poke reply 36 (be16_bytes 0)) 34 (nat (8 + pl))"
    using pl4 len by (simp add: icmp_zero_chksum_def peek_def be16_bytes_def)
  have "eth_dst reply = eth_src fb" by (simp add: eth_dst_def eth_src_def f)
  moreover have "eth_src reply = mac (in_interface frm)"
    using assms(3) by (simp add: eth_src_def f peek_all)
  moreover have "eth_type reply = ETHERTYPE_IP" by (simp add: eth_type_def f)
  moreover have "ip_src reply = in_addr_to_uint32 (ip (in_interface frm))"
    by (simp add: ip_src_def f)
  moreover have "ip_dst reply = ip_src fb" by (simp add: ip_dst_def ip_src_def f)
  moreover have "ip_ttl reply = 64" "ip_proto reply = 1" "ip_version reply = 4" "ip_ihl reply = 5"
    "ip_tos reply = 0" "icmp_type reply = type" "icmp_code reply = code"
    by (simp_all add: ip_ttl_def ip_proto_def ip_version_def ip_ihl_def ip_tos_def icmp_type_def
        icmp_code_def b)
  moreover have "ip_id reply = 0" "ip_off reply = 0"
    by (simp_all add: ip_id_def ip_off_def f)
  moreover have "ip_cksum reply = cksum (ip_header_zero_cksum reply)"
    using len38 by (simp add: ip_cksum_def f ip_header_zero_cksum_eq)
  moreover have "icmp_chksum reply = cksum (icmp_zero_chksum reply)"
    by (simp add: icmp_chksum_def f icmp)
  ultimately show ?thesis using ctx' by blast
qed

lemma length_udp_bytes: "length udp_bytes = 42"
  by (simp add: udp_bytes_def ip_frame_def eth0_def host_mac_def)

lemma frame_bytes_udp: "frame_bytes ex_ctx udp_frm = Some udp_bytes"
  by (simp add: frame_bytes_def ex_ctx_def udp_frm_def)

theorem icmp_message_headers_witness:
  "frame_bytes ex_ctx udp_frm = Some udp_bytes \<and> length (mac (in_interface udp_frm)) = 6 \<and>
   (\<exists>ctx' reply.
      chirouter_send_icmp ex_ctx ICMPTYPE_DEST_UNREACHABLE ICMPCODE_DEST_PORT_UNREACHABLE udp_frm
        = Some ctx'
      \<and> ctx' = ex_ctx\<lparr>sent := sent ex_ctx @ [(eth0, reply)]\<rparr>
      \<and> eth_dst reply = host_mac \<and> eth_src reply = mac eth0
      \<and> ip_src reply = 0x0100000A \<and> ip_dst reply = 0x0200000A
      \<and> ip_ttl reply = 64 \<and> ip_proto reply = 1 \<and> ip_version reply = 4 \<and> ip_ihl reply = 5
      \<and> icmp_type reply = 3 \<and> icmp_code reply = 3)"
proof -
  have m: "length (mac (in_interface udp_frm)) = 6" by (simp add: udp_frm_def eth0_def)
  have "\<exists>r. icmp_reply udp_bytes udp_frm ICMPTYPE_DEST_UNREACHABLE
              ICMPCODE_DEST_PORT_UNREACHABLE = Some r"
    by (rule icmp_reply_error_defined) (simp_all add: header_consts length_udp_bytes m)
  then obtain ctx' where
    s: "chirouter_send_icmp ex_ctx ICMPTYPE_DEST_UNREACHABLE ICMPCODE_DEST_PORT_UNREACHABLE
          udp_frm = Some ctx'"
    by (auto simp: chirouter_send_icmp_def frame_bytes_udp)
  have src: "eth_src udp_bytes = host_mac" "ip_src udp_bytes = 0x0200000A"
    by (simp_all add: eth_src_def ip_src_def udp_bytes_def ip_frame_def peek_def le32_def
        le32_bytes_def be16_bytes_def host_mac_def eth0_def)
  from icmp_message_headers [OF s frame_bytes_udp m] src s m frame_bytes_udp
  show ?thesis
    by (auto simp: udp_frm_def eth0_def in_addr_to_uint32_def header_consts)
qed

subsection \<open>Classification of the inbound frame\<close>

lemma load16_eth_type: "load16 fb 12 = Some t \<longleftrightarrow> 14 \<le> length fb \<and> t = eth_type fb"
  by (auto simp: load16_def load_def eth_type_def)

lemma load32_ip_dst: "load32 fb 30 = Some d \<longleftrightarrow> 34 \<le> length fb \<and> d = ip_dst fb"
  by (auto simp: load32_def load_def ip_dst_def)

lemma load8_ip_proto: "load8 fb 23 = Some p \<longleftrightarrow> 23 < length fb \<and> p = ip_proto fb"
  by (auto simp: load8_def ip_proto_def)

lemma load8_ip_ttl: "load8 fb 22 = Some p \<longleftrightarrow> 22 < length fb \<and> p = ip_ttl fb"
  by (auto simp: load8_def ip_ttl_def)

lemma load8_icmp_type: "load8 fb 34 = Some p \<longleftrightarrow> 34 < length fb \<and> p = icmp_type fb"
  by (auto simp: load8_def icmp_type_def)

lemma load16_ip_len: "load16 fb 16 = Some l \<longleftrightarrow> 18 \<le> length fb \<and> l = ip_len fb"
  by (auto simp: load16_def load_def ip_len_def)

lemma load16_arp_op: "load16 fb 20 = Some l \<longleftrightarrow> 22 \<le> length fb \<and> l = arp_op fb"
  by (auto simp: load16_def load_def arp_op_def)

lemma load32_arp_tpa: "load32 fb 38 = Some d \<longleftrightarrow> 42 \<le> length fb \<and> d = arp_tpa fb"
  by (auto simp: load32_def load_def arp_tpa_def)

lemma load32_arp_spa: "load32 fb 28 = Some d \<longleftrightarrow> 32 \<le> length fb \<and> d = arp_spa fb"
  by (auto simp: load32_def load_def arp_spa_def)

lemma load_arp_sha: "load fb 22 6 = Some m \<longleftrightarrow> 28 \<le> length fb \<and> m = arp_sha fb"
  by (auto simp: load_def arp_sha_def)

lemmas load_fields = load16_eth_type load32_ip_dst load8_ip_proto load8_ip_ttl load8_icmp_type
  load16_ip_len load16_arp_op load32_arp_tpa load32_arp_spa load_arp_sha

lemma send_icmp_sent:
  assumes "chirouter_send_icmp ctx type code frm = Some ctx'"
  shows "icmp_sent ctx ctx' frm type code"
proof -
  from chirouter_send_icmp_Some [OF assms] obtain fb reply where
    reply: "icmp_reply fb frm type code = Some reply"
    and ctx': "ctx' = ctx\<lparr>sent := sent ctx @ [(in_interface frm, reply)]\<rparr>"
    by auto
  from icmp_reply_Some [OF reply] have
    f: "peek reply 12 2 = be16_bytes ETHERTYPE_IP" "peek reply 23 1 = [1]"
     "peek reply 34 1 = [type]" "peek reply 35 1 = [code]"
    by blast+
  have "reply ! 23 = 1" "reply ! 34 = type" "reply ! 35 = code"
    using f by (auto intro: peek1_nth)
  then show ?thesis
    unfolding icmp_sent_def icmp_frame_def
    by (intro exI [of _ "(in_interface frm, reply)"])
       (simp add: ctx' eth_type_def f ip_proto_def icmp_type_def icmp_code_def IPPROTO_ICMP_def)
qed

lemma process_other_ethertype:
  assumes "frame_bytes ctx frm = Some fb" "14 \<le> length fb"
    and "eth_type fb \<noteq> ETHERTYPE_IP" "eth_type fb \<noteq> ETHERTYPE_IPV6" "eth_type fb \<noteq> ETHERTYPE_ARP"
  shows "chirouter_process_ethernet_frame now ctx frm = Some (NoValue, ctx)"
proof -
  have "load16 fb 12 = Some (eth_type fb)" using assms(2) by (simp add: load16_eth_type)
  with assms show ?thesis by (simp add: chirouter_process_ethernet_frame_def)
qed

lemma frame_bytes_other: "frame_bytes ex_ctx other_frm = Some other_bytes"
  by (simp add: frame_bytes_def ex_ctx_def other_frm_def)

lemma eth_type_other: "eth_type other_bytes = 0x1234"
  by (simp add: eth_type_def other_bytes_def peek_def be16_def eth0_def host_mac_def)

text \<open>
  C4. A frame whose ethertype is none of IPv4, IPv6 and ARP is ignored: no frame is sent
  and the state of the router does not change. The claim also says that the call returns
  0; the source reaches the end of the function without a \<open>return\<close> statement on this
  path, so the call gives its caller no value. The run of the model on the frame with
  ethertype 0x1234 shows it.
\<close>

theorem other_ethertype_no_return_value:
  "chirouter_process_ethernet_frame 0 ex_ctx other_frm = Some (NoValue, ex_ctx)"
  by (rule process_other_ethertype [OF frame_bytes_other])
     (simp_all add: eth_type_other header_consts, simp add: other_bytes_def eth0_def host_mac_def)

subsection \<open>Frames addressed to the router\<close>

lemma process_frame_to_router:
  assumes "frame_bytes ctx frm = Some fb" "34 \<le> length fb"
    and "eth_type fb = ETHERTYPE_IP \<or> eth_type fb = ETHERTYPE_IPV6"
    and "ip_dst fb = in_addr_to_uint32 (ip (in_interface frm))"
  shows "chirouter_process_ethernet_frame now ctx frm =
           map_option (Pair (Ret 0)) (process_ip_to_router ctx frm fb)"
proof -
  have "load16 fb 12 = Some (eth_type fb)" "load32 fb 30 = Some (ip_dst fb)"
    using assms(2) by (simp_all add: load_fields)
  with assms show ?thesis
    by (cases "process_ip_to_router ctx frm fb")
       (auto simp add: chirouter_process_ethernet_frame_def)
qed

lemma process_ip_to_router_cases:
  assumes "34 \<le> length fb"
  shows "process_ip_to_router ctx frm fb =
    (if ip_proto fb = IPPROTO_TCP \<or> ip_proto fb = IPPROTO_UDP
     then chirouter_send_icmp ctx ICMPTYPE_DEST_UNREACHABLE ICMPCODE_DEST_PORT_UNREACHABLE frm
     else if ip_ttl fb = 1 then chirouter_send_icmp ctx ICMPTYPE_TIME_EXCEEDED 0 frm
     else if ip_proto fb = IPPROTO_ICMP
       then (if 34 < length fb
             then (if icmp_type fb = ICMPTYPE_ECHO_REQUEST
                   then chirouter_send_icmp ctx ICMPTYPE_ECHO_REPLY 0 frm else Some ctx)
             else None)
     else chirouter_send_icmp ctx ICMPTYPE_DEST_UNREACHABLE
            ICMPCODE_DEST_PROTOCOL_UNREACHABLE frm)"
proof -
  have l: "load8 fb 23 = Some (ip_proto fb)" "load8 fb 22 = Some (ip_ttl fb)"
    using assms by (simp_all add: load_fields)
  have t: "load8 fb 34 = (if 34 < length fb then Some (icmp_type fb) else None)"
    by (simp add: load8_def icmp_type_def)
  show ?thesis
    by (simp add: process_ip_to_router_def l t)
qed


lemmas ex_frames = udp_bytes_def echo_bytes_def pong_bytes_def other_bytes_def udp1_bytes_def
  arp_reply_bytes_def peer_mac_def ip_frame_def
  eth0_def eth1_def host_mac_def le32_bytes_def be16_bytes_def

lemmas field_defs = eth_dst_def eth_src_def eth_type_def ip_version_def ip_ihl_def ip_tos_def
  ip_len_def ip_id_def ip_off_def ip_ttl_def ip_proto_def ip_cksum_def ip_src_def ip_dst_def
  icmp_type_def icmp_code_def icmp_chksum_def echo_identifier_def echo_seq_num_def
  arp_op_def arp_sha_def arp_spa_def arp_tpa_def peek_def be16_def le32_def

lemma pong_fields:
  "frame_bytes ex_ctx pong_frm = Some pong_bytes" "length pong_bytes = 46"
  "eth_type pong_bytes = ETHERTYPE_IP"
  "ip_dst pong_bytes = in_addr_to_uint32 (ip (in_interface pong_frm))"
  "ip_proto pong_bytes = IPPROTO_ICMP" "ip_ttl pong_bytes = 64"
  "icmp_type pong_bytes = ICMPTYPE_ECHO_REPLY"
  by (simp_all add: frame_bytes_def ex_ctx_def pong_frm_def ex_frames field_defs header_consts
      in_addr_to_uint32_def)

lemma echo_fields:
  "frame_bytes ex_ctx echo_frm = Some echo_bytes" "length echo_bytes = 46"
  "eth_type echo_bytes = ETHERTYPE_IP"
  "ip_dst echo_bytes = in_addr_to_uint32 (ip (in_interface echo_frm))"
  "ip_proto echo_bytes = IPPROTO_ICMP" "ip_ttl echo_bytes = 64"
  "icmp_type echo_bytes = ICMPTYPE_ECHO_REQUEST" "ip_len echo_bytes = 32"
  "length (mac (in_interface echo_frm)) = 6"
  by (simp_all add: frame_bytes_def ex_ctx_def echo_frm_def ex_frames field_defs header_consts
      in_addr_to_uint32_def)

lemma not_icmp_sent_same: "\<not> icmp_sent ctx ctx frm type code"
proof
  assume "icmp_sent ctx ctx frm type code"
  then obtain out where "ctx = ctx\<lparr>sent := sent ctx @ [out]\<rparr>"
    unfolding icmp_sent_def by blast
  then have "sent ctx = sent (ctx\<lparr>sent := sent ctx @ [out]\<rparr>)"
    by simp
  then show False by simp
qed



subsection \<open>Echo replies\<close>



subsection \<open>Forwarded frames\<close>

lemma forward_ip_datagram_Some:
  assumes "forward_ip_datagram ctx frm dst_mac = Some ctx'"
  shows "\<exists>fb i msg. frame_bytes ctx frm = Some fb
     \<and> chirouter_get_matching_entry ctx fb = Some (Some i)
     \<and> ctx' = ctx\<lparr>sent := sent ctx @ [(interface (routing_table ctx ! i), msg)]\<rparr>
     \<and> length msg = flength frm \<and> 34 \<le> flength frm \<and> 23 \<le> length fb
     \<and> 14 + unat (ip_len fb) \<le> length fb \<and> 14 + unat (ip_len fb) \<le> flength frm
     \<and> 6 \<le> length dst_mac \<and> 6 \<le> length (mac (interface (routing_table ctx ! i)))
     \<and> peek msg 0 6 = peek dst_mac 0 6
     \<and> peek msg 6 6 = peek (mac (interface (routing_table ctx ! i))) 0 6
     \<and> peek msg 12 2 = be16_bytes ETHERTYPE_IP
     \<and> peek msg 22 1 = [ip_ttl fb - 1]
     \<and> peek msg 24 2 = be16_bytes (cksum (peek msg 14 10 @ be16_bytes 0 @ peek msg 26 8))
     \<and> (\<forall>k. 14 \<le> k \<and> k < flength frm \<and> k \<noteq> 22 \<and> k \<noteq> 24 \<and> k \<noteq> 25 \<longrightarrow>
           msg ! k = (if k < 14 + unat (ip_len fb) then fb ! k else 0))"
proof -
  from assms obtain fb r m1 rentry m2 m3 len m4 ttl m5 m6 hdr msg where
    fb: "frame_bytes ctx frm = Some fb"
    and r: "chirouter_get_matching_entry ctx fb = Some r"
    and s1: "memcpy (replicate (flength frm) 0) 0 dst_mac 0 ETHER_ADDR_LEN = Some m1"
    and re: "map_option (\<lambda>i. routing_table ctx ! i) r = Some rentry"
    and s2: "memcpy m1 6 (mac (interface rentry)) 0 ETHER_ADDR_LEN = Some m2"
    and s3: "store16 m2 12 ETHERTYPE_IP = Some m3"
    and l: "load16 fb 16 = Some len"
    and s4: "memcpy m3 14 fb 14 (uint len) = Some m4"
    and t: "load8 fb 22 = Some ttl"
    and s5: "store8 m4 22 (ttl - 1) = Some m5"
    and s6: "store16 m5 24 0 = Some m6"
    and h: "load m6 14 20 = Some hdr"
    and s7: "store16 m6 24 (cksum hdr) = Some msg"
    and c: "ctx' = chirouter_send_frame ctx (interface rentry) msg (flength frm)"
    unfolding forward_ip_datagram_def Let_def bind_eq_Some_conv by blast
  from re obtain i where i: "r = Some i" and rentry: "rentry = routing_table ctx ! i" by auto
  let ?smac = "mac (interface (routing_table ctx ! i))"
  from l t have len: "len = ip_len fb" "18 \<le> length fb" and ttl: "ttl = ip_ttl fb" "22 < length fb"
    by (simp_all add: load_fields)
  have n: "nat (uint len) = unat (ip_len fb)" by (simp add: len)
  from s1 have m1: "m1 = poke (replicate (flength frm) 0) 0 (peek dst_mac 0 6)"
    and b1: "6 \<le> length dst_mac" "6 \<le> flength frm"
    by (simp_all add: mem_eq_Some ETHER_ADDR_LEN_def)
  have l1: "length m1 = flength frm" by (simp add: m1)
  from s2 have m2: "m2 = poke m1 6 (peek ?smac 0 6)" and b2: "6 \<le> length ?smac" "12 \<le> flength frm"
    by (simp_all add: mem_eq_Some ETHER_ADDR_LEN_def rentry l1)
  have l2: "length m2 = flength frm" by (simp add: m2 l1)
  from s3 have m3: "m3 = poke m2 12 (be16_bytes ETHERTYPE_IP)" and b3: "14 \<le> flength frm"
    by (simp_all add: mem_eq_Some l2)
  have l3: "length m3 = flength frm" by (simp add: m3 l2)
  from s4 have m4: "m4 = poke m3 14 (peek fb 14 (unat (ip_len fb)))"
    and b4: "14 + unat (ip_len fb) \<le> length fb" "14 + unat (ip_len fb) \<le> flength frm"
    by (simp_all add: mem_eq_Some l3 len)
  have l4: "length m4 = flength frm" by (simp add: m4 l3)
  from s5 have m5: "m5 = poke m4 22 [ip_ttl fb - 1]" and b5: "23 \<le> flength frm"
    by (simp_all add: mem_eq_Some l4 ttl)
  have l5: "length m5 = flength frm" by (simp add: m5 l4)
  from s6 have m6: "m6 = poke m5 24 (be16_bytes 0)" and b6: "26 \<le> flength frm"
    by (simp_all add: mem_eq_Some l5)
  have l6: "length m6 = flength frm" by (simp add: m6 l5)
  note lm = l6 l5 l4 l3 l2 l1
  from h have hdr: "hdr = peek m6 14 20" and b7: "34 \<le> flength frm"
    by (simp_all add: mem_eq_Some lm)
  from s7 have msg: "msg = poke m6 24 (be16_bytes (cksum (peek m6 14 20)))"
    by (simp add: mem_eq_Some hdr)
  have lmsg: "length msg = flength frm" by (simp add: msg lm)
  have c': "ctx' = ctx\<lparr>sent := sent ctx @ [(interface (routing_table ctx ! i), msg)]\<rparr>"
    using c lmsg by (simp add: chirouter_send_frame_def rentry)
  have d: "peek msg 0 6 = peek m1 0 6" "peek msg 6 6 = peek m2 6 6" "peek msg 12 2 = peek m3 12 2"
    "peek msg 22 1 = peek m5 22 1"
    by (simp_all add: msg m6 m5 m4 m3 m2 peek_poke_disj)
  have f: "peek msg 0 6 = peek dst_mac 0 6" "peek msg 6 6 = peek ?smac 0 6"
     "peek msg 12 2 = be16_bytes ETHERTYPE_IP" "peek msg 22 1 = [ip_ttl fb - 1]"
    unfolding d using b1 b2 b3 b5 lm
    by (simp_all add: m1 m2 m3 m5 peek_poke_same)
  have z: "peek m6 24 2 = be16_bytes 0" using b6 lm by (simp add: m6 peek_poke_same)
  have k: "peek m6 14 20 = peek msg 14 10 @ be16_bytes 0 @ peek msg 26 8"
    using peek_split [of m6 14 10 10] peek_split [of m6 24 2 8] z
    by (simp add: msg peek_poke_disj)
  have "peek msg 24 2 = be16_bytes (cksum (peek m6 14 20))"
    using b6 lm by (simp add: msg peek_poke_same)
  then have ck: "peek msg 24 2 = be16_bytes (cksum (peek msg 14 10 @ be16_bytes 0 @ peek msg 26 8))"
    unfolding k .
  have rest: "\<forall>k. 14 \<le> k \<and> k < flength frm \<and> k \<noteq> 22 \<and> k \<noteq> 24 \<and> k \<noteq> 25 \<longrightarrow>
           msg ! k = (if k < 14 + unat (ip_len fb) then fb ! k else 0)"
  proof (intro allI impI)
    fix k assume a: "14 \<le> k \<and> k < flength frm \<and> k \<noteq> 22 \<and> k \<noteq> 24 \<and> k \<noteq> 25"
    then have "msg ! k = m4 ! k"
      using lm by (auto simp: msg m6 m5 nth_poke)
    also have "m4 ! k = (if k < 14 + unat (ip_len fb) then fb ! k else m3 ! k)"
      using a lm b4 by (auto simp: m4 nth_poke nth_peek)
    also have "m3 ! k = 0"
      using a lm b1 b2 by (auto simp: m3 m2 m1 nth_poke)
    finally show "msg ! k = (if k < 14 + unat (ip_len fb) then fb ! k else 0)" .
  qed
  have fb23: "23 \<le> length fb" using ttl by simp
  show ?thesis
    using fb r [unfolded i] c' lmsg b7 fb23 b4 b1(1) b2(1) f ck rest
    by (intro exI [of _ fb] exI [of _ i] exI [of _ msg] conjI)
qed

lemma get_matching_entry_bound:
  assumes "chirouter_get_matching_entry ctx fb = Some (Some i)"
  shows "i < length (routing_table ctx)"
proof -
  from assms obtain dst where "rtable_loop (routing_table ctx) dst 0 None = Some i"
    by (auto simp: chirouter_get_matching_entry_def split: if_splits)
  with rtable_loop_lpm [of "routing_table ctx" dst] show ?thesis
    by (simp add: lpm_upto_def)
qed

lemma forward_ip_datagram_forward_of:
  assumes "forward_ip_datagram ctx frm dst_mac = Some ctx'"
    and "length dst_mac = 6"
    and "list_all (\<lambda>e. length (mac (interface e)) = 6) (routing_table ctx)"
  shows "\<exists>fb i out. frame_bytes ctx frm = Some fb
     \<and> chirouter_get_matching_entry ctx fb = Some (Some i)
     \<and> ctx' = ctx\<lparr>sent := sent ctx @ [out]\<rparr>
     \<and> length (snd out) = flength frm
     \<and> forward_of fb dst_mac (interface (routing_table ctx ! i)) out"
proof -
  from forward_ip_datagram_Some [OF assms(1)] obtain fb i msg where
    fb: "frame_bytes ctx frm = Some fb"
    and i: "chirouter_get_matching_entry ctx fb = Some (Some i)"
    and c: "ctx' = ctx\<lparr>sent := sent ctx @ [(interface (routing_table ctx ! i), msg)]\<rparr>"
    and l: "length msg = flength frm" "34 \<le> flength frm" "14 + unat (ip_len fb) \<le> flength frm"
    and f: "peek msg 0 6 = peek dst_mac 0 6"
     "peek msg 6 6 = peek (mac (interface (routing_table ctx ! i))) 0 6"
     "peek msg 12 2 = be16_bytes ETHERTYPE_IP"
     "peek msg 22 1 = [ip_ttl fb - 1]"
     "peek msg 24 2 = be16_bytes (cksum (peek msg 14 10 @ be16_bytes 0 @ peek msg 26 8))"
    and rest: "\<forall>k. 14 \<le> k \<and> k < flength frm \<and> k \<noteq> 22 \<and> k \<noteq> 24 \<and> k \<noteq> 25 \<longrightarrow>
           msg ! k = (if k < 14 + unat (ip_len fb) then fb ! k else 0)"
    by blast
  from get_matching_entry_bound [OF i] assms(3)
  have m: "length (mac (interface (routing_table ctx ! i))) = 6"
    by (simp add: list_all_length)
  have t: "msg ! 22 = ip_ttl fb - 1" using f(4) by (rule peek1_nth)
  have r: "\<forall>k. 14 \<le> k \<and> k < 14 + unat (ip_len fb) \<and> k \<noteq> 22 \<and> k \<noteq> 24 \<and> k \<noteq> 25
             \<longrightarrow> msg ! k = fb ! k"
    using rest l(3) by auto
  have "forward_of fb dst_mac (interface (routing_table ctx ! i))
          (interface (routing_table ctx ! i), msg)"
    unfolding forward_of_def
    using l r t
    by (simp add: eth_dst_def eth_src_def eth_type_def ip_ttl_def ip_cksum_def f peek_all m
        assms(2) ip_header_zero_cksum_eq)
  with fb i c l show ?thesis by fastforce
qed

lemma frame_bytes_sent [simp]: "frame_bytes (ctx\<lparr>sent := x\<rparr>) w = frame_bytes ctx w"
  by (simp add: frame_bytes_def)

lemma get_matching_entry_sent [simp]:
  "chirouter_get_matching_entry (ctx\<lparr>sent := x\<rparr>) fb = chirouter_get_matching_entry ctx fb"
  by (simp add: chirouter_get_matching_entry_def)

lemma drained_output_sent [simp]:
  "drained_output (ctx\<lparr>sent := x\<rparr>) sha = drained_output ctx sha"
  by (intro ext) (auto simp: drained_output_def split: option.splits)

lemma send_icmp_frame:
  assumes "chirouter_send_icmp ctx type code frm = Some ctx'"
  shows "\<exists>out. ctx' = ctx\<lparr>sent := sent ctx @ [out]\<rparr> \<and> icmp_frame (in_interface frm) type code out"
  using send_icmp_sent [OF assms] by (simp add: icmp_sent_def)

lemma drain_withheld_Some:
  assumes "drain_withheld ctx ws sha = Some ctx'"
    and "length sha = 6"
    and "list_all (\<lambda>e. length (mac (interface e)) = 6) (routing_table ctx)"
  shows "\<exists>outs. ctx' = ctx\<lparr>sent := sent ctx @ outs\<rparr> \<and> list_all2 (drained_output ctx sha) ws outs"
  using assms
proof (induction ws arbitrary: ctx)
  case Nil
  then show ?case by simp
next
  case (Cons w ws)
  from Cons.prems(1) obtain wb ctx1 where
    wb: "frame_bytes ctx w = Some wb" and len: "22 < length wb"
    and step: "(if ip_ttl wb = 1 then chirouter_send_icmp ctx ICMPTYPE_TIME_EXCEEDED 0 w
                else forward_ip_datagram ctx w sha) = Some ctx1"
    and rest: "drain_withheld ctx1 ws sha = Some ctx'"
    by (auto simp: bind_eq_Some_conv load_fields)
  have "\<exists>out. ctx1 = ctx\<lparr>sent := sent ctx @ [out]\<rparr> \<and> drained_output ctx sha w out"
  proof (cases "ip_ttl wb = 1")
    case True
    with step send_icmp_frame [of ctx ICMPTYPE_TIME_EXCEEDED 0 w ctx1] wb show ?thesis
      by (auto simp: drained_output_def)
  next
    case False
    with step have "forward_ip_datagram ctx w sha = Some ctx1" by simp
    from forward_ip_datagram_forward_of [OF this Cons.prems(2,3)] obtain i out where
      "chirouter_get_matching_entry ctx wb = Some (Some i)"
      "ctx1 = ctx\<lparr>sent := sent ctx @ [out]\<rparr>"
      "forward_of wb sha (interface (routing_table ctx ! i)) out"
      using wb by auto
    with wb False show ?thesis
      by (intro exI [of _ out]) (simp add: drained_output_def)
  qed
  then obtain out where c1: "ctx1 = ctx\<lparr>sent := sent ctx @ [out]\<rparr>"
    and o: "drained_output ctx sha w out" by blast
  have "list_all (\<lambda>e. length (mac (interface e)) = 6) (routing_table ctx1)"
    using Cons.prems(3) by (simp add: c1)
  from Cons.IH [OF rest Cons.prems(2) this] obtain outs where
    "ctx' = ctx1\<lparr>sent := sent ctx1 @ outs\<rparr>" "list_all2 (drained_output ctx1 sha) ws outs"
    by blast
  then have "ctx' = ctx\<lparr>sent := sent ctx @ (out # outs)\<rparr>"
    "list_all2 (drained_output ctx sha) (w # ws) (out # outs)"
    using o by (simp_all add: c1)
  then show ?case by blast
qed

subsection \<open>The forwarding path\<close>

lemma find_match_router_eq:
  "34 \<le> length fb \<Longrightarrow>
   chirouter_find_match_router ctx fb = Some (find_match_loop (interfaces ctx) (ip_dst fb))"
  by (auto simp: chirouter_find_match_router_def load32_def load_def ip_dst_def)

lemma process_frame_other_interface:
  assumes "frame_bytes ctx frm = Some fb" "34 \<le> length fb"
    and "eth_type fb = ETHERTYPE_IP \<or> eth_type fb = ETHERTYPE_IPV6"
    and "ip_dst fb \<noteq> in_addr_to_uint32 (ip (in_interface frm))"
    and "find_match_loop (interfaces ctx) (ip_dst fb)"
  shows "chirouter_process_ethernet_frame now ctx frm =
           map_option (Pair (Ret 0))
             (chirouter_send_icmp ctx ICMPTYPE_DEST_UNREACHABLE ICMPCODE_DEST_HOST_UNREACHABLE frm)"
proof -
  have "load16 fb 12 = Some (eth_type fb)" "load32 fb 30 = Some (ip_dst fb)"
    using assms(2) by (simp_all add: load_fields)
  with assms show ?thesis
    by (cases "chirouter_send_icmp ctx ICMPTYPE_DEST_UNREACHABLE ICMPCODE_DEST_HOST_UNREACHABLE frm")
       (auto simp add: chirouter_process_ethernet_frame_def find_match_router_eq)
qed

lemma process_frame_forward:
  assumes "frame_bytes ctx frm = Some fb" "34 \<le> length fb"
    and "eth_type fb = ETHERTYPE_IP \<or> eth_type fb = ETHERTYPE_IPV6"
    and "ip_dst fb \<noteq> in_addr_to_uint32 (ip (in_interface frm))"
    and "\<not> find_match_loop (interfaces ctx) (ip_dst fb)"
  shows "chirouter_process_ethernet_frame now ctx frm =
           process_ip_forward now ctx frm fb (ip_dst fb)"
proof -
  have "load16 fb 12 = Some (eth_type fb)" "load32 fb 30 = Some (ip_dst fb)"
    using assms(2) by (simp_all add: load_fields)
  with assms show ?thesis
    by (auto simp add: chirouter_process_ethernet_frame_def find_match_router_eq)
qed

lemma process_ip_forward_no_route:
  assumes "chirouter_get_matching_entry ctx fb = Some None"
  shows "process_ip_forward now ctx frm fb dst =
           map_option (Pair (Ret 0))
             (chirouter_send_icmp ctx ICMPTYPE_DEST_UNREACHABLE ICMPCODE_DEST_NET_UNREACHABLE frm)"
  using assms
  by (cases "chirouter_send_icmp ctx ICMPTYPE_DEST_UNREACHABLE ICMPCODE_DEST_NET_UNREACHABLE frm")
     (simp_all add: process_ip_forward_def)

lemma process_ip_forward_hit:
  assumes "chirouter_get_matching_entry ctx fb = Some (Some i)"
    and "chirouter_arp_cache_lookup ctx (get_forward_ip (routing_table ctx ! i) dst) = Some e"
    and "22 < length fb"
  shows "process_ip_forward now ctx frm fb dst =
           map_option (Pair (Ret 0))
             (if ip_ttl fb = 1 then chirouter_send_icmp ctx ICMPTYPE_TIME_EXCEEDED 0 frm
              else forward_ip_datagram ctx frm (cache_mac e))"
proof -
  have "load8 fb 22 = Some (ip_ttl fb)" using assms(3) by (simp add: load_fields)
  with assms(1,2) show ?thesis
    by (cases "chirouter_send_icmp ctx ICMPTYPE_TIME_EXCEEDED 0 frm";
        cases "forward_ip_datagram ctx frm (cache_mac e)")
       (simp_all add: process_ip_forward_def uint32_to_in_addr_def Let_def)
qed

text \<open>What attaching a frame to a pending request gives.\<close>

lemma add_frame_eq:
  assumes "p < length (pending_arp_reqs ctx)"
  shows "chirouter_arp_pending_req_add_frame ctx p frm =
    (if flength frm \<le> avail ctx then
       (case frame_bytes ctx frm of
          None \<Rightarrow> None
        | Some fb \<Rightarrow>
            if flength frm \<le> length fb
            then Some (0, ctx\<lparr>heap := heap ctx @ [Some (peek fb 0 (flength frm))],
                           avail := avail ctx - flength frm,
                           pending_arp_reqs := (pending_arp_reqs ctx)
                             [p := (pending_arp_reqs ctx ! p)
                                \<lparr>withheld_frames := withheld_frames (pending_arp_reqs ctx ! p) @
                                   [\<lparr>raw = length (heap ctx), flength = flength frm,
                                     in_interface = in_interface frm\<rparr>]\<rparr>]\<rparr>)
            else None)
     else Some (1, ctx))"
  using assms
  by (auto simp: chirouter_arp_pending_req_add_frame_def calloc_def frame_bytes_def load_def Let_def
      nth_append split: option.splits)

lemma process_ip_forward_pending:
  assumes "chirouter_get_matching_entry ctx fb = Some (Some i)"
    and "chirouter_arp_cache_lookup ctx (get_forward_ip (routing_table ctx ! i) dst) = None"
    and "chirouter_arp_pending_req_lookup ctx (get_forward_ip (routing_table ctx ! i) dst) = Some p"
  shows "process_ip_forward now ctx frm fb dst =
           map_option (\<lambda>(result, ctx1). (if result = 1 then Ret (- 1) else Ret 0, ctx1))
             (chirouter_arp_pending_req_add_frame ctx p frm)"
  using assms
  by (cases "chirouter_arp_pending_req_add_frame ctx p frm")
     (auto simp add: process_ip_forward_def uint32_to_in_addr_def Let_def)

lemma process_ip_forward_new:
  assumes "chirouter_get_matching_entry ctx fb = Some (Some i)"
    and "chirouter_arp_cache_lookup ctx (get_forward_ip (routing_table ctx ! i) dst) = None"
    and "chirouter_arp_pending_req_lookup ctx (get_forward_ip (routing_table ctx ! i) dst) = None"
  shows "process_ip_forward now ctx frm fb dst =
           map_option (\<lambda>(result, ctx1). (if result = 1 then Ret (- 1) else Ret 0, ctx1))
             (chirouter_arp_pending_req_add_frame
                ((chirouter_send_arp_message ctx (interface (routing_table ctx ! i)) None
                    (get_forward_ip (routing_table ctx ! i) dst) ARP_OP_REQUEST)
                 \<lparr>pending_arp_reqs := pending_arp_reqs ctx @
                    [\<lparr>req_ip = get_forward_ip (routing_table ctx ! i) dst, times_sent = 1,
                      last_sent = now, out_interface = interface (routing_table ctx ! i),
                      withheld_frames = []\<rparr>]\<rparr>)
                (length (pending_arp_reqs ctx)) frm)"
proof -
  let ?e = "routing_table ctx ! i"
  let ?nh = "get_forward_ip ?e dst"
  let ?ctx1 = "chirouter_send_arp_message ctx (interface ?e) None ?nh ARP_OP_REQUEST"
  have p: "pending_arp_reqs ?ctx1 = pending_arp_reqs ctx"
    by (simp add: chirouter_send_arp_message_def chirouter_send_frame_def Let_def)
  show ?thesis
    using assms
    by (cases "chirouter_arp_pending_req_add_frame
                (?ctx1\<lparr>pending_arp_reqs := pending_arp_reqs ctx @
                    [\<lparr>req_ip = ?nh, times_sent = 1,
                      last_sent = now, out_interface = interface ?e,
                      withheld_frames = []\<rparr>]\<rparr>)
                (length (pending_arp_reqs ctx)) frm")
       (auto simp add: process_ip_forward_def uint32_to_in_addr_def Let_def
          chirouter_arp_pending_req_add_def p)
qed

lemma forward_ip_datagram_defined:
  assumes "frame_bytes ctx frm = Some fb"
    and "chirouter_get_matching_entry ctx fb = Some (Some i)"
    and "34 \<le> flength frm" "23 \<le> length fb"
    and "14 + unat (ip_len fb) \<le> length fb" "14 + unat (ip_len fb) \<le> flength frm"
    and "6 \<le> length dst_mac" "6 \<le> length (mac (interface (routing_table ctx ! i)))"
  shows "\<exists>ctx'. forward_ip_datagram ctx frm dst_mac = Some ctx'"
proof -
  have n: "nat (uint (be16 (peek fb 16 2))) = unat (ip_len fb)" by (simp add: ip_len_def)
  show ?thesis
    using assms
    by (simp add: forward_ip_datagram_def mem_defs header_consts Let_def n ip_len_def)
qed

lemma udp_fields:
  "length udp_bytes = 42"
  "eth_type udp_bytes = ETHERTYPE_IP"
  "ip_dst udp_bytes = 0x0500A8C0" "ip_ttl udp_bytes = 64" "ip_len udp_bytes = 28"
  "ip_proto udp_bytes = IPPROTO_UDP"
  by (simp_all add: ex_frames field_defs header_consts)

lemma udp1_fields:
  "length udp1_bytes = 42"
  "eth_type udp1_bytes = ETHERTYPE_IP"
  "ip_dst udp1_bytes = 0x0500A8C0" "ip_ttl udp1_bytes = 1" "ip_len udp1_bytes = 28"
  by (simp_all add: ex_frames field_defs header_consts)

lemma arp_reply_fields:
  "length arp_reply_bytes = 42"
  "eth_type arp_reply_bytes = ETHERTYPE_ARP"
  "arp_op arp_reply_bytes = ARP_OP_REPLY" "arp_sha arp_reply_bytes = peer_mac"
  "arp_spa arp_reply_bytes = 0x0500A8C0" "arp_tpa arp_reply_bytes = 0x0100A8C0"
  by (simp_all add: ex_frames field_defs header_consts)

lemma ex_heap:
  "frame_bytes ex_ctx udp_frm = Some udp_bytes"
  "frame_bytes ex_ctx udp1_frm = Some udp1_bytes"
  "frame_bytes ex_ctx arp_reply_frm = Some arp_reply_bytes"
  "frame_bytes ex_ctx \<lparr>raw = 6, flength = 42, in_interface = eth0\<rparr> = Some udp_bytes"
  "frame_bytes ex_ctx \<lparr>raw = 7, flength = 42, in_interface = eth0\<rparr> = Some udp1_bytes"
  by (simp_all add: frame_bytes_def ex_ctx_def udp_frm_def udp1_frm_def arp_reply_frm_def)

lemma frame_bytes_heap: "heap ctx' = heap ctx \<Longrightarrow> frame_bytes ctx' w = frame_bytes ctx w"
  by (simp add: frame_bytes_def)

lemma get_matching_entry_rt:
  "routing_table ctx' = routing_table ctx \<Longrightarrow>
   chirouter_get_matching_entry ctx' fb = chirouter_get_matching_entry ctx fb"
  by (simp add: chirouter_get_matching_entry_def)

lemma ex_route:
  "routing_table ctx = ex_routes \<Longrightarrow>
   chirouter_get_matching_entry ctx udp_bytes = Some (Some 1)"
  "routing_table ctx = ex_routes \<Longrightarrow>
   chirouter_get_matching_entry ctx udp1_bytes = Some (Some 1)"
  by (simp_all add: chirouter_get_matching_entry_def load32_def load_def udp_fields udp1_fields
      ip_dst_def [symmetric] ex_routes_def in_addr_to_uint32_def)

subsection \<open>TTL and checksum of forwarded frames\<close>


lemma ex_ctx_parts:
  "routing_table ex_ctx = ex_routes" "interfaces ex_ctx = [eth0, eth1]"
  "routing_table hit_ctx = ex_routes" "interfaces hit_ctx = [eth0, eth1]"
  "heap hit_ctx = heap ex_ctx"
  "routing_table pend_ctx = ex_routes" "interfaces pend_ctx = [eth0, eth1]"
  "heap pend_ctx = heap ex_ctx"
  "routing_table full_ctx = ex_routes" "interfaces full_ctx = [eth0, eth1]"
  "heap full_ctx = heap ex_ctx"
  by (simp_all add: ex_ctx_def hit_ctx_def pend_ctx_def full_ctx_def)

lemma ex_routes_macs: "list_all (\<lambda>e. length (mac (interface e)) = 6) ex_routes"
  by (simp add: ex_routes_def eth0_def eth1_def)

lemma ex_routes_1: "interface (ex_routes ! 1) = eth1" "gw (ex_routes ! 1) = 0"
  "length (mac eth1) = 6" "length (mac eth0) = 6" "length peer_mac = 6"
  "interface (ex_routes ! Suc 0) = eth1" "gw (ex_routes ! Suc 0) = 0"
  by (simp_all add: ex_routes_def eth1_def eth0_def peer_mac_def)

lemma ex_frm_parts:
  "flength udp_frm = 42" "in_interface udp_frm = eth0"
  "flength udp1_frm = 42" "in_interface udp1_frm = eth0"
  "flength arp_reply_frm = 42" "in_interface arp_reply_frm = eth1"
  by (simp_all add: udp_frm_def udp1_frm_def arp_reply_frm_def)

lemma ex_nh: "get_forward_ip (ex_routes ! Suc 0) d = d" "get_forward_ip (ex_routes ! 1) d = d"
  by (simp_all add: get_forward_ip_def ex_routes_def in_addr_to_uint32_def)

lemma ex_not_router:
  "(0x0500A8C0 :: 32 word) \<noteq> in_addr_to_uint32 (ip eth0)"
  "\<not> find_match_loop [eth0, eth1] 0x0500A8C0"
  by (simp_all add: eth0_def eth1_def in_addr_to_uint32_def)

lemma ex_udp_forward:
  assumes "heap ctx = heap ex_ctx" "interfaces ctx = [eth0, eth1]"
  shows "chirouter_process_ethernet_frame now ctx udp_frm =
           process_ip_forward now ctx udp_frm udp_bytes (ip_dst udp_bytes)"
    and "chirouter_process_ethernet_frame now ctx udp1_frm =
           process_ip_forward now ctx udp1_frm udp1_bytes (ip_dst udp1_bytes)"
proof -
  have fb: "frame_bytes ctx udp_frm = Some udp_bytes" "frame_bytes ctx udp1_frm = Some udp1_bytes"
    by (simp_all add: frame_bytes_heap [OF assms(1)] ex_heap)
  have l: "34 \<le> length udp_bytes" "34 \<le> length udp1_bytes"
    by (simp_all add: udp_fields udp1_fields)
  have e: "eth_type udp_bytes = ETHERTYPE_IP \<or> eth_type udp_bytes = ETHERTYPE_IPV6"
    "eth_type udp1_bytes = ETHERTYPE_IP \<or> eth_type udp1_bytes = ETHERTYPE_IPV6"
    by (simp_all add: udp_fields udp1_fields)
  have n: "ip_dst udp_bytes \<noteq> in_addr_to_uint32 (ip (in_interface udp_frm))"
    "ip_dst udp1_bytes \<noteq> in_addr_to_uint32 (ip (in_interface udp1_frm))"
    by (simp_all add: udp_fields udp1_fields ex_frm_parts eth0_def in_addr_to_uint32_def)
  have o: "\<not> find_match_loop (interfaces ctx) (ip_dst udp_bytes)"
    "\<not> find_match_loop (interfaces ctx) (ip_dst udp1_bytes)"
    by (simp_all add: assms udp_fields udp1_fields eth0_def eth1_def in_addr_to_uint32_def)
  show "chirouter_process_ethernet_frame now ctx udp_frm =
           process_ip_forward now ctx udp_frm udp_bytes (ip_dst udp_bytes)"
    by (rule process_frame_forward [OF fb(1) l(1) e(1) n(1) o(1)])
  show "chirouter_process_ethernet_frame now ctx udp1_frm =
           process_ip_forward now ctx udp1_frm udp1_bytes (ip_dst udp1_bytes)"
    by (rule process_frame_forward [OF fb(2) l(2) e(2) n(2) o(2)])
qed

lemma hit_lookup:
  "chirouter_arp_cache_lookup hit_ctx 0x0500A8C0
     = Some \<lparr>valid = True, cache_mac = peer_mac, cache_ip = 0x0500A8C0, time_added = 0\<rparr>"
  by (simp add: chirouter_arp_cache_lookup_def hit_ctx_def)


subsection \<open>ARP cache miss\<close>

lemma arp_message_sent:
  "chirouter_send_arp_message ctx iface dst_mac dst_ip op =
     ctx\<lparr>sent := sent ctx @ [(iface,
        (case dst_mac of None \<Rightarrow> replicate 6 0xff | Some m \<Rightarrow> m) @ mac iface
        @ be16_bytes ETHERTYPE_ARP @ be16_bytes 1 @ be16_bytes ETHERTYPE_IP @ [6, 4]
        @ be16_bytes op @ mac iface @ le32_bytes (in_addr_to_uint32 (ip iface))
        @ (case dst_mac of None \<Rightarrow> replicate 6 0 | Some m \<Rightarrow> m) @ le32_bytes dst_ip)]\<rparr>"
  by (simp add: chirouter_send_arp_message_def chirouter_send_frame_def Let_def)

lemma arp_request_fields:
  fixes m :: "byte list" and a nh :: "32 word"
  assumes "length m = 6"
  defines "req \<equiv> replicate 6 0xff @ m @ be16_bytes ETHERTYPE_ARP @ be16_bytes 1
        @ be16_bytes ETHERTYPE_IP @ [6, 4] @ be16_bytes ARP_OP_REQUEST @ m @ le32_bytes a
        @ replicate 6 0 @ le32_bytes nh"
  shows "eth_dst req = replicate 6 0xff" "eth_src req = m" "eth_type req = ETHERTYPE_ARP"
    "arp_op req = ARP_OP_REQUEST" "arp_sha req = m" "arp_spa req = a" "arp_tpa req = nh"
    "length req = 42"
proof -
  have e: "replicate 6 (0xff :: byte) = [0xff, 0xff, 0xff, 0xff, 0xff, 0xff]"
    "replicate 6 (0 :: byte) = [0, 0, 0, 0, 0, 0]"
    by (simp_all add: numeral_eq_Suc)
  show "eth_dst req = replicate 6 0xff" "eth_src req = m" "eth_type req = ETHERTYPE_ARP"
    "arp_op req = ARP_OP_REQUEST" "arp_sha req = m" "arp_spa req = a" "arp_tpa req = nh"
    "length req = 42"
    using assms(1)
    by (simp_all add: req_def eth_dst_def eth_src_def eth_type_def arp_op_def arp_sha_def
        arp_spa_def arp_tpa_def peek_def)
qed

lemma arp_request_sent:
  assumes "length (mac iface) = 6"
  shows "\<exists>req. chirouter_send_arp_message ctx iface None nh ARP_OP_REQUEST
            = ctx\<lparr>sent := sent ctx @ [req]\<rparr> \<and> arp_request_frame iface nh req"
proof -
  let ?b = "replicate 6 0xff @ mac iface @ be16_bytes ETHERTYPE_ARP @ be16_bytes 1
        @ be16_bytes ETHERTYPE_IP @ [6, 4] @ be16_bytes ARP_OP_REQUEST @ mac iface
        @ le32_bytes (in_addr_to_uint32 (ip iface)) @ replicate 6 0 @ le32_bytes nh"
  have "chirouter_send_arp_message ctx iface None nh ARP_OP_REQUEST
          = ctx\<lparr>sent := sent ctx @ [(iface, ?b)]\<rparr>"
    by (simp add: arp_message_sent)
  moreover have "arp_request_frame iface nh (iface, ?b)"
    unfolding arp_request_frame_def
    using arp_request_fields [OF assms, of "in_addr_to_uint32 (ip iface)" nh] by simp
  ultimately show ?thesis by blast
qed

lemma frame_bytes_pending [simp]:
  "frame_bytes (ctx\<lparr>pending_arp_reqs := x\<rparr>) w = frame_bytes ctx w"
  by (simp add: frame_bytes_def)

lemma frame_bytes_arp_cache [simp]:
  "frame_bytes (ctx\<lparr>arp_cache := x\<rparr>) w = frame_bytes ctx w"
  by (simp add: frame_bytes_def)

lemma find_index_bound: "find_index P xs = Some i \<Longrightarrow> i < length xs \<and> P (xs ! i)"
  by (induction xs arbitrary: i) (auto split: if_splits)

lemma find_index_first: "find_index P xs = Some i \<Longrightarrow> j < i \<Longrightarrow> \<not> P (xs ! j)"
proof (induction xs arbitrary: i j)
  case Nil
  then show ?case by simp
next
  case (Cons x xs)
  then show ?case by (cases j) (auto split: if_splits)
qed

lemma find_index_None: "find_index P xs = None \<longleftrightarrow> (\<forall>x\<in>set xs. \<not> P x)"
  by (induction xs) auto

lemma pending_lookup_bound:
  "chirouter_arp_pending_req_lookup ctx a = Some p \<Longrightarrow>
   p < length (pending_arp_reqs ctx) \<and> req_ip (pending_arp_reqs ctx ! p) = a"
  unfolding chirouter_arp_pending_req_lookup_def by (drule find_index_bound) simp

text \<open>
  C6. An IPv4 frame for another host whose route is found and whose next-hop address
  (the gateway of the route when it is not 0, else the destination of the datagram) is
  not in the ARP cache: when no pending request for that address exists, the router
  sends one ARP request for it on the interface of the route, appends a pending entry
  with \<open>times_sent = 1\<close> and \<open>last_sent = now\<close>, and attaches a copy of the frame in a
  new buffer; when a pending request exists, it only attaches the copy to that entry and
  sends nothing. (The copy needs \<open>frame->length\<close> bytes from the allocator; C1 is about
  the case where they are not available.)
\<close>

theorem arp_miss_withholds:
  assumes "frame_bytes ctx frm = Some fb" and "flength frm \<le> length fb"
    and "34 \<le> length fb" and "eth_type fb = ETHERTYPE_IP"
    and "ip_dst fb \<noteq> in_addr_to_uint32 (ip (in_interface frm))"
    and "\<not> find_match_loop (interfaces ctx) (ip_dst fb)"
    and "chirouter_get_matching_entry ctx fb = Some (Some i)"
    and "length (mac (interface (routing_table ctx ! i))) = 6"
    and "nh = get_forward_ip (routing_table ctx ! i) (ip_dst fb)"
    and "chirouter_arp_cache_lookup ctx nh = None"
    and "flength frm \<le> avail ctx"
    and "copy = \<lparr>raw = length (heap ctx), flength = flength frm, in_interface = in_interface frm\<rparr>"
  shows "nh = (if gw (routing_table ctx ! i) \<noteq> 0 then gw (routing_table ctx ! i) else ip_dst fb)
    \<and> (case chirouter_arp_pending_req_lookup ctx nh of
         None \<Rightarrow>
           (\<exists>req. chirouter_process_ethernet_frame now ctx frm =
                Some (Ret 0,
                  ctx\<lparr>sent := sent ctx @ [req],
                      pending_arp_reqs := pending_arp_reqs ctx @
                        [\<lparr>req_ip = nh, times_sent = 1, last_sent = now,
                          out_interface = interface (routing_table ctx ! i),
                          withheld_frames = [copy]\<rparr>],
                      heap := heap ctx @ [Some (peek fb 0 (flength frm))],
                      avail := avail ctx - flength frm\<rparr>)
              \<and> arp_request_frame (interface (routing_table ctx ! i)) nh req)
       | Some p \<Rightarrow>
           chirouter_process_ethernet_frame now ctx frm =
             Some (Ret 0,
               ctx\<lparr>pending_arp_reqs := (pending_arp_reqs ctx)
                     [p := (pending_arp_reqs ctx ! p)
                        \<lparr>withheld_frames := withheld_frames (pending_arp_reqs ctx ! p) @ [copy]\<rparr>],
                   heap := heap ctx @ [Some (peek fb 0 (flength frm))],
                   avail := avail ctx - flength frm\<rparr>))"
proof -
  let ?e = "routing_table ctx ! i"
  have nh: "nh = (if gw ?e \<noteq> 0 then gw ?e else ip_dst fb)"
    by (simp add: assms(9) get_forward_ip_def in_addr_to_uint32_def)
  have run: "chirouter_process_ethernet_frame now ctx frm =
               process_ip_forward now ctx frm fb (ip_dst fb)"
    using assms(1,3,4,5,6) by (intro process_frame_forward) simp_all
  have miss: "chirouter_arp_cache_lookup ctx (get_forward_ip ?e (ip_dst fb)) = None"
    using assms(9,10) by simp
  show ?thesis
  proof (cases "chirouter_arp_pending_req_lookup ctx nh")
    case None
    then have pn: "chirouter_arp_pending_req_lookup ctx (get_forward_ip ?e (ip_dst fb)) = None"
      using assms(9) by simp
    from arp_request_sent [OF assms(8), of ctx nh] obtain req where
      req: "chirouter_send_arp_message ctx (interface ?e) None nh ARP_OP_REQUEST
              = ctx\<lparr>sent := sent ctx @ [req]\<rparr>"
      and r: "arp_request_frame (interface ?e) nh req" by blast
    have "chirouter_process_ethernet_frame now ctx frm =
                Some (Ret 0,
                  ctx\<lparr>sent := sent ctx @ [req],
                      pending_arp_reqs := pending_arp_reqs ctx @
                        [\<lparr>req_ip = nh, times_sent = 1, last_sent = now,
                          out_interface = interface ?e,
                          withheld_frames = [copy]\<rparr>],
                      heap := heap ctx @ [Some (peek fb 0 (flength frm))],
                      avail := avail ctx - flength frm\<rparr>)"
      unfolding run process_ip_forward_new [OF assms(7) miss pn] assms(9) [symmetric] req
      using assms(2,11)
      by (subst add_frame_eq) (simp_all add: assms(1,12))
    with r have "\<exists>req. chirouter_process_ethernet_frame now ctx frm =
                Some (Ret 0,
                  ctx\<lparr>sent := sent ctx @ [req],
                      pending_arp_reqs := pending_arp_reqs ctx @
                        [\<lparr>req_ip = nh, times_sent = 1, last_sent = now,
                          out_interface = interface ?e,
                          withheld_frames = [copy]\<rparr>],
                      heap := heap ctx @ [Some (peek fb 0 (flength frm))],
                      avail := avail ctx - flength frm\<rparr>)
              \<and> arp_request_frame (interface ?e) nh req"
      by (intro exI [of _ req] conjI)
    with nh None show ?thesis by (simp only: option.case)
  next
    case (Some p)
    then have pp: "chirouter_arp_pending_req_lookup ctx (get_forward_ip ?e (ip_dst fb)) = Some p"
      using assms(9) by simp
    have "p < length (pending_arp_reqs ctx)"
      using pending_lookup_bound [OF Some] by simp
    then have "chirouter_process_ethernet_frame now ctx frm =
             Some (Ret 0,
               ctx\<lparr>pending_arp_reqs := (pending_arp_reqs ctx)
                     [p := (pending_arp_reqs ctx ! p)
                        \<lparr>withheld_frames := withheld_frames (pending_arp_reqs ctx ! p) @ [copy]\<rparr>],
                   heap := heap ctx @ [Some (peek fb 0 (flength frm))],
                   avail := avail ctx - flength frm\<rparr>)"
      unfolding run process_ip_forward_pending [OF assms(7) miss pp]
      using assms(2,11)
      by (subst add_frame_eq) (simp_all add: assms(1,12))
    with nh Some show ?thesis by simp
  qed
qed

lemma ex_udp_path:
  "34 \<le> length udp_bytes" "flength udp_frm \<le> length udp_bytes"
  "ip_dst udp_bytes \<noteq> in_addr_to_uint32 (ip (in_interface udp_frm))"
  "0x0500A8C0 = get_forward_ip (ex_routes ! 1) (ip_dst udp_bytes)"
  "length (mac (interface (ex_routes ! 1))) = 6"
  by (simp_all add: udp_fields ex_frm_parts eth0_def in_addr_to_uint32_def ex_nh ex_routes_1)

lemma ex_no_other:
  "interfaces ctx = [eth0, eth1] \<Longrightarrow> \<not> find_match_loop (interfaces ctx) (ip_dst udp_bytes)"
  by (simp add: udp_fields eth0_def eth1_def in_addr_to_uint32_def)

lemma ex_lookups:
  "chirouter_arp_cache_lookup ex_ctx a = None"
  "chirouter_arp_pending_req_lookup ex_ctx a = None"
  "chirouter_arp_cache_lookup pend_ctx a = None"
  "chirouter_arp_pending_req_lookup pend_ctx 0x0500A8C0 = Some 0"
  "chirouter_arp_cache_lookup full_ctx a = None"
  "chirouter_arp_pending_req_lookup full_ctx a = None"
  by (simp_all add: chirouter_arp_cache_lookup_def chirouter_arp_pending_req_lookup_def
      ex_ctx_def pend_ctx_def full_ctx_def)

theorem arp_miss_withholds_witness:
  "frame_bytes ex_ctx udp_frm = Some udp_bytes
   \<and> chirouter_get_matching_entry ex_ctx udp_bytes = Some (Some 1)
   \<and> chirouter_arp_cache_lookup ex_ctx 0x0500A8C0 = None
   \<and> chirouter_arp_pending_req_lookup ex_ctx 0x0500A8C0 = None
   \<and> (\<exists>req. chirouter_process_ethernet_frame 1000 ex_ctx udp_frm =
         Some (Ret 0,
           ex_ctx\<lparr>sent := sent ex_ctx @ [req],
                  pending_arp_reqs := pending_arp_reqs ex_ctx @
                    [\<lparr>req_ip = 0x0500A8C0, times_sent = 1, last_sent = 1000,
                      out_interface = eth1,
                      withheld_frames = [\<lparr>raw = 8, flength = 42, in_interface = eth0\<rparr>]\<rparr>],
                  heap := heap ex_ctx @ [Some udp_bytes],
                  avail := 4054\<rparr>)
       \<and> arp_request_frame eth1 0x0500A8C0 req)
   \<and> chirouter_arp_pending_req_lookup pend_ctx 0x0500A8C0 = Some 0
   \<and> chirouter_process_ethernet_frame 1000 pend_ctx udp_frm =
         Some (Ret 0,
           pend_ctx\<lparr>pending_arp_reqs :=
                      [\<lparr>req_ip = 0x0500A8C0, times_sent = 1, last_sent = 0, out_interface = eth1,
                        withheld_frames = [\<lparr>raw = 6, flength = 42, in_interface = eth0\<rparr>,
                                           \<lparr>raw = 7, flength = 42, in_interface = eth0\<rparr>,
                                           \<lparr>raw = 8, flength = 42, in_interface = eth0\<rparr>]\<rparr>],
                    heap := heap pend_ctx @ [Some udp_bytes],
                    avail := 4054\<rparr>)"
proof -
  have fb2: "frame_bytes pend_ctx udp_frm = Some udp_bytes"
    by (simp add: frame_bytes_heap [OF ex_ctx_parts(8)] ex_heap)
  have rt: "chirouter_get_matching_entry ex_ctx udp_bytes = Some (Some 1)"
    "chirouter_get_matching_entry pend_ctx udp_bytes = Some (Some 1)"
    by (simp_all add: ex_route ex_ctx_parts)
  have av: "flength udp_frm \<le> avail ex_ctx" "flength udp_frm \<le> avail pend_ctx"
    by (simp_all add: ex_frm_parts ex_ctx_def pend_ctx_def)
  have whole: "peek udp_bytes 0 42 = udp_bytes" by (rule peek_all) (simp add: udp_fields)
  note a = arp_miss_withholds [OF ex_heap(1) ex_udp_path(2,1) udp_fields(2) ex_udp_path(3)
      ex_no_other [OF ex_ctx_parts(2)] rt(1) ex_udp_path(5) [folded ex_ctx_parts(1)]
      ex_udp_path(4) [folded ex_ctx_parts(1)] ex_lookups(1) av(1) refl, of 1000]
  note b = arp_miss_withholds [OF fb2 ex_udp_path(2,1) udp_fields(2) ex_udp_path(3)
      ex_no_other [OF ex_ctx_parts(7)] rt(2) ex_udp_path(5) [folded ex_ctx_parts(6)]
      ex_udp_path(4) [folded ex_ctx_parts(6)] ex_lookups(3) av(2) refl, of 1000]
  have h: "length (heap ex_ctx) = 8" "avail ex_ctx = 4096" "pending_arp_reqs ex_ctx = []"
    "length (heap pend_ctx) = 8" "avail pend_ctx = 4096"
    "pending_arp_reqs pend_ctx =
       [\<lparr>req_ip = 0x0500A8C0, times_sent = 1, last_sent = 0, out_interface = eth1,
         withheld_frames = [\<lparr>raw = 6, flength = 42, in_interface = eth0\<rparr>,
                            \<lparr>raw = 7, flength = 42, in_interface = eth0\<rparr>]\<rparr>]"
    by (simp_all add: ex_ctx_def pend_ctx_def)
  from a have a': "\<exists>req. chirouter_process_ethernet_frame 1000 ex_ctx udp_frm =
         Some (Ret 0,
           ex_ctx\<lparr>sent := sent ex_ctx @ [req],
                  pending_arp_reqs := pending_arp_reqs ex_ctx @
                    [\<lparr>req_ip = 0x0500A8C0, times_sent = 1, last_sent = 1000,
                      out_interface = eth1,
                      withheld_frames = [\<lparr>raw = 8, flength = 42, in_interface = eth0\<rparr>]\<rparr>],
                  heap := heap ex_ctx @ [Some udp_bytes],
                  avail := 4054\<rparr>)
       \<and> arp_request_frame eth1 0x0500A8C0 req"
    by (simp add: ex_lookups ex_ctx_parts ex_routes_1 ex_frm_parts whole h)
  from b have b': "chirouter_process_ethernet_frame 1000 pend_ctx udp_frm =
         Some (Ret 0,
           pend_ctx\<lparr>pending_arp_reqs :=
                      [\<lparr>req_ip = 0x0500A8C0, times_sent = 1, last_sent = 0, out_interface = eth1,
                        withheld_frames = [\<lparr>raw = 6, flength = 42, in_interface = eth0\<rparr>,
                                           \<lparr>raw = 7, flength = 42, in_interface = eth0\<rparr>,
                                           \<lparr>raw = 8, flength = 42, in_interface = eth0\<rparr>]\<rparr>],
                    heap := heap pend_ctx @ [Some udp_bytes],
                    avail := 4054\<rparr>)"
    by (simp add: ex_lookups ex_ctx_parts ex_routes_1 ex_frm_parts whole h)
  from a' b' show ?thesis
    by (simp add: ex_heap rt ex_lookups)
qed

subsection \<open>Failure to allocate\<close>

lemma process_frame_arp:
  assumes "frame_bytes ctx frm = Some fb" "14 \<le> length fb" "eth_type fb = ETHERTYPE_ARP"
  shows "chirouter_process_ethernet_frame now ctx frm = process_arp now ctx frm fb"
proof -
  have "load16 fb 12 = Some (eth_type fb)" using assms(2) by (simp add: load_fields)
  with assms show ?thesis
    by (simp add: chirouter_process_ethernet_frame_def header_consts)
qed

lemma arp_loads:
  assumes "42 \<le> length fb"
  shows "load32 fb 38 = Some (arp_tpa fb)" "load16 fb 20 = Some (arp_op fb)"
    "load32 fb 28 = Some (arp_spa fb)" "load fb 22 6 = Some (arp_sha fb)"
  using assms by (simp_all add: load_fields)

lemma process_arp_reply:
  assumes "42 \<le> length fb" "arp_tpa fb = in_addr_to_uint32 (ip (in_interface frm))"
    and "arp_op fb = ARP_OP_REPLY"
  shows "process_arp now ctx frm fb =
    (let (result, ctx1) = chirouter_arp_cache_add now ctx (arp_spa fb) (arp_sha fb)
     in if result \<noteq> 0 then Some (Ret (- 1), ctx1)
        else (case chirouter_arp_pending_req_lookup ctx1 (arp_spa fb) of
                None \<Rightarrow> Some (Ret 0, ctx1)
              | Some p \<Rightarrow> do {
                  ctx2 \<leftarrow> drain_withheld ctx1 (withheld_frames (pending_arp_reqs ctx1 ! p))
                            (arp_sha fb);
                  let (result, ctx3) = chirouter_arp_pending_req_free_frames ctx2 p;
                  if result = 1 then Some (Ret result, ctx3)
                  else Some (Ret 0, ctx3\<lparr>pending_arp_reqs :=
                                            DL_DELETE (pending_arp_reqs ctx3) p\<rparr>) }))"
  using assms(2,3)
  unfolding process_arp_def uint32_to_in_addr_def
  by (simp add: arp_loads [OF assms(1)])

lemma cache_add_result:
  "fst (chirouter_arp_cache_add now ctx a m) = 0 \<or>
   chirouter_arp_cache_add now ctx a m = (1, ctx)"
  by (simp add: chirouter_arp_cache_add_def Let_def split: option.splits)

lemma calloc_None: "calloc ctx n = None \<longleftrightarrow> avail ctx < n"
  by (auto simp: calloc_def)

lemma alloc_failure_forward:
  assumes "frame_bytes ctx frm = Some fb" "34 \<le> length fb" "eth_type fb = ETHERTYPE_IP"
    and "ip_dst fb \<noteq> in_addr_to_uint32 (ip (in_interface frm))"
    and "\<not> find_match_loop (interfaces ctx) (ip_dst fb)"
    and rt: "chirouter_get_matching_entry ctx fb = Some (Some i)"
    and nh: "nh = get_forward_ip (routing_table ctx ! i) (ip_dst fb)"
    and "chirouter_arp_cache_lookup ctx nh = None"
    and "calloc ctx (flength frm) = None"
  shows "chirouter_process_ethernet_frame now ctx frm =
          Some (Ret (- 1),
            case chirouter_arp_pending_req_lookup ctx nh of
              Some p \<Rightarrow> ctx
            | None \<Rightarrow>
                (chirouter_send_arp_message ctx (interface (routing_table ctx ! i)) None nh
                   ARP_OP_REQUEST)
                \<lparr>pending_arp_reqs := pending_arp_reqs ctx @
                   [\<lparr>req_ip = nh, times_sent = 1, last_sent = now,
                     out_interface = interface (routing_table ctx ! i),
                     withheld_frames = []\<rparr>]\<rparr>)"
proof -
  let ?e = "routing_table ctx ! i"
  have run: "chirouter_process_ethernet_frame now ctx frm =
               process_ip_forward now ctx frm fb (ip_dst fb)"
    using assms by (intro process_frame_forward) simp_all
  have miss: "chirouter_arp_cache_lookup ctx (get_forward_ip ?e (ip_dst fb)) = None"
    and mem: "avail ctx < flength frm"
    using assms by (auto simp: calloc_None)
  show ?thesis
  proof (cases "chirouter_arp_pending_req_lookup ctx nh")
    case None
    then have pn: "chirouter_arp_pending_req_lookup ctx (get_forward_ip ?e (ip_dst fb)) = None"
      using nh by simp
    show ?thesis
      unfolding run process_ip_forward_new [OF rt miss pn] nh [symmetric]
      using mem None
      by (subst add_frame_eq) (simp_all add: arp_message_sent)
  next
    case (Some p)
    then have pp: "chirouter_arp_pending_req_lookup ctx (get_forward_ip ?e (ip_dst fb)) = Some p"
      using nh by simp
    have "p < length (pending_arp_reqs ctx)"
      using pending_lookup_bound [OF Some] by simp
    then show ?thesis
      unfolding run process_ip_forward_pending [OF rt miss pp]
      using mem Some
      by (subst add_frame_eq) simp_all
  qed
qed

lemma cache_full_reply:
  assumes "frame_bytes ctx frm = Some ab" "42 \<le> length ab" "eth_type ab = ETHERTYPE_ARP"
    and "arp_tpa ab = in_addr_to_uint32 (ip (in_interface frm))"
    and "arp_op ab = ARP_OP_REPLY"
    and "fst (chirouter_arp_cache_add now ctx (arp_spa ab) (arp_sha ab)) \<noteq> 0"
  shows "chirouter_process_ethernet_frame now ctx frm = Some (Ret (- 1), ctx)"
proof -
  have run: "chirouter_process_ethernet_frame now ctx frm = process_arp now ctx frm ab"
    using assms by (intro process_frame_arp) simp_all
  from assms(6) cache_add_result [of now ctx "arp_spa ab" "arp_sha ab"]
  have c: "chirouter_arp_cache_add now ctx (arp_spa ab) (arp_sha ab) = (1, ctx)" by auto
  from assms show ?thesis
    unfolding run by (subst process_arp_reply) (simp_all add: c)
qed


lemma ex_arp_path:
  "42 \<le> length arp_reply_bytes"
  "arp_tpa arp_reply_bytes = in_addr_to_uint32 (ip (in_interface arp_reply_frm))"
  by (simp_all add: arp_reply_fields ex_frm_parts eth1_def in_addr_to_uint32_def)

lemma ex_cache_full:
  "fst (chirouter_arp_cache_add now ex_ctx a m) \<noteq> 0"
  by (simp add: chirouter_arp_cache_add_def ex_ctx_def)

lemma full_facts:
  "frame_bytes full_ctx udp_frm = Some udp_bytes"
  "chirouter_get_matching_entry full_ctx udp_bytes = Some (Some 1)"
  "calloc full_ctx (flength udp_frm) = None"
  "\<not> find_match_loop (interfaces full_ctx) (ip_dst udp_bytes)"
  "0x0500A8C0 = get_forward_ip (routing_table full_ctx ! 1) (ip_dst udp_bytes)"
proof -
  show "frame_bytes full_ctx udp_frm = Some udp_bytes"
    unfolding frame_bytes_heap [OF ex_ctx_parts(11)] by (rule ex_heap(1))
  show "chirouter_get_matching_entry full_ctx udp_bytes = Some (Some 1)"
    by (rule ex_route(1) [OF ex_ctx_parts(9)])
  show "calloc full_ctx (flength udp_frm) = None"
    by (simp add: calloc_None ex_frm_parts full_ctx_def)
  show "\<not> find_match_loop (interfaces full_ctx) (ip_dst udp_bytes)"
    by (rule ex_no_other [OF ex_ctx_parts(10)])
  show "0x0500A8C0 = get_forward_ip (routing_table full_ctx ! 1) (ip_dst udp_bytes)"
    unfolding ex_ctx_parts(9) by (rule ex_udp_path(4))
qed



subsection \<open>Draining the withheld frames\<close>

lemma withheld_ok_sent [simp]: "withheld_ok (ctx\<lparr>sent := x\<rparr>) = withheld_ok ctx"
  by (intro ext) (simp add: withheld_ok_def cong: option.case_cong)

lemma get_matching_entry_arp_cache [simp]:
  "chirouter_get_matching_entry (ctx\<lparr>arp_cache := x\<rparr>) fb = chirouter_get_matching_entry ctx fb"
  by (simp add: chirouter_get_matching_entry_def)

lemma drained_output_arp_cache [simp]:
  "drained_output (ctx\<lparr>arp_cache := x\<rparr>) sha = drained_output ctx sha"
  by (intro ext) (auto simp: drained_output_def split: option.splits)

lemma withheld_ok_arp_cache [simp]:
  "withheld_ok (ctx\<lparr>arp_cache := x\<rparr>) = withheld_ok ctx"
  by (intro ext) (simp add: withheld_ok_def cong: option.case_cong)

lemma drain_step_defined:
  assumes "withheld_ok ctx w" "6 \<le> length sha"
    and "list_all (\<lambda>e. length (mac (interface e)) = 6) (routing_table ctx)"
  shows "\<exists>wb ctx1. frame_bytes ctx w = Some wb \<and> load8 wb 22 = Some (ip_ttl wb)
     \<and> (if ip_ttl wb = 1 then chirouter_send_icmp ctx ICMPTYPE_TIME_EXCEEDED 0 w
         else forward_ip_datagram ctx w sha) = Some ctx1"
proof -
  from assms(1) obtain wb where wb: "frame_bytes ctx w = Some wb"
    by (auto simp: withheld_ok_def split: option.splits)
  show ?thesis
  proof (cases "ip_ttl wb = 1")
    case True
    with assms(1) wb have l: "42 \<le> length wb" "6 \<le> length (mac (in_interface w))"
      by (simp_all add: withheld_ok_def)
    from icmp_reply_error_defined [of ICMPTYPE_TIME_EXCEEDED wb w 0, OF _ _ l]
    obtain r where "icmp_reply wb w ICMPTYPE_TIME_EXCEEDED 0 = Some r"
      by (auto simp: header_consts)
    with wb True l show ?thesis
      by (simp add: chirouter_send_icmp_def load_fields)
  next
    case False
    with assms(1) wb obtain i where
      l: "34 \<le> flength w" "23 \<le> length wb" "14 + unat (ip_len wb) \<le> length wb"
         "14 + unat (ip_len wb) \<le> flength w"
      and i: "chirouter_get_matching_entry ctx wb = Some (Some i)"
      by (auto simp: withheld_ok_def split: option.splits)
    from get_matching_entry_bound [OF i] assms(3)
    have "6 \<le> length (mac (interface (routing_table ctx ! i)))"
      by (simp add: list_all_length)
    from forward_ip_datagram_defined [OF wb i l assms(2) this]
    obtain ctx1 where "forward_ip_datagram ctx w sha = Some ctx1" by blast
    with wb False l show ?thesis
      by (simp add: load_fields)
  qed
qed

lemma drain_withheld_defined:
  assumes "list_all (withheld_ok ctx) ws" "length sha = 6"
    and "list_all (\<lambda>e. length (mac (interface e)) = 6) (routing_table ctx)"
  shows "\<exists>outs. drain_withheld ctx ws sha = Some (ctx\<lparr>sent := sent ctx @ outs\<rparr>)
           \<and> list_all2 (drained_output ctx sha) ws outs"
proof -
  have "\<exists>ctx'. drain_withheld ctx ws sha = Some ctx'"
    using assms
  proof (induction ws arbitrary: ctx)
    case Nil
    then show ?case by simp
  next
    case (Cons w ws)
    from Cons.prems have w: "withheld_ok ctx w" and s: "6 \<le> length sha" by simp_all
    from drain_step_defined [OF w s Cons.prems(3)] obtain wb ctx1 where
      wb: "frame_bytes ctx w = Some wb" "load8 wb 22 = Some (ip_ttl wb)"
      and step: "(if ip_ttl wb = 1 then chirouter_send_icmp ctx ICMPTYPE_TIME_EXCEEDED 0 w
                  else forward_ip_datagram ctx w sha) = Some ctx1"
      by blast
    have "\<exists>x. ctx1 = ctx\<lparr>sent := x\<rparr>"
    proof (cases "ip_ttl wb = 1")
      case True
      with step chirouter_send_icmp_Some [of ctx ICMPTYPE_TIME_EXCEEDED 0 w ctx1]
      show ?thesis by auto
    next
      case False
      with step forward_ip_datagram_Some [of ctx w sha ctx1]
      show ?thesis by auto
    qed
    then obtain x where c1: "ctx1 = ctx\<lparr>sent := x\<rparr>" by blast
    have "list_all (withheld_ok ctx1) ws"
      "list_all (\<lambda>e. length (mac (interface e)) = 6) (routing_table ctx1)"
      using Cons.prems by (simp_all add: c1)
    from Cons.IH [OF this(1) Cons.prems(2) this(2)] obtain ctx' where
      "drain_withheld ctx1 ws sha = Some ctx'" by blast
    with wb step show ?case by (simp del: if_split add: if_split_asm)
  qed
  then obtain ctx' where d: "drain_withheld ctx ws sha = Some ctx'" by blast
  from drain_withheld_Some [OF d assms(2,3)] d show ?thesis by auto
qed


lemma find_update:
  "i < length xs \<Longrightarrow> (\<forall>j<i. \<not> P (xs ! j)) \<Longrightarrow> P y \<Longrightarrow> find P (xs[i := y]) = Some y"
proof (induction xs arbitrary: i)
  case Nil
  then show ?case by simp
next
  case (Cons x xs)
  show ?case
  proof (cases i)
    case 0
    with Cons.prems show ?thesis by simp
  next
    case (Suc k)
    from Cons.prems(2) Suc have "\<not> P x" by auto
    moreover have "\<forall>j<k. \<not> P (xs ! j)"
      using Cons.prems(2) Suc by auto
    moreover have "k < length xs" using Cons.prems(1) Suc by simp
    ultimately show ?thesis
      using Cons.IH [of k] Cons.prems(3) Suc by simp
  qed
qed

lemma cache_add_lookup:
  assumes "fst (chirouter_arp_cache_add now ctx a m) = 0"
  shows "\<exists>c. chirouter_arp_cache_add now ctx a m = (0, ctx\<lparr>arp_cache := c\<rparr>)
    \<and> chirouter_arp_cache_lookup (ctx\<lparr>arp_cache := c\<rparr>) a
        = Some \<lparr>valid = True, cache_mac = m, cache_ip = a, time_added = now\<rparr>"
proof -
  let ?P = "\<lambda>e. valid e \<and> cache_ip e = a"
  let ?y = "\<lparr>valid = True, cache_mac = m, cache_ip = a, time_added = now\<rparr>"
  show ?thesis
  proof (cases "find_index ?P (arp_cache ctx)")
    case (Some i)
    from find_index_bound [OF Some] find_index_first [OF Some]
    have "find ?P ((arp_cache ctx)[i := ?y]) = Some ?y"
      by (intro find_update) simp_all
    with Some show ?thesis
      by (intro exI [of _ "(arp_cache ctx)[i := ?y]"])
         (simp add: chirouter_arp_cache_add_def chirouter_arp_cache_lookup_def)
  next
    case None
    with assms obtain i where i: "find_index (\<lambda>e. \<not> valid e) (arp_cache ctx) = Some i"
      by (auto simp: chirouter_arp_cache_add_def split: option.splits)
    from None have "\<forall>j < length (arp_cache ctx). \<not> ?P (arp_cache ctx ! j)"
      unfolding find_index_None by (metis nth_mem)
    with find_index_bound [OF i]
    have "find ?P ((arp_cache ctx)[i := ?y]) = Some ?y"
      by (intro find_update) simp_all
    with None i show ?thesis
      by (intro exI [of _ "(arp_cache ctx)[i := ?y]"])
         (simp add: chirouter_arp_cache_add_def chirouter_arp_cache_lookup_def)
  qed
qed

lemma free_fields [simp]:
  "sent (free c a) = sent c" "pending_arp_reqs (free c a) = pending_arp_reqs c"
  "arp_cache (free c a) = arp_cache c" "routing_table (free c a) = routing_table c"
  "interfaces (free c a) = interfaces c" "length (heap (free c a)) = length (heap c)"
  by (simp_all add: free_def split: option.splits)

lemma free_heap:
  "b < length (heap c) \<Longrightarrow> heap (free c a) ! b = (if b = a then None else heap c ! b)"
  by (auto simp: free_def split: option.splits)

lemma fold_free_fields [simp]:
  "sent (fold (\<lambda>w c. free c (raw w)) ws c) = sent c"
  "pending_arp_reqs (fold (\<lambda>w c. free c (raw w)) ws c) = pending_arp_reqs c"
  "arp_cache (fold (\<lambda>w c. free c (raw w)) ws c) = arp_cache c"
  "routing_table (fold (\<lambda>w c. free c (raw w)) ws c) = routing_table c"
  "interfaces (fold (\<lambda>w c. free c (raw w)) ws c) = interfaces c"
  "length (heap (fold (\<lambda>w c. free c (raw w)) ws c)) = length (heap c)"
  by (induction ws arbitrary: c) simp_all

lemma fold_free_heap:
  "b < length (heap c) \<Longrightarrow>
   heap (fold (\<lambda>w c. free c (raw w)) ws c) ! b
     = (if b \<in> raw ` set ws then None else heap c ! b)"
  by (induction ws arbitrary: c) (auto simp: free_heap)

lemma frame_bytes_fold_free:
  "frame_bytes (fold (\<lambda>w c. free c (raw w)) ws c) w
     = (if raw w \<in> raw ` set ws then None else frame_bytes c w)"
  by (auto simp: frame_bytes_def fold_free_heap)

lemma DL_DELETE_update [simp]: "DL_DELETE (xs[p := y]) p = DL_DELETE xs p"
  by (simp add: DL_DELETE_def)

lemma pending_lookup_arp_cache [simp]:
  "chirouter_arp_pending_req_lookup (ctx\<lparr>arp_cache := x\<rparr>) a
     = chirouter_arp_pending_req_lookup ctx a"
  by (simp add: chirouter_arp_pending_req_lookup_def)

lemma length_arp_sha: "28 \<le> length fb \<Longrightarrow> length (arp_sha fb) = 6"
  by (simp add: arp_sha_def)

text \<open>
  C5. An ARP reply whose target protocol address is the address of the interface it
  arrived on, when the cache accepts the insertion: the call returns 0; afterwards the
  cache maps the sender protocol address to the sender hardware address of the reply
  (stamped with the time of the call); the router has sent, in the order of the withheld
  list, exactly one frame for each frame withheld for that address, and nothing else:
  ICMP time exceeded on the frame's own ingress interface when its TTL is 1, else the
  frame forwarded to the sender hardware address on the interface of its route; the
  pending entry is gone from the list; and the buffers of the withheld frames are freed.
  When no request is pending for the address, nothing is sent and the list is unchanged.
\<close>

theorem arp_reply_drains_withheld:
  assumes fb: "frame_bytes ctx frm = Some fb" and len: "42 \<le> length fb"
    and ty: "eth_type fb = ETHERTYPE_ARP"
    and tpa: "arp_tpa fb = in_addr_to_uint32 (ip (in_interface frm))"
    and op: "arp_op fb = ARP_OP_REPLY"
    and add: "fst (chirouter_arp_cache_add now ctx (arp_spa fb) (arp_sha fb)) = 0"
    and macs: "list_all (\<lambda>e. length (mac (interface e)) = 6) (routing_table ctx)"
    and ok: "list_all (withheld_ok ctx) (withheld_for ctx (arp_spa fb))"
  shows "\<exists>ctx' outs. chirouter_process_ethernet_frame now ctx frm = Some (Ret 0, ctx')
    \<and> chirouter_arp_cache_lookup ctx' (arp_spa fb)
        = Some \<lparr>valid = True, cache_mac = arp_sha fb, cache_ip = arp_spa fb, time_added = now\<rparr>
    \<and> sent ctx' = sent ctx @ outs
    \<and> list_all2 (drained_output ctx (arp_sha fb)) (withheld_for ctx (arp_spa fb)) outs
    \<and> pending_arp_reqs ctx' =
        (case chirouter_arp_pending_req_lookup ctx (arp_spa fb) of
           None \<Rightarrow> pending_arp_reqs ctx
         | Some p \<Rightarrow> DL_DELETE (pending_arp_reqs ctx) p)
    \<and> list_all (\<lambda>w. frame_bytes ctx' w = None) (withheld_for ctx (arp_spa fb))"
proof -
  let ?spa = "arp_spa fb" and ?sha = "arp_sha fb"
  let ?e = "\<lparr>valid = True, cache_mac = ?sha, cache_ip = ?spa, time_added = now\<rparr>"
  have run: "chirouter_process_ethernet_frame now ctx frm = process_arp now ctx frm fb"
    using fb len ty by (intro process_frame_arp) simp_all
  from cache_add_lookup [OF add] obtain c where
    c: "chirouter_arp_cache_add now ctx ?spa ?sha = (0, ctx\<lparr>arp_cache := c\<rparr>)"
    and look: "chirouter_arp_cache_lookup (ctx\<lparr>arp_cache := c\<rparr>) ?spa = Some ?e"
    by blast
  let ?c1 = "ctx\<lparr>arp_cache := c\<rparr>"
  have sha: "length ?sha = 6" using len by (simp add: length_arp_sha)
  show ?thesis
  proof (cases "chirouter_arp_pending_req_lookup ctx ?spa")
    case None
    have "process_arp now ctx frm fb = Some (Ret 0, ?c1)"
      by (subst process_arp_reply [OF len tpa op]) (simp add: c None)
    with look None show ?thesis
      unfolding run by (intro exI [of _ ?c1] exI [of _ "[]"]) (simp add: withheld_for_def)
  next
    case (Some p)
    let ?ws = "withheld_frames (pending_arp_reqs ctx ! p)"
    have wf: "withheld_for ctx ?spa = ?ws" using Some by (simp add: withheld_for_def)
    have "list_all (withheld_ok ?c1) ?ws"
      "list_all (\<lambda>e. length (mac (interface e)) = 6) (routing_table ?c1)"
      using ok macs by (simp_all add: wf)
    from drain_withheld_defined [OF this(1) sha this(2)] obtain outs where
      d: "drain_withheld ?c1 ?ws ?sha = Some (?c1\<lparr>sent := sent ?c1 @ outs\<rparr>)"
      and o: "list_all2 (drained_output ctx ?sha) ?ws outs"
      by auto
    let ?c2 = "?c1\<lparr>sent := sent ?c1 @ outs\<rparr>"
    let ?c3 = "fold (\<lambda>w c. free c (raw w)) ?ws ?c2"
    let ?c' = "?c3\<lparr>pending_arp_reqs := DL_DELETE (pending_arp_reqs ctx) p\<rparr>"
    have "process_arp now ctx frm fb = Some (Ret 0, ?c')"
      by (subst process_arp_reply [OF len tpa op])
         (simp add: c Some d chirouter_arp_pending_req_free_frames_def Let_def)
    moreover have "chirouter_arp_cache_lookup ?c' ?spa = Some ?e"
      using look by (simp add: chirouter_arp_cache_lookup_def)
    moreover have "sent ?c' = sent ctx @ outs" by simp
    moreover have "pending_arp_reqs ?c' = DL_DELETE (pending_arp_reqs ctx) p" by simp
    moreover have "list_all (\<lambda>w. frame_bytes ?c' w = None) ?ws"
      by (simp add: list_all_iff frame_bytes_fold_free)
    ultimately show ?thesis
      unfolding run wf using o Some
      by (intro exI [of _ ?c'] exI [of _ outs]) simp
  qed
qed


lemma pend_facts:
  "frame_bytes pend_ctx arp_reply_frm = Some arp_reply_bytes"
  "frame_bytes pend_ctx \<lparr>raw = 6, flength = 42, in_interface = eth0\<rparr> = Some udp_bytes"
  "frame_bytes pend_ctx \<lparr>raw = 7, flength = 42, in_interface = eth0\<rparr> = Some udp1_bytes"
  "chirouter_get_matching_entry pend_ctx udp_bytes = Some (Some 1)"
  "list_all (\<lambda>e. length (mac (interface e)) = 6) (routing_table pend_ctx)"
  "interface (routing_table pend_ctx ! 1) = eth1"
  "sent pend_ctx = []"
  by (simp_all add: frame_bytes_heap [OF ex_ctx_parts(8)] ex_heap ex_route ex_ctx_parts
      ex_routes_macs ex_routes_1) (simp add: pend_ctx_def ex_ctx_def)

lemma pend_withheld:
  "withheld_for pend_ctx 0x0500A8C0 =
     [\<lparr>raw = 6, flength = 42, in_interface = eth0\<rparr>,
      \<lparr>raw = 7, flength = 42, in_interface = eth0\<rparr>]"
  by (simp add: withheld_for_def ex_lookups) (simp add: pend_ctx_def)

lemma pend_withheld_ok:
  "list_all (withheld_ok pend_ctx)
     [\<lparr>raw = 6, flength = 42, in_interface = eth0\<rparr>,
      \<lparr>raw = 7, flength = 42, in_interface = eth0\<rparr>]"
  by (simp add: withheld_ok_def pend_facts udp_fields udp1_fields ex_routes_1)

lemma pend_cache_add:
  "fst (chirouter_arp_cache_add now pend_ctx 0x0500A8C0 peer_mac) = 0"
  by (simp add: chirouter_arp_cache_add_def pend_ctx_def)

theorem arp_reply_drains_withheld_witness:
  "frame_bytes pend_ctx arp_reply_frm = Some arp_reply_bytes
   \<and> arp_spa arp_reply_bytes = 0x0500A8C0 \<and> arp_sha arp_reply_bytes = peer_mac
   \<and> fst (chirouter_arp_cache_add 7 pend_ctx 0x0500A8C0 peer_mac) = 0
   \<and> chirouter_arp_pending_req_lookup pend_ctx 0x0500A8C0 = Some 0
   \<and> withheld_for pend_ctx 0x0500A8C0 =
        [\<lparr>raw = 6, flength = 42, in_interface = eth0\<rparr>,
         \<lparr>raw = 7, flength = 42, in_interface = eth0\<rparr>]
   \<and> ip_ttl udp_bytes = 64 \<and> ip_ttl udp1_bytes = 1
   \<and> (\<exists>ctx' o1 o2.
         chirouter_process_ethernet_frame 7 pend_ctx arp_reply_frm = Some (Ret 0, ctx')
       \<and> chirouter_arp_cache_lookup ctx' 0x0500A8C0
            = Some \<lparr>valid = True, cache_mac = peer_mac, cache_ip = 0x0500A8C0, time_added = 7\<rparr>
       \<and> sent ctx' = [o1, o2]
       \<and> forward_of udp_bytes peer_mac eth1 o1
       \<and> icmp_frame eth0 ICMPTYPE_TIME_EXCEEDED 0 o2
       \<and> pending_arp_reqs ctx' = []
       \<and> frame_bytes ctx' \<lparr>raw = 6, flength = 42, in_interface = eth0\<rparr> = None
       \<and> frame_bytes ctx' \<lparr>raw = 7, flength = 42, in_interface = eth0\<rparr> = None)"
proof -
  let ?w6 = "\<lparr>raw = 6, flength = 42, in_interface = eth0\<rparr>"
  let ?w7 = "\<lparr>raw = 7, flength = 42, in_interface = eth0\<rparr>"
  have add: "fst (chirouter_arp_cache_add 7 pend_ctx (arp_spa arp_reply_bytes)
               (arp_sha arp_reply_bytes)) = 0"
    unfolding arp_reply_fields by (rule pend_cache_add)
  have ok: "list_all (withheld_ok pend_ctx) (withheld_for pend_ctx (arp_spa arp_reply_bytes))"
    unfolding arp_reply_fields pend_withheld by (rule pend_withheld_ok)
  from arp_reply_drains_withheld [OF pend_facts(1) ex_arp_path(1) arp_reply_fields(2)
      ex_arp_path(2) arp_reply_fields(3) add pend_facts(5) ok]
  obtain ctx' outs where
    run: "chirouter_process_ethernet_frame 7 pend_ctx arp_reply_frm = Some (Ret 0, ctx')"
    and look: "chirouter_arp_cache_lookup ctx' 0x0500A8C0
        = Some \<lparr>valid = True, cache_mac = peer_mac, cache_ip = 0x0500A8C0, time_added = 7\<rparr>"
    and snt: "sent ctx' = sent pend_ctx @ outs"
    and outs: "list_all2 (drained_output pend_ctx peer_mac) [?w6, ?w7] outs"
    and pend: "pending_arp_reqs ctx' =
        (case chirouter_arp_pending_req_lookup pend_ctx 0x0500A8C0 of
           None \<Rightarrow> pending_arp_reqs pend_ctx
         | Some p \<Rightarrow> DL_DELETE (pending_arp_reqs pend_ctx) p)"
    and freed: "list_all (\<lambda>w. frame_bytes ctx' w = None) [?w6, ?w7]"
    unfolding arp_reply_fields pend_withheld by blast
  from outs obtain o1 o2 where o: "outs = [o1, o2]"
    and d1: "drained_output pend_ctx peer_mac ?w6 o1"
    and d2: "drained_output pend_ctx peer_mac ?w7 o2"
    by (auto simp: list_all2_Cons1)
  from d1 have f1: "forward_of udp_bytes peer_mac eth1 o1"
    by (simp add: drained_output_def pend_facts udp_fields ex_ctx_parts ex_routes_1)
  from d2 have f2: "icmp_frame eth0 ICMPTYPE_TIME_EXCEEDED 0 o2"
    by (simp add: drained_output_def pend_facts udp1_fields)
  have p: "pending_arp_reqs ctx' = []"
    unfolding pend ex_lookups by (simp add: DL_DELETE_def pend_ctx_def)
  have s: "sent ctx' = [o1, o2]" unfolding snt o by (simp add: pend_facts)
  from freed have fr: "frame_bytes ctx' ?w6 = None" "frame_bytes ctx' ?w7 = None" by simp_all
  have "\<exists>ctx' o1 o2.
         chirouter_process_ethernet_frame 7 pend_ctx arp_reply_frm = Some (Ret 0, ctx')
       \<and> chirouter_arp_cache_lookup ctx' 0x0500A8C0
            = Some \<lparr>valid = True, cache_mac = peer_mac, cache_ip = 0x0500A8C0, time_added = 7\<rparr>
       \<and> sent ctx' = [o1, o2]
       \<and> forward_of udp_bytes peer_mac eth1 o1
       \<and> icmp_frame eth0 ICMPTYPE_TIME_EXCEEDED 0 o2
       \<and> pending_arp_reqs ctx' = []
       \<and> frame_bytes ctx' ?w6 = None \<and> frame_bytes ctx' ?w7 = None"
    using run look s f1 f2 p fr by blast
  then show ?thesis
    using pend_facts(1) arp_reply_fields(4,5) pend_cache_add [of 7] ex_lookups(4)
      pend_withheld udp_fields(4) udp1_fields(4)
    by blast
qed

subsection \<open>The buffer of the inbound frame\<close>

lemma not_withheld_sent [simp]: "not_withheld (ctx\<lparr>sent := x\<rparr>) frm = not_withheld ctx frm"
  by (simp add: not_withheld_def)

lemma not_withheld_arp_cache [simp]:
  "not_withheld (ctx\<lparr>arp_cache := x\<rparr>) frm = not_withheld ctx frm"
  by (simp add: not_withheld_def)

lemma drain_withheld_sent:
  "drain_withheld ctx ws sha = Some ctx' \<Longrightarrow> \<exists>x. ctx' = ctx\<lparr>sent := x\<rparr>"
proof (induction ws arbitrary: ctx)
  case Nil
  then have "ctx' = ctx\<lparr>sent := sent ctx\<rparr>" by simp
  then show ?case by blast
next
  case (Cons w ws)
  from Cons.prems obtain ttl :: byte and ctx1 where
    step: "(if ttl = 1 then chirouter_send_icmp ctx ICMPTYPE_TIME_EXCEEDED 0 w
            else forward_ip_datagram ctx w sha) = Some ctx1"
    and rest: "drain_withheld ctx1 ws sha = Some ctx'"
    unfolding drain_withheld.simps bind_eq_Some_conv by blast
  have "\<exists>x. ctx1 = ctx\<lparr>sent := x\<rparr>"
  proof (cases "ttl = 1")
    case True
    with step chirouter_send_icmp_Some [of ctx ICMPTYPE_TIME_EXCEEDED 0 w ctx1]
    show ?thesis by auto
  next
    case False
    with step forward_ip_datagram_Some [of ctx w sha ctx1]
    show ?thesis by auto
  qed
  then obtain x where "ctx1 = ctx\<lparr>sent := x\<rparr>" by blast
  with Cons.IH [OF rest] show ?case by auto
qed

lemma send_icmp_kept:
  assumes "chirouter_send_icmp ctx type code w = Some ctx1"
  shows "frame_bytes ctx1 frm = frame_bytes ctx frm"
    "not_withheld ctx1 frm = not_withheld ctx frm"
  using chirouter_send_icmp_Some [OF assms] by auto

lemma forward_kept:
  assumes "forward_ip_datagram ctx w m = Some ctx1"
  shows "frame_bytes ctx1 frm = frame_bytes ctx frm"
    "not_withheld ctx1 frm = not_withheld ctx frm"
  using forward_ip_datagram_Some [OF assms] by auto

lemma to_router_kept:
  assumes "process_ip_to_router ctx frm fb = Some ctx1"
  shows "frame_bytes ctx1 frm = frame_bytes ctx frm \<and> not_withheld ctx1 frm = not_withheld ctx frm"
  using assms unfolding process_ip_to_router_def
  by (auto simp: bind_eq_Some_conv send_icmp_kept split: if_splits)

lemma add_frame_kept:
  assumes "chirouter_arp_pending_req_add_frame ctx p w = Some (r, ctx1)"
    and "frame_bytes ctx frm = Some fb" and "not_withheld ctx frm"
  shows "frame_bytes ctx1 frm = Some fb \<and> not_withheld ctx1 frm"
proof -
  from assms(2) have lt: "raw frm < length (heap ctx)" and h: "heap ctx ! raw frm = Some fb"
    by (auto simp: frame_bytes_def split: if_splits)
  from assms(1) have p: "p < length (pending_arp_reqs ctx)"
    by (auto simp: chirouter_arp_pending_req_add_frame_def split: if_splits)
  show ?thesis
  proof (cases "calloc ctx (flength w)")
    case None
    with assms p show ?thesis by (simp add: chirouter_arp_pending_req_add_frame_def)
  next
    case (Some ac)
    then have ac: "ac = (length (heap ctx),
        ctx\<lparr>heap := heap ctx @ [Some (replicate (flength w) 0)],
            avail := avail ctx - flength w\<rparr>)"
      by (auto simp: calloc_def split: if_splits)
    from assms(1) p Some have "\<exists>bs. heap ctx1 = heap ctx @ [Some bs]
        \<and> pending_arp_reqs ctx1 = (pending_arp_reqs ctx)
             [p := (pending_arp_reqs ctx ! p)
                \<lparr>withheld_frames := withheld_frames (pending_arp_reqs ctx ! p)
                   @ [\<lparr>raw = length (heap ctx), flength = flength w,
                       in_interface = in_interface w\<rparr>]\<rparr>]"
      by (auto simp: chirouter_arp_pending_req_add_frame_def ac bind_eq_Some_conv Let_def)
    then obtain bs where c1: "heap ctx1 = heap ctx @ [Some bs]"
      "pending_arp_reqs ctx1 = (pending_arp_reqs ctx)
             [p := (pending_arp_reqs ctx ! p)
                \<lparr>withheld_frames := withheld_frames (pending_arp_reqs ctx ! p)
                   @ [\<lparr>raw = length (heap ctx), flength = flength w,
                       in_interface = in_interface w\<rparr>]\<rparr>]"
      by blast
    have "frame_bytes ctx1 frm = Some fb"
      using lt h by (simp add: c1 frame_bytes_def nth_append)
    moreover have "not_withheld ctx1 frm"
    proof -
      have old: "list_all (\<lambda>r. list_all (\<lambda>w. raw w \<noteq> raw frm) (withheld_frames r))
                   (pending_arp_reqs ctx)"
        using assms(3) by (simp add: not_withheld_def)
      then have "list_all (\<lambda>w. raw w \<noteq> raw frm) (withheld_frames (pending_arp_reqs ctx ! p))"
        using p by (simp add: list_all_length)
      with old lt show ?thesis
        unfolding not_withheld_def c1 list_all_iff
        by (auto dest!: set_update_subset_insert [THEN subsetD])
    qed
    ultimately show ?thesis by simp
  qed
qed


lemma ip_forward_kept:
  assumes run: "process_ip_forward now ctx frm fb d = Some (rv, ctx')"
    and fb: "frame_bytes ctx frm = Some fb0" and nw: "not_withheld ctx frm"
  shows "frame_bytes ctx' frm = Some fb0 \<and> not_withheld ctx' frm"
proof -
  from run obtain r where r: "chirouter_get_matching_entry ctx fb = Some r"
    by (auto simp: process_ip_forward_def bind_eq_Some_conv)
  show ?thesis
  proof (cases r)
    case None
    with run process_ip_forward_no_route [of ctx fb now frm d] r fb nw show ?thesis
      by (auto simp: send_icmp_kept)
  next
    case (Some i)
    let ?nh = "get_forward_ip (routing_table ctx ! i) d"
    from r Some have i: "chirouter_get_matching_entry ctx fb = Some (Some i)" by simp
    show ?thesis
    proof (cases "chirouter_arp_cache_lookup ctx ?nh")
      case (Some e)
      with run i obtain ttl :: byte and ctx1 where
        "(if ttl = 1 then chirouter_send_icmp ctx ICMPTYPE_TIME_EXCEEDED 0 frm
          else forward_ip_datagram ctx frm (cache_mac e)) = Some ctx1" "ctx' = ctx1"
        by (auto simp: process_ip_forward_def uint32_to_in_addr_def Let_def bind_eq_Some_conv)
      with fb nw show ?thesis
        by (auto simp: send_icmp_kept forward_kept split: if_splits)
    next
      case None
      note miss = this
      show ?thesis
      proof (cases "chirouter_arp_pending_req_lookup ctx ?nh")
        case (Some p)
        from run process_ip_forward_pending [OF i miss Some, of now frm]
        obtain res where "chirouter_arp_pending_req_add_frame ctx p frm = Some (res, ctx')"
          by auto
        from add_frame_kept [OF this fb nw] show ?thesis .
      next
        case None
        let ?c = "(chirouter_send_arp_message ctx (interface (routing_table ctx ! i)) None
                    ?nh ARP_OP_REQUEST)
                 \<lparr>pending_arp_reqs := pending_arp_reqs ctx @
                    [\<lparr>req_ip = ?nh, times_sent = 1,
                      last_sent = now, out_interface = interface (routing_table ctx ! i),
                      withheld_frames = []\<rparr>]\<rparr>"
        from run process_ip_forward_new [OF i miss None, of now frm]
        obtain res where
          a: "chirouter_arp_pending_req_add_frame ?c (length (pending_arp_reqs ctx)) frm
                = Some (res, ctx')"
          by auto
        have "frame_bytes ?c frm = Some fb0" "not_withheld ?c frm"
          using fb nw by (simp_all add: arp_message_sent not_withheld_def)
        from add_frame_kept [OF a this] show ?thesis .
      qed
    qed
  qed
qed

lemma cache_add_ctx:
  "\<exists>r c. chirouter_arp_cache_add now ctx a m = (r, ctx\<lparr>arp_cache := c\<rparr>)"
proof (cases "fst (chirouter_arp_cache_add now ctx a m) = 0")
  case True
  from cache_add_lookup [OF this] show ?thesis by blast
next
  case False
  with cache_add_result [of now ctx a m]
  have "chirouter_arp_cache_add now ctx a m = (1, ctx\<lparr>arp_cache := arp_cache ctx\<rparr>)" by simp
  then show ?thesis by blast
qed

lemma not_withheld_entry:
  assumes "not_withheld ctx frm" "p < length (pending_arp_reqs ctx)"
  shows "raw frm \<notin> raw ` set (withheld_frames (pending_arp_reqs ctx ! p))"
proof -
  from assms have "list_all (\<lambda>w. raw w \<noteq> raw frm) (withheld_frames (pending_arp_reqs ctx ! p))"
    by (simp add: not_withheld_def list_all_length)
  then show ?thesis by (auto simp: list_all_iff)
qed

lemma not_withheld_delete:
  assumes "not_withheld ctx frm"
  shows "not_withheld (c\<lparr>pending_arp_reqs := DL_DELETE (pending_arp_reqs ctx) p\<rparr>) frm"
  using assms
  by (auto simp: not_withheld_def DL_DELETE_def list_all_iff dest: in_set_takeD in_set_dropD)

lemma arp_reply_kept:
  assumes run: "(case chirouter_arp_pending_req_lookup ctx a of
                None \<Rightarrow> Some (Ret 0, ctx)
              | Some p \<Rightarrow> do {
                  ctx2 \<leftarrow> drain_withheld ctx (withheld_frames (pending_arp_reqs ctx ! p)) sha;
                  let (result, ctx3) = chirouter_arp_pending_req_free_frames ctx2 p;
                  if result = 1 then Some (Ret result, ctx3)
                  else Some (Ret 0, ctx3\<lparr>pending_arp_reqs :=
                                            DL_DELETE (pending_arp_reqs ctx3) p\<rparr>) })
              = Some (rv, ctx')"
    and fb: "frame_bytes ctx frm = Some fb0" and nw: "not_withheld ctx frm"
  shows "frame_bytes ctx' frm = Some fb0 \<and> not_withheld ctx' frm"
proof (cases "chirouter_arp_pending_req_lookup ctx a")
  case None
  with run fb nw show ?thesis by simp
next
  case (Some p)
  let ?ws = "withheld_frames (pending_arp_reqs ctx ! p)"
  from pending_lookup_bound [OF Some] have p: "p < length (pending_arp_reqs ctx)" by simp
  from run Some obtain ctx2 where d: "drain_withheld ctx ?ws sha = Some ctx2"
    and rest: "(let (result, ctx3) = chirouter_arp_pending_req_free_frames ctx2 p
                in if result = 1 then Some (Ret result, ctx3)
                   else Some (Ret 0, ctx3\<lparr>pending_arp_reqs :=
                                            DL_DELETE (pending_arp_reqs ctx3) p\<rparr>))
               = Some (rv, ctx')"
    by (auto simp: bind_eq_Some_conv)
  from drain_withheld_sent [OF d] obtain x where c2: "ctx2 = ctx\<lparr>sent := x\<rparr>" by blast
  let ?c3 = "fold (\<lambda>w c. free c (raw w)) ?ws ctx2"
  from rest have c': "ctx' = ?c3\<lparr>pending_arp_reqs := DL_DELETE (pending_arp_reqs ctx) p\<rparr>"
    by (simp add: chirouter_arp_pending_req_free_frames_def Let_def c2)
  have "frame_bytes ctx' frm = Some fb0"
    using not_withheld_entry [OF nw p] fb
    by (simp add: c' frame_bytes_fold_free c2)
  moreover have "not_withheld ctx' frm"
    unfolding c' by (rule not_withheld_delete [OF nw])
  ultimately show ?thesis by simp
qed

lemma process_arp_kept:
  assumes run: "process_arp now ctx frm fb = Some (rv, ctx')"
    and fb: "frame_bytes ctx frm = Some fb0" and nw: "not_withheld ctx frm"
  shows "frame_bytes ctx' frm = Some fb0 \<and> not_withheld ctx' frm"
proof -
  from run obtain tpa where tpa: "load32 fb 38 = Some tpa"
    by (auto simp: process_arp_def bind_eq_Some_conv)
  show ?thesis
  proof (cases "tpa = in_addr_to_uint32 (ip (in_interface frm))")
    case False
    with run tpa fb nw show ?thesis by (simp add: process_arp_def)
  next
    case True
    with run tpa obtain op where op: "load16 fb 20 = Some op"
      by (auto simp: process_arp_def bind_eq_Some_conv)
    consider "op = ARP_OP_REPLY" | "op \<noteq> ARP_OP_REPLY" "op = ARP_OP_REQUEST"
      | "op \<noteq> ARP_OP_REPLY" "op \<noteq> ARP_OP_REQUEST" by blast
    then show ?thesis
    proof cases
      case 1
      with run tpa True op obtain spa sha where
        "load32 fb 28 = Some spa" "load fb 22 6 = Some sha"
        and rest: "(let (result, ctx1) = chirouter_arp_cache_add now ctx spa sha
          in if result \<noteq> 0 then Some (Ret (- 1), ctx1)
             else (case chirouter_arp_pending_req_lookup ctx1 spa of
                None \<Rightarrow> Some (Ret 0, ctx1)
              | Some p \<Rightarrow> do {
                  ctx2 \<leftarrow> drain_withheld ctx1 (withheld_frames (pending_arp_reqs ctx1 ! p)) sha;
                  let (result, ctx3) = chirouter_arp_pending_req_free_frames ctx2 p;
                  if result = 1 then Some (Ret result, ctx3)
                  else Some (Ret 0, ctx3\<lparr>pending_arp_reqs :=
                                            DL_DELETE (pending_arp_reqs ctx3) p\<rparr>) }))
          = Some (rv, ctx')"
        unfolding process_arp_def uint32_to_in_addr_def
        by (auto simp: bind_eq_Some_conv)
      from cache_add_ctx [of now ctx spa sha] obtain r c where
        c: "chirouter_arp_cache_add now ctx spa sha = (r, ctx\<lparr>arp_cache := c\<rparr>)" by blast
      let ?c1 = "ctx\<lparr>arp_cache := c\<rparr>"
      have k: "frame_bytes ?c1 frm = Some fb0" "not_withheld ?c1 frm"
        using fb nw by simp_all
      show ?thesis
      proof (cases "r = 0")
        case False
        with rest c k show ?thesis by auto
      next
        case True
        with rest c have "(case chirouter_arp_pending_req_lookup ?c1 spa of
                None \<Rightarrow> Some (Ret 0, ?c1)
              | Some p \<Rightarrow> do {
                  ctx2 \<leftarrow> drain_withheld ?c1 (withheld_frames (pending_arp_reqs ?c1 ! p)) sha;
                  let (result, ctx3) = chirouter_arp_pending_req_free_frames ctx2 p;
                  if result = 1 then Some (Ret result, ctx3)
                  else Some (Ret 0, ctx3\<lparr>pending_arp_reqs :=
                                            DL_DELETE (pending_arp_reqs ctx3) p\<rparr>) })
              = Some (rv, ctx')"
          by simp
        from arp_reply_kept [OF this k] show ?thesis .
      qed
    next
      case 2
      with run tpa True op fb nw show ?thesis
        by (auto simp: process_arp_def bind_eq_Some_conv arp_message_sent)
    next
      case 3
      with run tpa True op fb nw show ?thesis
        by (auto simp: process_arp_def)
    qed
  qed
qed

text \<open>
  C10. A call that returns leaves the buffer of the inbound frame as it was: when no
  withheld frame of the pending list lives in that buffer before the call, the buffer
  holds the same bytes after the call, and still no withheld frame lives in it, so the
  frame the call may have attached to a pending request is a copy in another buffer.
  (Responses, ARP messages and forwarded frames are built in arrays local to the
  functions that send them; the only writes to allocated buffers are the copy of a
  withheld frame into a new buffer and the release of withheld buffers.)
\<close>

theorem inbound_buffer_unchanged:
  assumes run: "chirouter_process_ethernet_frame now ctx frm = Some (rv, ctx')"
    and nw: "not_withheld ctx frm"
  shows "frame_bytes ctx' frm = frame_bytes ctx frm \<and> not_withheld ctx' frm"
proof -
  from run obtain fb hdr_type where fb: "frame_bytes ctx frm = Some fb"
    and ty: "load16 fb 12 = Some hdr_type"
    by (auto simp: chirouter_process_ethernet_frame_def bind_eq_Some_conv)
  have "frame_bytes ctx' frm = Some fb \<and> not_withheld ctx' frm"
  proof (cases "hdr_type = ETHERTYPE_IP \<or> hdr_type = ETHERTYPE_IPV6")
    case True
    with run fb ty obtain dst where dst: "load32 fb 30 = Some dst"
      by (auto simp: chirouter_process_ethernet_frame_def bind_eq_Some_conv)
    show ?thesis
    proof (cases "dst = in_addr_to_uint32 (ip (in_interface frm))")
      case True
      with run fb ty dst \<open>hdr_type = ETHERTYPE_IP \<or> hdr_type = ETHERTYPE_IPV6\<close>
      obtain ctx1 where "process_ip_to_router ctx frm fb = Some ctx1" "ctx' = ctx1"
        by (auto simp: chirouter_process_ethernet_frame_def bind_eq_Some_conv)
      with to_router_kept [of ctx frm fb ctx1] fb nw show ?thesis by simp
    next
      case False
      with run fb ty dst \<open>hdr_type = ETHERTYPE_IP \<or> hdr_type = ETHERTYPE_IPV6\<close>
      obtain other where other: "chirouter_find_match_router ctx fb = Some other"
        and rest: "(if other then do {
           ctx1 \<leftarrow> chirouter_send_icmp ctx ICMPTYPE_DEST_UNREACHABLE
                     ICMPCODE_DEST_HOST_UNREACHABLE frm;
           Some (Ret 0, ctx1) }
         else process_ip_forward now ctx frm fb dst) = Some (rv, ctx')"
        by (auto simp: chirouter_process_ethernet_frame_def bind_eq_Some_conv)
      show ?thesis
      proof (cases other)
        case True
        with rest fb nw show ?thesis
          by (auto simp: bind_eq_Some_conv send_icmp_kept)
      next
        case False
        with rest have "process_ip_forward now ctx frm fb dst = Some (rv, ctx')" by simp
        from ip_forward_kept [OF this fb nw] show ?thesis .
      qed
    qed
  next
    case False
    note not_ip = this
    show ?thesis
    proof (cases "hdr_type = ETHERTYPE_ARP")
      case True
      with run fb ty not_ip have "process_arp now ctx frm fb = Some (rv, ctx')"
        by (auto simp: chirouter_process_ethernet_frame_def)
      from process_arp_kept [OF this fb nw] show ?thesis .
    next
      case False
      with run fb ty not_ip fb nw show ?thesis
        by (auto simp: chirouter_process_ethernet_frame_def)
    qed
  qed
  with fb show ?thesis by simp
qed


lemma pend_udp_run:
  "\<exists>ctx'. chirouter_process_ethernet_frame now pend_ctx udp_frm = Some (Ret 0, ctx')
     \<and> length (heap ctx') = 9
     \<and> map (map raw \<circ> withheld_frames) (pending_arp_reqs ctx') = [[6, 7, 8]]"
proof -
  have fb: "frame_bytes pend_ctx udp_frm = Some udp_bytes"
    by (simp add: frame_bytes_heap [OF ex_ctx_parts(8)] ex_heap)
  have rt: "chirouter_get_matching_entry pend_ctx udp_bytes = Some (Some 1)"
    by (rule ex_route(1) [OF ex_ctx_parts(6)])
  have nh: "get_forward_ip (routing_table pend_ctx ! 1) (ip_dst udp_bytes) = 0x0500A8C0"
    unfolding ex_ctx_parts(6) by (rule ex_udp_path(4) [symmetric])
  have run: "chirouter_process_ethernet_frame now pend_ctx udp_frm =
               process_ip_forward now pend_ctx udp_frm udp_bytes (ip_dst udp_bytes)"
    using fb ex_udp_path(1) udp_fields(2) ex_udp_path(3) ex_no_other [OF ex_ctx_parts(7)]
    by (intro process_frame_forward) simp_all
  have fwd: "process_ip_forward now pend_ctx udp_frm udp_bytes (ip_dst udp_bytes) =
           map_option (\<lambda>(result, ctx1). (if result = 1 then Ret (- 1) else Ret 0, ctx1))
             (chirouter_arp_pending_req_add_frame pend_ctx 0 udp_frm)"
    by (rule process_ip_forward_pending [OF rt])
       (simp_all only: nh ex_lookups)
  have h: "length (heap pend_ctx) = 8" "avail pend_ctx = 4096"
    "pending_arp_reqs pend_ctx =
       [\<lparr>req_ip = 0x0500A8C0, times_sent = 1, last_sent = 0, out_interface = eth1,
         withheld_frames = [\<lparr>raw = 6, flength = 42, in_interface = eth0\<rparr>,
                            \<lparr>raw = 7, flength = 42, in_interface = eth0\<rparr>]\<rparr>]"
    by (simp_all add: ex_ctx_def pend_ctx_def)
  have p: "0 < length (pending_arp_reqs pend_ctx)" by (simp add: h)
  show ?thesis
    unfolding run fwd add_frame_eq [OF p]
    by (simp add: fb h ex_frm_parts udp_fields)
qed

lemma pend_not_withheld: "not_withheld pend_ctx udp_frm"
  by (simp add: not_withheld_def pend_ctx_def udp_frm_def)

theorem inbound_buffer_unchanged_witness:
  "not_withheld pend_ctx udp_frm
   \<and> frame_bytes pend_ctx udp_frm = Some udp_bytes
   \<and> (\<exists>ctx'. chirouter_process_ethernet_frame 7 pend_ctx udp_frm = Some (Ret 0, ctx')
        \<and> length (heap pend_ctx) = 8 \<and> length (heap ctx') = 9
        \<and> map (map raw \<circ> withheld_frames) (pending_arp_reqs ctx') = [[6, 7, 8]]
        \<and> frame_bytes ctx' udp_frm = Some udp_bytes
        \<and> not_withheld ctx' udp_frm)"
proof -
  have fb: "frame_bytes pend_ctx udp_frm = Some udp_bytes"
    by (simp add: frame_bytes_heap [OF ex_ctx_parts(8)] ex_heap)
  have h: "length (heap pend_ctx) = 8" by (simp add: ex_ctx_def pend_ctx_def)
  from pend_udp_run [of 7] obtain ctx' where
    run: "chirouter_process_ethernet_frame 7 pend_ctx udp_frm = Some (Ret 0, ctx')"
    and l: "length (heap ctx') = 9"
      "map (map raw \<circ> withheld_frames) (pending_arp_reqs ctx') = [[6, 7, 8]]"
    by (elim exE conjE)
  from inbound_buffer_unchanged [OF run pend_not_withheld] fb
  have "frame_bytes ctx' udp_frm = Some udp_bytes" "not_withheld ctx' udp_frm" by simp_all
  with run l h fb pend_not_withheld show ?thesis
    by (intro conjI exI [of _ ctx'])
qed

end
